(* ===== verification/Prelude.thy ===== *)
theory Prelude
  imports Main "HOL-Library.AList" "HOL-Library.Sublist"
begin

text \<open>
  Shared vocabulary of the development.  Go strings are byte strings, so they
  are HOL strings (a HOL character is one byte).  A Go \<^verbatim>\<open>int64\<close> is an \<^typ>\<open>int\<close>
  whose wrap-around is written out with \<open>wrap64\<close> wherever the source can
  overflow.  The parts of the Go standard library the sources use
  (\<^verbatim>\<open>strconv.ParseInt\<close>, \<^verbatim>\<open>strconv.FormatInt\<close>, \<^verbatim>\<open>strings.ToUpper\<close>,
  \<^verbatim>\<open>strings.HasPrefix\<close>, ...) are modelled here, followed by the generic lemmas
  on lists and association lists that the component theories share.

  \<^verbatim>\<open>strings.ToUpper\<close> maps ASCII letters and the two non-ASCII code points whose
  upper case is an ASCII letter (U+0131 and U+017F); every other byte is kept.
  The sources only compare the result with ASCII literals, and for those
  comparisons this is exact.
\<close>

named_theorems codec_simps \<open>round trips of the textual encodings\<close>
named_theorems table_simps \<open>lookup after update and delete on row tables\<close>
named_theorems frame_simps \<open>what an operation leaves unchanged\<close>

section \<open>Integers of the machine\<close>

definition max_int64 :: int where
  "max_int64 = 9223372036854775807"

definition min_int64 :: int where
  "min_int64 = - 9223372036854775808"

definition wrap64 :: "int \<Rightarrow> int" where
  "wrap64 x = (x + 9223372036854775808) mod 18446744073709551616 - 9223372036854775808"

definition int64 :: "int \<Rightarrow> bool" where
  "int64 x = (min_int64 \<le> x \<and> x \<le> max_int64)"

section \<open>Bytes and ASCII strings\<close>

abbreviation CR :: char where "CR \<equiv> CHR 0x0D"
abbreviation LF :: char where "LF \<equiv> CHR 0x0A"
abbreviation NUL :: char where "NUL \<equiv> CHR 0x00"

abbreviation HasPrefix :: "string \<Rightarrow> string \<Rightarrow> bool" where
  "HasPrefix s p \<equiv> prefix p s"

abbreviation HasSuffix :: "string \<Rightarrow> string \<Rightarrow> bool" where
  "HasSuffix s p \<equiv> suffix p s"

definition upper_char :: "char \<Rightarrow> char" where
  "upper_char c = (let n = of_char c :: nat in
     if 97 \<le> n \<and> n \<le> 122 then char_of (n - 32) else c)"

definition lower_char :: "char \<Rightarrow> char" where
  "lower_char c = (let n = of_char c :: nat in
     if 65 \<le> n \<and> n \<le> 90 then char_of (n + 32) else c)"

fun ToUpper :: "string \<Rightarrow> string" where
  "ToUpper (a # b # s) =
     (if a = CHR 0xC4 \<and> b = CHR 0xB1 then CHR ''I'' # ToUpper s
      else if a = CHR 0xC5 \<and> b = CHR 0xBF then CHR ''S'' # ToUpper s
      else upper_char a # ToUpper (b # s))"
| "ToUpper [a] = [upper_char a]"
| "ToUpper [] = []"

section \<open>strconv\<close>

datatype num_error = ErrSyntax | ErrRange

definition is_digit :: "char \<Rightarrow> bool" where
  "is_digit c = (48 \<le> (of_char c :: nat) \<and> (of_char c :: nat) \<le> 57)"

definition digit_val :: "char \<Rightarrow> nat" where
  "digit_val c = of_char c - 48"

definition digit_char :: "nat \<Rightarrow> char" where
  "digit_char d = ''0123456789'' ! d"

fun ParseUint_loop :: "string \<Rightarrow> nat \<Rightarrow> num_error + nat" where
  "ParseUint_loop [] n = Inr n"
| "ParseUint_loop (c # s) n =
     (if \<not> is_digit c then Inl ErrSyntax
      else if 18446744073709551615 < n * 10 + digit_val c then Inl ErrRange
      else ParseUint_loop s (n * 10 + digit_val c))"

definition ParseUint :: "string \<Rightarrow> num_error + nat" where
  "ParseUint s = (if s = [] then Inl ErrSyntax else ParseUint_loop s 0)"

definition ParseInt :: "string \<Rightarrow> num_error + int" where
  "ParseInt s =
     (if s = [] then Inl ErrSyntax
      else let neg = (hd s = CHR ''-'');
               body = (if hd s = CHR ''+'' \<or> hd s = CHR ''-'' then tl s else s)
           in case ParseUint body of
                Inl e \<Rightarrow> Inl e
              | Inr un \<Rightarrow>
                  if \<not> neg \<and> 9223372036854775808 \<le> un then Inl ErrRange
                  else if neg \<and> 9223372036854775808 < un then Inl ErrRange
                  else Inr (if neg then - int un else int un))"

abbreviation Atoi :: "string \<Rightarrow> num_error + int" where
  "Atoi \<equiv> ParseInt"

fun FormatUint :: "nat \<Rightarrow> string" where
  "FormatUint n = (if n < 10 then [digit_char n]
                   else FormatUint (n div 10) @ [digit_char (n mod 10)])"

declare FormatUint.simps [simp del]

definition FormatInt :: "int \<Rightarrow> string" where
  "FormatInt x = (if x < 0 then CHR ''-'' # FormatUint (nat (- x)) else FormatUint (nat x))"

abbreviation Itoa :: "int \<Rightarrow> string" where
  "Itoa \<equiv> FormatInt"

section \<open>Lemmas on machine integers\<close>

lemma wrap64_id [simp]: "int64 x \<Longrightarrow> wrap64 x = x"
  by (simp add: wrap64_def int64_def min_int64_def max_int64_def)

lemma int64_wrap64 [simp, intro]: "int64 (wrap64 x)"
proof -
  have "0 \<le> (x + 9223372036854775808) mod 18446744073709551616"
    and "(x + 9223372036854775808) mod 18446744073709551616 < 18446744073709551616"
    by simp_all
  then show ?thesis by (simp add: wrap64_def int64_def min_int64_def max_int64_def)
qed

lemma int64_bounds: "int64 x \<longleftrightarrow> - 9223372036854775808 \<le> x \<and> x \<le> 9223372036854775807"
  by (simp add: int64_def min_int64_def max_int64_def)

section \<open>Lemmas on strconv\<close>

lemma digit_char_props:
  assumes "d < 10"
  shows "is_digit (digit_char d)" "digit_val (digit_char d) = d"
proof -
  have "d \<in> {0, 1, 2, 3, 4, 5, 6, 7, 8, 9}" using assms by auto
  then show "is_digit (digit_char d)" "digit_val (digit_char d) = d"
    by (auto simp: is_digit_def digit_val_def digit_char_def)
qed

lemma is_digit_not_special:
  assumes "is_digit c"
  shows "c \<noteq> CHR ''-''" "c \<noteq> CHR ''+''" "c \<noteq> CR" "c \<noteq> LF"
  using assms by (auto simp: is_digit_def)

lemma FormatUint_nonempty [simp]: "FormatUint n \<noteq> []"
  by (subst FormatUint.simps) simp

lemma FormatUint_digits: "c \<in> set (FormatUint n) \<Longrightarrow> is_digit c"
proof (induction n rule: FormatUint.induct)
  case (1 n)
  then show ?case
    by (subst (asm) (2) FormatUint.simps) (auto split: if_splits simp: digit_char_props)
qed

lemma ParseUint_loop_append:
  "ParseUint_loop (s @ t) n =
     (case ParseUint_loop s n of Inl e \<Rightarrow> Inl e | Inr m \<Rightarrow> ParseUint_loop t m)"
  by (induction s arbitrary: n) auto

lemma ParseUint_loop_FormatUint:
  "n \<le> 18446744073709551615 \<Longrightarrow> ParseUint_loop (FormatUint n) 0 = Inr n"
proof (induction n rule: FormatUint.induct)
  case (1 n)
  show ?case
  proof (cases "n < 10")
    case True
    then show ?thesis by (subst FormatUint.simps) (simp add: digit_char_props)
  next
    case False
    have "n div 10 \<le> 18446744073709551615"
      using 1(2) by (meson div_le_dividend le_trans)
    then have IH: "ParseUint_loop (FormatUint (n div 10)) 0 = Inr (n div 10)"
      using 1(1) False by blast
    have "n div 10 * 10 + n mod 10 = n" by simp
    with IH False 1(2) show ?thesis
      by (subst FormatUint.simps) (simp add: ParseUint_loop_append digit_char_props)
  qed
qed

lemma ParseUint_FormatUint [codec_simps]:
  "n \<le> 18446744073709551615 \<Longrightarrow> ParseUint (FormatUint n) = Inr n"
  by (simp add: ParseUint_def ParseUint_loop_FormatUint)

lemma hd_FormatUint_digit: "is_digit (hd (FormatUint n))"
  by (rule FormatUint_digits [of _ n]) simp

lemma ParseInt_FormatInt [codec_simps]:
  assumes "int64 x"
  shows "ParseInt (FormatInt x) = Inr x"
proof (cases "x < 0")
  case True
  then have "nat (- x) \<le> 9223372036854775808" using assms by (simp add: int64_bounds)
  with True show ?thesis
    by (simp add: ParseInt_def FormatInt_def ParseUint_FormatUint)
next
  case False
  then have "nat x \<le> 9223372036854775807" using assms by (simp add: int64_bounds)
  with False show ?thesis
    using is_digit_not_special [OF hd_FormatUint_digit [of "nat x"]]
    by (simp add: ParseInt_def FormatInt_def ParseUint_FormatUint)
qed

lemma FormatInt_clean:
  assumes "c \<in> set (FormatInt x)"
  shows "c \<noteq> CR" "c \<noteq> LF"
  using assms by (auto simp: FormatInt_def is_digit_def split: if_splits
      dest!: FormatUint_digits)

lemma FormatInt_nonempty [simp]: "FormatInt x \<noteq> []"
  by (simp add: FormatInt_def)

lemma ParseUint_loop_bound: "ParseUint_loop s n = Inr m \<Longrightarrow> n \<le> m"
proof (induction s arbitrary: n)
  case (Cons c s)
  then have "n * 10 + digit_val c \<le> m" by (auto split: if_splits)
  then show ?case by simp
qed simp

lemma ParseInt_int64: "ParseInt s = Inr x \<Longrightarrow> int64 x"
  by (auto simp: ParseInt_def Let_def int64_bounds split: if_splits sum.splits)

lemma map_sum_Inr: "map_sum id f x = Inr y \<longleftrightarrow> (\<exists>z. x = Inr z \<and> y = f z)"
  by (cases x) auto

end
