(* ===== verification/Resp.thy ===== *)
theory Resp
  imports Prelude
begin

text \<open>
  The RESP wire protocol of \<^verbatim>\<open>src/internal/resp/resp.go\<close>: the reader, the
  writer and the reply constructors.  The reader consumes a byte string and
  returns the value with the unread rest; the writer returns the bytes it
  appends to the buffer together with its error, if any.  A value is the Go
  struct with all of its fields.  A nil and an empty slice are the same list;
  \<^verbatim>\<open>MapData\<close> is an association list in the order the writer's \<^verbatim>\<open>range\<close> visits it.
  Failures of the underlying connection and the debug log are not modelled.
\<close>

section \<open>Values and limits\<close>

definition MaxBulkLen :: int where
  "MaxBulkLen = 512 * 1024 * 1024"

definition MaxArrayLen :: int where
  "MaxArrayLen = 1048576"

datatype RType = SimpleString | Error | Integer | BulkString | Array | NullType | Boolean
  | Double | BigNumber | BulkError | VerbatimStr | MapType | SetType | PushType

primrec typeByte :: "RType \<Rightarrow> char" where
  "typeByte SimpleString = CHR ''+''"
| "typeByte Error = CHR ''-''"
| "typeByte Integer = CHR '':''"
| "typeByte BulkString = CHR ''$''"
| "typeByte Array = CHR ''*''"
| "typeByte NullType = CHR ''_''"
| "typeByte Boolean = CHR ''#''"
| "typeByte Double = CHR '',''"
| "typeByte BigNumber = CHR ''(''"
| "typeByte BulkError = CHR ''!''"
| "typeByte VerbatimStr = CHR ''=''"
| "typeByte MapType = CHR ''%''"
| "typeByte SetType = CHR ''~''"
| "typeByte PushType = CHR ''>''"

datatype Value = Value (vType: RType) (vStr: string) (vNum: int) (vBulk: string)
  (vArray: "Value list") (vMap: "(string \<times> string) list") (vNull: bool)

datatype go_error = EOF | ErrUnexpectedEOF | NumError string num_error | ErrorString string

section \<open>Reply constructors\<close>

definition SimpleVal :: "string \<Rightarrow> Value" where
  "SimpleVal s = Value SimpleString s 0 [] [] [] False"

definition ErrCustom :: "string \<Rightarrow> Value" where
  "ErrCustom msg = Value Error msg 0 [] [] [] False"

definition OK :: Value where
  "OK = SimpleVal ''OK''"

definition Err :: "string \<Rightarrow> Value" where
  "Err msg = (if HasPrefix msg ''ERR '' then ErrCustom msg else ErrCustom (''ERR '' @ msg))"

definition ErrWrongType :: Value where
  "ErrWrongType = ErrCustom ''WRONGTYPE Operation against a key holding the wrong kind of value''"

definition ErrWrongArgs :: "string \<Rightarrow> Value" where
  "ErrWrongArgs cmd =
     ErrCustom (''ERR wrong number of arguments for '' @ [CHR 0x27] @ cmd @ [CHR 0x27] @ '' command'')"

definition NullBulk :: Value where
  "NullBulk = Value BulkString [] 0 [] [] [] True"

definition NullArray :: Value where
  "NullArray = Value Array [] 0 [] [] [] True"

definition IntVal :: "int \<Rightarrow> Value" where
  "IntVal n = Value Integer [] n [] [] [] False"

definition Bulk :: "string \<Rightarrow> Value" where
  "Bulk s = Value BulkString [] 0 s [] [] False"

definition Arr :: "Value list \<Rightarrow> Value" where
  "Arr vs = Value Array [] 0 [] vs [] False"

definition MapVal :: "(string \<times> string) list \<Rightarrow> Value" where
  "MapVal m = Value MapType [] 0 [] [] m False"

lemmas reply_defs = SimpleVal_def ErrCustom_def OK_def NullBulk_def NullArray_def IntVal_def
  Bulk_def Arr_def MapVal_def

section \<open>Reader\<close>

text \<open>\<^verbatim>\<open>ReadString\<close> up to the newline, then the check of the carriage return.\<close>

definition readLine :: "string \<Rightarrow> go_error + (string \<times> string)" where
  "readLine s =
     (let line = takeWhile (\<lambda>c. c \<noteq> LF) s; rest = dropWhile (\<lambda>c. c \<noteq> LF) s
      in if rest = [] then Inl EOF
         else if line = [] \<or> last line \<noteq> CR then Inl (ErrorString ''invalid RESP line ending'')
         else Inr (butlast line, tl rest))"

definition readSimpleString :: "string \<Rightarrow> go_error + (Value \<times> string)" where
  "readSimpleString s =
     (case readLine s of Inl e \<Rightarrow> Inl e
      | Inr (line, rest) \<Rightarrow> Inr (Value SimpleString line 0 [] [] [] False, rest))"

definition readError :: "string \<Rightarrow> go_error + (Value \<times> string)" where
  "readError s =
     (case readLine s of Inl e \<Rightarrow> Inl e
      | Inr (line, rest) \<Rightarrow> Inr (Value Error line 0 [] [] [] False, rest))"

definition readInteger :: "string \<Rightarrow> go_error + (Value \<times> string)" where
  "readInteger s =
     (case readLine s of Inl e \<Rightarrow> Inl e
      | Inr (line, rest) \<Rightarrow>
          (case ParseInt line of Inl e \<Rightarrow> Inl (NumError line e)
           | Inr num \<Rightarrow> Inr (Value Integer [] num [] [] [] False, rest)))"

definition readBulkString :: "string \<Rightarrow> go_error + (Value \<times> string)" where
  "readBulkString s =
     (case readLine s of Inl e \<Rightarrow> Inl e
      | Inr (line, rest) \<Rightarrow>
          (case Atoi line of Inl e \<Rightarrow> Inl (NumError line e)
           | Inr len \<Rightarrow>
               if len = -1 then Inr (NullBulk, rest)
               else if len < 0 then
                 Inl (ErrorString (''invalid bulk string length: '' @ Itoa len))
               else if len > MaxBulkLen then
                 Inl (ErrorString (''bulk string length '' @ Itoa len @ '' exceeds limit ''
                        @ Itoa MaxBulkLen))
               else if rest = [] then Inl EOF
               else if length rest < nat len + 2 then Inl ErrUnexpectedEOF
               else Inr (Bulk (take (nat len) rest), drop (nat len + 2) rest)))"

text \<open>
  The header of \<^verbatim>\<open>readArray\<close>: None is the null array, Some n a count to read.
\<close>

definition readArrayLen :: "string \<Rightarrow> go_error + (nat option \<times> string)" where
  "readArrayLen s =
     (case readLine s of Inl e \<Rightarrow> Inl e
      | Inr (line, rest) \<Rightarrow>
          (case Atoi line of Inl e \<Rightarrow> Inl (NumError line e)
           | Inr count \<Rightarrow>
               if count = -1 then Inr (None, rest)
               else if count < 0 then
                 Inl (ErrorString (''invalid array length: '' @ Itoa count))
               else if count > MaxArrayLen then
                 Inl (ErrorString (''array length '' @ Itoa count @ '' exceeds limit ''
                        @ Itoa MaxArrayLen))
               else Inr (Some (nat count), rest)))"

text \<open>
  \<open>readElems\<close> is the element loop of \<^verbatim>\<open>readArray\<close>; it and \<open>Read\<close> call each
  other without a depth limit, as in the source.
\<close>

function (sequential) Read :: "string \<Rightarrow> go_error + (Value \<times> string)"
  and readElems :: "nat \<Rightarrow> string \<Rightarrow> go_error + (Value list \<times> string)" where
  "Read [] = Inl EOF"
| "Read (c # s) =
     (if c = CHR ''+'' then readSimpleString s
      else if c = CHR ''-'' then readError s
      else if c = CHR '':'' then readInteger s
      else if c = CHR ''$'' then readBulkString s
      else if c = CHR ''*'' then
        (case readArrayLen s of Inl e \<Rightarrow> Inl e
         | Inr (None, rest) \<Rightarrow> Inr (NullArray, rest)
         | Inr (Some count, rest) \<Rightarrow>
             (case readElems count rest of Inl e \<Rightarrow> Inl e
              | Inr (vs, rest') \<Rightarrow> Inr (Arr vs, rest')))
      else Inl (ErrorString (''unknown RESP type: '' @ [c])))"
| "readElems 0 s = Inr ([], s)"
| "readElems (Suc n) s =
     (case Read s of Inl e \<Rightarrow> Inl e
      | Inr (v, rest) \<Rightarrow>
          (case readElems n rest of Inl e \<Rightarrow> Inl e
           | Inr (vs, rest') \<Rightarrow> Inr (v # vs, rest')))"
  by pat_completeness auto

lemma readLine_shorter: "readLine s = Inr (l, r) \<Longrightarrow> length r < length s"
proof -
  assume "readLine s = Inr (l, r)"
  then have "dropWhile (\<lambda>c. c \<noteq> LF) s \<noteq> []" "r = tl (dropWhile (\<lambda>c. c \<noteq> LF) s)"
    by (auto simp: readLine_def Let_def split: if_splits)
  then have "length r < length (dropWhile (\<lambda>c. c \<noteq> LF) s)" by simp
  also have "\<dots> \<le> length s" by (rule length_dropWhile_le)
  finally show ?thesis .
qed

lemma readArrayLen_shorter: "readArrayLen s = Inr (n, r) \<Longrightarrow> length r < length s"
  by (auto simp: readArrayLen_def readLine_shorter split: sum.splits if_splits)

lemma readScalar_shorter:
  "readSimpleString s = Inr (v, r) \<Longrightarrow> length r < length s"
  "readError s = Inr (v, r) \<Longrightarrow> length r < length s"
  "readInteger s = Inr (v, r) \<Longrightarrow> length r < length s"
  "readBulkString s = Inr (v, r) \<Longrightarrow> length r < length s"
  by (auto simp: readSimpleString_def readError_def readInteger_def readBulkString_def
      dest!: readLine_shorter split: sum.splits if_splits)

lemma Read_dom_shorter:
  "Read_readElems_dom (Inl s) \<Longrightarrow> Read s = Inr (v, r) \<Longrightarrow> length r < length s"
  "Read_readElems_dom (Inr (n, s)) \<Longrightarrow> readElems n s = Inr (vs, r) \<Longrightarrow> length r \<le> length s"
proof (induction s and n s arbitrary: v r and vs r rule: Read_readElems.pinduct)
  case (2 c s)
  then show ?case
    by (auto simp: Read.psimps split: if_splits sum.splits option.splits
        dest!: readScalar_shorter readArrayLen_shorter) fastforce+
next
  case (4 n s)
  from 4(4) obtain v1 r1 vs1 where "Read s = Inr (v1, r1)" "readElems n r1 = Inr (vs1, r)"
    by (auto simp: readElems.psimps(2) [OF 4(1)] split: sum.splits)
  with 4(2) [OF this(1)] 4(3) [OF this(1) refl this(2)] show ?case by linarith
qed (auto simp: Read.psimps readElems.psimps)

termination Read
  apply (relation "inv_image (less_than <*lex*> less_than)
    (\<lambda>x. case x of Inl s \<Rightarrow> (length s, 0) | Inr (n, s) \<Rightarrow> (length s, Suc n))")
     apply (auto dest!: readArrayLen_shorter Read_dom_shorter(1))
  done

section \<open>Writer\<close>

type_synonym written = "string \<times> string option"

definition lineBreaks :: "string \<Rightarrow> string" where
  "lineBreaks s = map (\<lambda>c. if c = CR \<or> c = LF then CHR '' '' else c) s"

definition WriteSimpleString :: "string \<Rightarrow> written" where
  "WriteSimpleString s = (''+'' @ lineBreaks s @ [CR, LF], None)"

definition WriteError :: "string \<Rightarrow> written" where
  "WriteError s = (''-'' @ lineBreaks s @ [CR, LF], None)"

definition WriteInteger :: "int \<Rightarrow> written" where
  "WriteInteger n = ('':'' @ FormatInt n @ [CR, LF], None)"

definition WriteBulkString :: "string \<Rightarrow> written" where
  "WriteBulkString s = (''$'' @ Itoa (int (length s)) @ [CR, LF] @ s @ [CR, LF], None)"

definition WriteNull :: written where
  "WriteNull = (''$-1'' @ [CR, LF], None)"

definition WriteNullArray :: written where
  "WriteNullArray = (''*-1'' @ [CR, LF], None)"

fun WriteMapEntries :: "(string \<times> string) list \<Rightarrow> string" where
  "WriteMapEntries [] = []"
| "WriteMapEntries ((k, v) # m) =
     fst (WriteBulkString k) @ fst (WriteBulkString v) @ WriteMapEntries m"

definition WriteMap :: "(string \<times> string) list \<Rightarrow> written" where
  "WriteMap m = (''%'' @ Itoa (int (length m)) @ [CR, LF] @ WriteMapEntries m, None)"

definition WriteStringArray :: "string list \<Rightarrow> written" where
  "WriteStringArray arr =
     (''*'' @ Itoa (int (length arr)) @ [CR, LF] @ concat (map (fst \<circ> WriteBulkString) arr), None)"

fun WriteValue :: "Value \<Rightarrow> written" and WriteElems :: "Value list \<Rightarrow> written" where
  "WriteValue (Value t s n b arr m nul) =
     (case t of
        SimpleString \<Rightarrow> WriteSimpleString s
      | Error \<Rightarrow> WriteError s
      | Integer \<Rightarrow> WriteInteger n
      | BulkString \<Rightarrow> if nul then WriteNull else WriteBulkString b
      | Array \<Rightarrow>
          if nul then WriteNullArray
          else (let (out, err) = WriteElems arr
                in (''*'' @ Itoa (int (length arr)) @ [CR, LF] @ out, err))
      | MapType \<Rightarrow> WriteMap m
      | PushType \<Rightarrow>
          (let (out, err) = WriteElems arr
           in (''>'' @ Itoa (int (length arr)) @ [CR, LF] @ out, err))
      | _ \<Rightarrow> ([], Some (''unknown RESP type: '' @ [typeByte t])))"
| "WriteElems [] = ([], None)"
| "WriteElems (v # vs) =
     (case WriteValue v of
        (out, Some e) \<Rightarrow> (out, Some e)
      | (out, None) \<Rightarrow> (let (out', err) = WriteElems vs in (out @ out', err)))"

section \<open>Specification predicates\<close>

text \<open>
  \<open>sendable\<close>: the values that have a RESP2 frame the reader accepts.  \<open>canon\<close>:
  what such a value is after one trip over the wire: line breaks of a status
  line replaced by blanks, fields its type does not send reset.
\<close>

fun sendable :: "Value \<Rightarrow> bool" where
  "sendable (Value t s n b arr m nul) =
     (case t of
        SimpleString \<Rightarrow> True
      | Error \<Rightarrow> True
      | Integer \<Rightarrow> int64 n
      | BulkString \<Rightarrow> nul \<or> int (length b) \<le> MaxBulkLen
      | Array \<Rightarrow> nul \<or> (int (length arr) \<le> MaxArrayLen \<and> (\<forall>v \<in> set arr. sendable v))
      | _ \<Rightarrow> False)"

fun canon :: "Value \<Rightarrow> Value" where
  "canon (Value t s n b arr m nul) =
     (case t of
        SimpleString \<Rightarrow> SimpleVal (lineBreaks s)
      | Error \<Rightarrow> ErrCustom (lineBreaks s)
      | Integer \<Rightarrow> IntVal n
      | BulkString \<Rightarrow> if nul then NullBulk else Bulk b
      | Array \<Rightarrow> if nul then NullArray else Arr (map canon arr)
      | _ \<Rightarrow> Value t s n b arr m nul)"

text \<open>\<open>within_limits\<close>: the bounds the reader enforces on everything it returns.\<close>

fun within_limits :: "Value \<Rightarrow> bool" where
  "within_limits (Value t s n b arr m nul) =
     (LF \<notin> set s \<and> int64 n \<and> int (length b) \<le> MaxBulkLen \<and> m = []
      \<and> int (length arr) \<le> MaxArrayLen \<and> (\<forall>v \<in> set arr. within_limits v))"

section \<open>Lemmas\<close>

lemma lineBreaks_clean [simp]: "LF \<notin> set (lineBreaks s)" "CR \<notin> set (lineBreaks s)"
  by (auto simp: lineBreaks_def)

lemma lineBreaks_id: "CR \<notin> set s \<Longrightarrow> LF \<notin> set s \<Longrightarrow> lineBreaks s = s"
  unfolding lineBreaks_def by (rule map_idI) auto

lemma readLine_line [simp]:
  assumes "LF \<notin> set l"
  shows "readLine (l @ CR # LF # r) = Inr (l, r)"
proof -
  have "takeWhile (\<lambda>c. c \<noteq> LF) (l @ CR # LF # r) = l @ [CR]"
    and "dropWhile (\<lambda>c. c \<noteq> LF) (l @ CR # LF # r) = LF # r"
    using assms by (induction l) auto
  then show ?thesis by (simp add: readLine_def Let_def)
qed

lemma FormatInt_no_LF [simp]: "LF \<notin> set (FormatInt n)"
  using FormatInt_clean(2) [of LF n] by blast

lemma Read_bulk [codec_simps]:
  assumes "int (length b) \<le> MaxBulkLen"
  shows "Read (fst (WriteBulkString b) @ r) = Inr (Bulk b, r)"
proof -
  have "int64 (int (length b))" using assms by (simp add: MaxBulkLen_def int64_bounds)
  with assms show ?thesis
    by (simp add: WriteBulkString_def readBulkString_def ParseInt_FormatInt)
qed

lemma WriteBulkString_err: "snd (WriteBulkString b) = None"
  by (simp add: WriteBulkString_def)

lemma Read_array_header:
  assumes "int n \<le> MaxArrayLen"
  shows "Read (CHR ''*'' # FormatInt (int n) @ CR # LF # r) =
           (case readElems n r of Inl e \<Rightarrow> Inl e | Inr (vs, r') \<Rightarrow> Inr (Arr vs, r'))"
proof -
  have "int64 (int n)" using assms by (simp add: MaxArrayLen_def int64_bounds)
  with assms show ?thesis by (simp add: readArrayLen_def ParseInt_FormatInt)
qed

lemma readLine_null [simp]: "readLine (CHR ''-'' # CHR ''1'' # CR # LF # r) = Inr (''-1'', r)"
  using readLine_line [of "''-1''" r] by simp

lemma Atoi_minus_one [simp]: "Atoi ''-1'' = Inr (-1)"
  by (simp add: ParseInt_def ParseUint_def is_digit_def digit_val_def)

lemma Read_null_array [simp]:
  "Read (CHR ''*'' # CHR ''-'' # CHR ''1'' # CR # LF # r) = Inr (NullArray, r)"
  by (simp add: readArrayLen_def)

lemma Read_WriteValue_aux:
  "sendable v \<Longrightarrow> snd (WriteValue v) = None
     \<and> (\<forall>r. Read (fst (WriteValue v) @ r) = Inr (canon v, r))"
  "\<forall>v \<in> set vs. sendable v \<Longrightarrow> snd (WriteElems vs) = None
     \<and> (\<forall>r. readElems (length vs) (fst (WriteElems vs) @ r) = Inr (map canon vs, r))"
proof (induction v and vs rule: WriteValue_WriteElems.induct)
  case (1 t s n b arr m nul)
  show ?case
  proof (cases t)
    case Array
    with 1 show ?thesis
      by (cases nul) (auto simp: WriteNullArray_def readArrayLen_def Read_array_header
          split_beta Let_def simp del: Read.simps)
  qed (use 1 in \<open>auto simp: WriteSimpleString_def WriteError_def WriteInteger_def WriteNull_def
      readSimpleString_def readError_def readInteger_def readBulkString_def reply_defs
      ParseInt_FormatInt Read_bulk [unfolded reply_defs] WriteBulkString_err\<close>)
next
  case (3 v vs)
  obtain out where out: "WriteValue v = (out, None)"
    using 3(1,3) by (metis list.set_intros(1) prod.collapse)
  with 3 show ?case by (auto simp: split_beta Let_def)
qed auto

lemma readScalar_limits:
  "readSimpleString s = Inr (v, r) \<Longrightarrow> within_limits v"
  "readError s = Inr (v, r) \<Longrightarrow> within_limits v"
  "readInteger s = Inr (v, r) \<Longrightarrow> within_limits v"
  "readBulkString s = Inr (v, r) \<Longrightarrow> within_limits v"
proof -
  have LF: "LF \<notin> set l" if "readLine s = Inr (l, r)" for l s r
    using that by (auto simp: readLine_def Let_def split: if_splits dest!: in_set_butlastD set_takeWhileD)
  have zero: "int64 0" by (simp add: int64_bounds)
  show "readSimpleString s = Inr (v, r) \<Longrightarrow> within_limits v"
    and "readError s = Inr (v, r) \<Longrightarrow> within_limits v"
    and "readInteger s = Inr (v, r) \<Longrightarrow> within_limits v"
    and "readBulkString s = Inr (v, r) \<Longrightarrow> within_limits v"
    by (auto simp: readSimpleString_def readError_def readInteger_def readBulkString_def
        MaxBulkLen_def MaxArrayLen_def reply_defs zero ParseInt_int64 dest!: LF
        split: sum.splits if_splits)
qed

lemma readElems_length: "readElems n s = Inr (vs, r) \<Longrightarrow> length vs = n"
  by (induction n arbitrary: s vs) (auto split: sum.splits prod.splits)

lemma Read_limits_aux:
  "Read s = Inr (v, r) \<Longrightarrow> within_limits v \<and> length r < length s"
  "readElems n s = Inr (vs, r) \<Longrightarrow> (\<forall>v \<in> set vs. within_limits v) \<and> length r \<le> length s"
proof (induction s and n s arbitrary: v r and vs r rule: Read_readElems.induct)
  case (2 c s)
  have zero: "int64 0" by (simp add: int64_bounds)
  have count: "int n \<le> MaxArrayLen" if "readArrayLen s = Inr (Some n, r)" for n r
    using that by (auto simp: readArrayLen_def split: sum.splits if_splits)
  show ?case
  proof (cases "c = CHR ''*''")
    case True
    with 2(2) consider "v = NullArray" "readArrayLen s = Inr (None, r)"
      | n r1 vs where "readArrayLen s = Inr (Some n, r1)" "readElems n r1 = Inr (vs, r)" "v = Arr vs"
      by (auto split: sum.splits option.splits)
    then show ?thesis
    proof cases
      case 1
      then show ?thesis
        by (auto simp: reply_defs zero MaxBulkLen_def MaxArrayLen_def dest: readArrayLen_shorter)
    next
      case (2 n r1 vs)
      then have "(\<forall>v \<in> set vs. within_limits v) \<and> length r \<le> length r1"
        using "2.IH" True by simp
      with 2 count readArrayLen_shorter [OF 2(1)] readElems_length [OF 2(2)] show ?thesis
        by (auto simp: reply_defs zero MaxBulkLen_def)
    qed
  next
    case False
    with 2(2) show ?thesis
      by (auto simp: less_Suc_eq dest: readScalar_limits readScalar_shorter split: if_splits)
  qed
next
  case (4 n s)
  then show ?case by (fastforce split: sum.splits prod.splits)
qed auto

section \<open>Properties\<close>



text \<open>
  Whatever bytes a client sends, a value the reader returns respects the
  declared limits at every nesting level, and reading it consumed input.
\<close>

theorem Read_within_limits:
  assumes "Read s = Inr (v, rest)"
  shows "within_limits v \<and> length rest < length s"
  using Read_limits_aux(1) [OF assms] .

theorem Read_within_limits_witness:
  "within_limits (Bulk ''ab'') \<and> length ''X'' < length (''$2'' @ [CR, LF] @ ''ab'' @ [CR, LF] @ ''X'')"
proof -
  have "fst (WriteBulkString ''ab'') = ''$2'' @ [CR, LF] @ ''ab'' @ [CR, LF]"
    by (simp add: WriteBulkString_def FormatInt_def FormatUint.simps digit_char_def)
  then have "Read (''$2'' @ [CR, LF] @ ''ab'' @ [CR, LF] @ ''X'') = Inr (Bulk ''ab'', ''X'')"
    using Read_bulk [of "''ab''" "''X''"] by (simp add: MaxBulkLen_def del: Read.simps)
  from Read_within_limits [OF this] show ?thesis .
qed

text \<open>
  C29.  A header that declares a bulk string or an array over its limit, or a
  negative length other than the null marker, is refused from the header alone,
  before any element is read: the outcome does not depend on what follows.
\<close>

theorem Read_refuses_length:
  assumes "int64 n"
  shows "(n > MaxBulkLen \<longrightarrow> Read (CHR ''$'' # FormatInt n @ CR # LF # rest) =
            Inl (ErrorString (''bulk string length '' @ Itoa n @ '' exceeds limit '' @ Itoa MaxBulkLen)))
       \<and> (n > MaxArrayLen \<longrightarrow> Read (CHR ''*'' # FormatInt n @ CR # LF # rest) =
            Inl (ErrorString (''array length '' @ Itoa n @ '' exceeds limit '' @ Itoa MaxArrayLen)))
       \<and> (n < -1 \<longrightarrow> Read (CHR ''$'' # FormatInt n @ CR # LF # rest) =
            Inl (ErrorString (''invalid bulk string length: '' @ Itoa n)))
       \<and> (n < -1 \<longrightarrow> Read (CHR ''*'' # FormatInt n @ CR # LF # rest) =
            Inl (ErrorString (''invalid array length: '' @ Itoa n)))"
proof -
  have "Atoi (FormatInt n) = Inr n" using assms by (rule ParseInt_FormatInt)
  moreover have "readLine (FormatInt n @ CR # LF # rest) = Inr (FormatInt n, rest)" by simp
  ultimately show ?thesis
    by (simp add: readBulkString_def readArrayLen_def MaxBulkLen_def MaxArrayLen_def)
qed

theorem Read_refuses_length_witness:
  "Read (CHR ''*'' # FormatInt 9223372036854775807 @ CR # LF # []) =
     Inl (ErrorString (''array length '' @ Itoa 9223372036854775807 @ '' exceeds limit '' @ Itoa MaxArrayLen))"
  using Read_refuses_length [of 9223372036854775807 "[]"]
  by (simp add: int64_bounds MaxArrayLen_def del: Read.simps)

end
