(* ===== verification/Glob.thy ===== *)
theory Glob
  imports Prelude
begin

text \<open>
  The iterative glob matcher.  The same loop appears three times in the sources:
  \<^verbatim>\<open>globMatch\<close> of \<^verbatim>\<open>src/internal/pubsub/hub.go\<close> (pattern subscriptions) and
  \<^verbatim>\<open>matchGlob\<close> of \<^verbatim>\<open>src/internal/handler/handler_ops.go\<close> (SCAN family) and of
  \<^verbatim>\<open>src/internal/storage/querier.go\<close> (ZSCAN).  The loop is modelled on indices,
  with the backtrack point \<^verbatim>\<open>(starIdx, matchIdx)\<close> as an option (None for
  \<^verbatim>\<open>starIdx == -1\<close>).  \<open>glob\<close> is the reference semantics of the pattern language.
\<close>

section \<open>The loop\<close>

function globLoop :: "string \<Rightarrow> string \<Rightarrow> nat \<Rightarrow> nat \<Rightarrow> (nat \<times> nat) option \<Rightarrow> nat option" where
  "globLoop pattern str px sx star =
     (if sx < length str then
        if px < length pattern \<and> (pattern ! px = CHR ''?'' \<or> pattern ! px = str ! sx) then
          globLoop pattern str (px + 1) (sx + 1) star
        else if px < length pattern \<and> pattern ! px = CHR ''*'' then
          globLoop pattern str (px + 1) sx (Some (px, sx))
        else case star of
               Some (starIdx, matchIdx) \<Rightarrow>
                 globLoop pattern str (starIdx + 1) (matchIdx + 1) (Some (starIdx, matchIdx + 1))
             | None \<Rightarrow> None
      else Some px)"
  by pat_completeness auto

termination
  by (relation "measures
      [\<lambda>(p, s, px, sx, star). case star of None \<Rightarrow> 0 | Some (_, m) \<Rightarrow> if m \<le> sx then 0 else 1,
       \<lambda>(p, s, px, sx, star). case star of None \<Rightarrow> Suc (length s) | Some (_, m) \<Rightarrow> length s - m,
       \<lambda>(p, s, px, sx, star). (length s - sx) + (length p - px)]")
    (auto split: option.splits if_splits)

declare globLoop.simps [simp del]

text \<open>The trailing loop that skips stars, and the final comparison.\<close>

fun skipStars :: "string \<Rightarrow> bool" where
  "skipStars [] = True"
| "skipStars (q # p) = (q = CHR ''*'' \<and> skipStars p)"

definition globMatch :: "string \<Rightarrow> string \<Rightarrow> bool" where
  "globMatch pattern str =
     (case globLoop pattern str 0 0 None of
        None \<Rightarrow> False
      | Some px \<Rightarrow> skipStars (drop px pattern))"

definition matchGlob :: "string \<Rightarrow> string \<Rightarrow> bool \<times> string option" where
  "matchGlob pattern s = (globMatch pattern s, None)"

section \<open>Reference semantics\<close>

fun glob :: "string \<Rightarrow> string \<Rightarrow> bool" where
  "glob [] s = (s = [])"
| "glob (q # p) [] = (q = CHR ''*'' \<and> glob p [])"
| "glob (q # p) (c # s) =
     (if q = CHR ''*'' then glob p (c # s) \<or> glob (q # p) s
      else (q = CHR ''?'' \<or> q = c) \<and> glob p s)"

section \<open>Lemmas\<close>

abbreviation star :: char where "star \<equiv> CHR ''*''"

lemma glob_nil_iff: "glob p [] = skipStars p"
  by (induction p) auto

lemma glob_star_skip: "glob p s \<Longrightarrow> glob (star # p) s"
  by (cases s) auto

lemma glob_star_Cons: "glob (star # p) s \<Longrightarrow> glob (star # p) (c # s)"
  by simp

lemma glob_star_append: "glob (star # p) s \<Longrightarrow> glob (star # p) (w @ s)"
  by (induction w) auto

lemma glob_star_drop: "glob (star # p) (drop n s) \<Longrightarrow> glob (star # p) s"
  using glob_star_append [of p "drop n s" "take n s"] by simp

lemma glob_star_iff: "glob (star # p) s \<longleftrightarrow> (\<exists>k \<le> length s. glob p (drop k s))"
proof
  show "glob (star # p) s \<Longrightarrow> \<exists>k \<le> length s. glob p (drop k s)"
  proof (induction s)
    case (Cons c s)
    then show ?case
      by (metis drop0 drop_Suc_Cons glob.simps(3) le0 length_Cons not_less_eq_eq)
  qed auto
  show "\<exists>k \<le> length s. glob p (drop k s) \<Longrightarrow> glob (star # p) s"
    using glob_star_skip glob_star_drop by blast
qed

text \<open>A star-free pattern prefix consumes exactly its own length.\<close>

lemma glob_starfree_append:
  assumes "star \<notin> set u" and "glob (u @ p) s"
  shows "length u \<le> length s \<and> glob p (drop (length u) s)"
  using assms
proof (induction u arbitrary: s)
  case (Cons q u)
  then show ?case by (cases s) auto
qed simp

lemma glob_second_star:
  assumes "star \<notin> set u" and "glob (star # u @ star # p) (drop (Suc m) s)"
    and "sx = m + length u"
  shows "glob (star # p) (drop sx s)"
proof -
  from assms(2) obtain k where "glob (u @ star # p) (drop k (drop (Suc m) s))"
    by (auto simp: glob_star_iff)
  with assms(1) have "glob (star # p) (drop (length u) (drop k (drop (Suc m) s)))"
    using glob_starfree_append by blast
  moreover have "drop (length u) (drop k (drop (Suc m) s)) = drop (Suc k) (drop sx s)"
    using assms(3) by (simp add: add.commute add.left_commute)
  ultimately show ?thesis using glob_star_drop by metis
qed

subsection \<open>What a loop state can still match\<close>

definition alt_match :: "string \<Rightarrow> string \<Rightarrow> (nat \<times> nat) option \<Rightarrow> bool" where
  "alt_match pattern str st =
     (case st of None \<Rightarrow> False
      | Some (i, m) \<Rightarrow> m < length str \<and> glob (star # drop (Suc i) pattern) (drop (Suc m) str))"

definition loop_result :: "string \<Rightarrow> nat option \<Rightarrow> bool" where
  "loop_result pattern r = (case r of None \<Rightarrow> False | Some px \<Rightarrow> glob (drop px pattern) [])"

lemma globMatch_loop: "globMatch p s = loop_result p (globLoop p s 0 0 None)"
  by (auto simp: globMatch_def loop_result_def glob_nil_iff split: option.splits)

definition star_ok :: "nat \<Rightarrow> (nat \<times> nat) option \<Rightarrow> bool" where
  "star_ok sx st = (case st of None \<Rightarrow> True | Some (i, m) \<Rightarrow> m \<le> sx)"

lemma globLoop_end: "\<not> sx < length s \<Longrightarrow> globLoop p s px sx st = Some px"
  by (simp add: globLoop.simps)

lemma globLoop_back:
  assumes "sx < length s" "\<not> (px < length p \<and> (p ! px = CHR ''?'' \<or> p ! px = s ! sx))"
    "\<not> (px < length p \<and> p ! px = star)"
  shows "globLoop p s px sx (Some (i, m)) = globLoop p s (i + 1) (m + 1) (Some (i, m + 1))"
  by (subst globLoop.simps) (use assms in auto)

lemma globLoop_sound:
  "star_ok sx st \<Longrightarrow> loop_result p (globLoop p s px sx st) \<Longrightarrow>
     glob (drop px p) (drop sx s) \<or> alt_match p s st"
proof (induction p s px sx st rule: globLoop.induct)
  case (1 p s px sx st)
  consider (fin) "\<not> sx < length s"
    | (lit) "sx < length s" "px < length p" "p ! px = CHR ''?'' \<or> p ! px = s ! sx"
    | (st) "sx < length s" "px < length p" "p ! px = star" "p ! px \<noteq> s ! sx"
    | (bt) "sx < length s" "\<not> (px < length p \<and> (p ! px = CHR ''?'' \<or> p ! px = s ! sx))"
        "\<not> (px < length p \<and> p ! px = star)"
    by blast
  then show ?case
  proof cases
    case fin
    with 1 show ?thesis by (simp add: globLoop_end loop_result_def)
  next
    case lit
    have "star_ok (sx + 1) st" using 1(4) by (auto simp: star_ok_def split: option.splits)
    with lit 1 have "glob (drop (px + 1) p) (drop (sx + 1) s) \<or> alt_match p s st"
      by (simp add: globLoop.simps [of p s px sx])
    with lit show ?thesis
      by (auto simp flip: Cons_nth_drop_Suc simp: glob_star_skip)
  next
    case st
    with 1 have "glob (drop (px + 1) p) (drop sx s) \<or> alt_match p s (Some (px, sx))"
      by (simp add: globLoop.simps [of p s px sx] star_ok_def)
    with st show ?thesis
      by (auto simp: alt_match_def simp flip: Cons_nth_drop_Suc)
  next
    case bt
    then obtain i m where st: "st = Some (i, m)"
      using 1(5) by (auto simp: globLoop.simps [of p s px sx] loop_result_def split: option.splits)
    have "glob (drop (i + 1) p) (drop (m + 1) s) \<or> alt_match p s (Some (i, m + 1))"
      using 1(3) [OF bt st refl] 1(5) by (simp add: st globLoop_back [OF bt] star_ok_def)
    moreover have "m < length s" using 1(4) st bt by (simp add: star_ok_def)
    ultimately have "alt_match p s st"
      using st by (auto simp: alt_match_def glob_star_skip Cons_nth_drop_Suc [symmetric]
          dest!: glob_star_drop [of _ 1])
    then show ?thesis ..
  qed
qed

text \<open>
  The backtrack point stays aligned: between the star and the current position
  the pattern has no star and has advanced as far as the string.
\<close>

definition star_inv :: "string \<Rightarrow> nat \<Rightarrow> nat \<Rightarrow> (nat \<times> nat) option \<Rightarrow> bool" where
  "star_inv p px sx st =
     (case st of None \<Rightarrow> True
      | Some (i, m) \<Rightarrow> i < px \<and> px \<le> length p \<and> m + px = Suc (i + sx)
          \<and> star \<notin> set (take (px - Suc i) (drop (Suc i) p)))"

lemma star_inv_lit:
  assumes "star_inv p px sx st" "px < length p" "p ! px \<noteq> star"
  shows "star_inv p (Suc px) (Suc sx) st"
proof (cases st)
  case (Some im)
  obtain i m where im: "im = (i, m)" by fastforce
  have "Suc px - Suc i = Suc (px - Suc i)" "drop (Suc i) p ! (px - Suc i) = p ! px"
    using assms Some im by (auto simp: star_inv_def)
  then have "take (Suc px - Suc i) (drop (Suc i) p) = take (px - Suc i) (drop (Suc i) p) @ [p ! px]"
    using assms Some im by (auto simp: star_inv_def take_Suc_conv_app_nth)
  with assms Some im show ?thesis by (auto simp: star_inv_def)
qed (simp add: star_inv_def)

lemma star_inv_split:
  assumes "star_inv p px sx (Some (i, m))"
  obtains u where "drop (Suc i) p = u @ drop px p" "star \<notin> set u" "sx = m + length u"
proof -
  define u where "u = take (px - Suc i) (drop (Suc i) p)"
  have "drop px p = drop (px - Suc i) (drop (Suc i) p)"
    using assms by (simp add: star_inv_def)
  then have "drop (Suc i) p = u @ drop px p"
    unfolding u_def by (simp only: append_take_drop_id)
  moreover have "star \<notin> set u" "sx = m + length u"
    using assms by (auto simp: u_def star_inv_def)
  ultimately show ?thesis using that by blast
qed

lemma star_inv_second:
  assumes "star_inv p px sx st" "px < length p" "p ! px = star" "alt_match p s st"
  shows "glob (star # drop (Suc px) p) (drop sx s)"
proof -
  obtain i m where st: "st = Some (i, m)"
    using assms(4) by (auto simp: alt_match_def split: option.splits)
  with assms(1) obtain u where u: "drop (Suc i) p = u @ drop px p" "star \<notin> set u" "sx = m + length u"
    using star_inv_split by blast
  moreover have "drop px p = star # drop (Suc px) p"
    using assms(2,3) by (metis Cons_nth_drop_Suc)
  ultimately show ?thesis
    using assms(4) st glob_second_star [of u "drop (Suc px) p" m s sx] by (simp add: alt_match_def)
qed

lemma star_inv_end:
  assumes "star_inv p px sx st" "length s \<le> sx"
  shows "\<not> alt_match p s st"
proof
  assume alt: "alt_match p s st"
  then obtain i m where st: "st = Some (i, m)" "m < length s"
    by (auto simp: alt_match_def split: option.splits)
  with assms(1) obtain u where u: "drop (Suc i) p = u @ drop px p" "star \<notin> set u" "sx = m + length u"
    using star_inv_split by blast
  with alt st obtain k where "glob (u @ drop px p) (drop k (drop (Suc m) s))"
    by (auto simp: alt_match_def glob_star_iff)
  with u(2) have "length u \<le> length s - Suc m - k"
    using glob_starfree_append by fastforce
  with u(3) st(2) assms(2) show False by simp
qed

lemma globLoop_complete:
  "star \<notin> set s \<Longrightarrow> star_inv p px sx st \<Longrightarrow> sx \<le> length s \<Longrightarrow>
     glob (drop px p) (drop sx s) \<or> alt_match p s st \<Longrightarrow>
     loop_result p (globLoop p s px sx st)"
proof (induction p s px sx st rule: globLoop.induct)
  case (1 p s px sx st)
  consider (fin) "\<not> sx < length s"
    | (lit) "sx < length s" "px < length p" "p ! px = CHR ''?'' \<or> p ! px = s ! sx"
    | (st) "sx < length s" "px < length p" "p ! px = star" "p ! px \<noteq> s ! sx"
    | (bt) "sx < length s" "\<not> (px < length p \<and> (p ! px = CHR ''?'' \<or> p ! px = s ! sx))"
        "\<not> (px < length p \<and> p ! px = star)"
    by blast
  then show ?case
  proof cases
    case fin
    with 1 have "\<not> alt_match p s st" using star_inv_end by fastforce
    with fin 1 show ?thesis by (auto simp: globLoop_end loop_result_def)
  next
    case lit
    then have "p ! px \<noteq> star" using 1(4) nth_mem by force
    with lit 1 show ?thesis
      by (auto simp: globLoop.simps [of p s px sx] star_inv_lit simp flip: Cons_nth_drop_Suc)
  next
    case st
    with 1(5,7) have "glob (star # drop (Suc px) p) (drop sx s)"
      using star_inv_second [of p px sx st s] by (auto simp flip: Cons_nth_drop_Suc)
    with st 1 show ?thesis
      by (auto simp: globLoop.simps [of p s px sx] star_inv_def alt_match_def
          simp flip: Cons_nth_drop_Suc)
  next
    case bt
    then have "\<not> glob (drop px p) (drop sx s)"
      by (cases "px < length p") (auto simp flip: Cons_nth_drop_Suc)
    with 1(7) have alt: "alt_match p s st" by blast
    then obtain i m where st: "st = Some (i, m)" by (auto simp: alt_match_def split: option.splits)
    have "star_inv p (i + 1) (m + 1) (Some (i, m + 1))"
      using 1(5) st by (auto simp: star_inv_def)
    moreover have "glob (drop (i + 1) p) (drop (m + 1) s) \<or> alt_match p s (Some (i, m + 1))"
      using alt st
      by (cases "Suc m < length s") (auto simp: alt_match_def simp flip: Cons_nth_drop_Suc)
    ultimately show ?thesis
      using 1(3) [OF bt st refl 1(4)] alt by (auto simp: st globLoop_back [OF bt] alt_match_def)
  qed
qed

section \<open>Properties\<close>

text \<open>
  C30.  The matcher never accepts a string the pattern language does not accept,
  and it accepts every string of the language that contains no asterisk: on
  those strings the backtracking loop decides exactly the reference semantics.
  (The loop is a total function, so it returns on every input.)
\<close>

theorem globMatch_correct:
  "(globMatch p s \<longrightarrow> glob p s) \<and> (star \<notin> set s \<longrightarrow> globMatch p s = glob p s)"
  using globLoop_sound [of 0 None p s 0] globLoop_complete [of s p 0 0 None]
  by (auto simp: globMatch_loop star_ok_def star_inv_def alt_match_def)

theorem globMatch_correct_witness:
  "globMatch ''a*b?*'' ''axbxby'' = glob ''a*b?*'' ''axbxby'' \<and> glob ''a*b?*'' ''axbxby''
   \<and> star \<notin> set ''axbxby''"
proof -
  have "star \<notin> set ''axbxby''" "glob ''a*b?*'' ''axbxby''" by simp_all
  with globMatch_correct [of "''a*b?*''" "''axbxby''"] show ?thesis by blast
qed

text \<open>
  On strings that contain an asterisk the matcher can reject what the
  pattern language accepts: the literal comparison is tried before the star, so
  the pattern \<^verbatim>\<open>*\<close> does not match \<^verbatim>\<open>*a\<close>.
\<close>

theorem globMatch_misses_star: "\<not> globMatch ''*'' ''*a'' \<and> glob ''*'' ''*a''"
  by (simp add: globMatch_def globLoop.simps)

end
