(* ===== verification/KeyCodec.thy ===== *)
theory KeyCodec
  imports Prelude
begin

text \<open>
  The encoding of keys, hash fields and list elements for PostgreSQL TEXT columns,
  \<^verbatim>\<open>encodeKey\<close> and \<^verbatim>\<open>decodeKey\<close> of \<^verbatim>\<open>src/internal/storage/querier.go\<close>, with the two
  standard-library codecs they use: \<^verbatim>\<open>base64.StdEncoding\<close> (non-strict, with
  padding; carriage returns and newlines are skipped when decoding) and
  \<^verbatim>\<open>utf8.ValidString\<close>.
\<close>

section \<open>base64.StdEncoding\<close>

definition b64_alphabet :: string where
  "b64_alphabet = ''ABCDEFGHIJKLMNOPQRSTUVWXYZabcdefghijklmnopqrstuvwxyz0123456789+/''"

definition b64_char :: "nat \<Rightarrow> char" where
  "b64_char n = b64_alphabet ! n"

definition b64_val :: "char \<Rightarrow> nat option" where
  "b64_val c = (let n = of_char c :: nat in
     if 65 \<le> n \<and> n \<le> 90 then Some (n - 65)
     else if 97 \<le> n \<and> n \<le> 122 then Some (n - 71)
     else if 48 \<le> n \<and> n \<le> 57 then Some (n + 4)
     else if n = 43 then Some 62
     else if n = 47 then Some 63
     else None)"

fun EncodeToString :: "string \<Rightarrow> string" where
  "EncodeToString [] = []"
| "EncodeToString [a] =
     (let v = of_char a * 65536 :: nat
      in [b64_char (v div 262144 mod 64), b64_char (v div 4096 mod 64), CHR ''='', CHR ''=''])"
| "EncodeToString [a, b] =
     (let v = of_char a * 65536 + of_char b * 256 :: nat
      in [b64_char (v div 262144 mod 64), b64_char (v div 4096 mod 64),
          b64_char (v div 64 mod 64), CHR ''=''])"
| "EncodeToString (a # b # c # s) =
     (let v = of_char a * 65536 + of_char b * 256 + of_char c :: nat
      in [b64_char (v div 262144 mod 64), b64_char (v div 4096 mod 64),
          b64_char (v div 64 mod 64), b64_char (v mod 64)] @ EncodeToString s)"

fun decodeQuanta :: "string \<Rightarrow> string option" where
  "decodeQuanta [] = Some []"
| "decodeQuanta (a # b # c # d # s) =
     (case (b64_val a, b64_val b) of
        (Some va, Some vb) \<Rightarrow>
          if c = CHR ''='' then
            if d = CHR ''='' \<and> s = []
            then Some [char_of ((va * 262144 + vb * 4096) div 65536 mod 256)] else None
          else (case b64_val c of None \<Rightarrow> None
            | Some vc \<Rightarrow>
                if d = CHR ''='' then
                  if s = [] then
                    (let v = va * 262144 + vb * 4096 + vc * 64
                     in Some [char_of (v div 65536 mod 256), char_of (v div 256 mod 256)])
                  else None
                else (case b64_val d of None \<Rightarrow> None
                  | Some vd \<Rightarrow>
                      (let v = va * 262144 + vb * 4096 + vc * 64 + vd
                       in map_option (\<lambda>r. char_of (v div 65536 mod 256)
                            # char_of (v div 256 mod 256) # char_of (v mod 256) # r)
                            (decodeQuanta s))))
      | _ \<Rightarrow> None)"
| "decodeQuanta _ = None"

definition DecodeString :: "string \<Rightarrow> string option" where
  "DecodeString s = decodeQuanta (filter (\<lambda>c. c \<noteq> CR \<and> c \<noteq> LF) s)"

section \<open>utf8.ValidString\<close>

definition in_range :: "nat \<Rightarrow> nat \<Rightarrow> char \<Rightarrow> bool" where
  "in_range lo hi c = (lo \<le> of_char c \<and> of_char c \<le> hi)"

abbreviation cont :: "char \<Rightarrow> bool" where
  "cont \<equiv> in_range 0x80 0xBF"

definition lead2 :: "char \<Rightarrow> bool" where
  "lead2 = in_range 0xC2 0xDF"

definition lead3 :: "char \<Rightarrow> char \<Rightarrow> bool" where
  "lead3 a b = (if a = CHR 0xE0 then in_range 0xA0 0xBF b
                else if a = CHR 0xED then in_range 0x80 0x9F b
                else in_range 0xE1 0xEF a \<and> cont b)"

definition lead4 :: "char \<Rightarrow> char \<Rightarrow> bool" where
  "lead4 a b = (if a = CHR 0xF0 then in_range 0x90 0xBF b
                else if a = CHR 0xF4 then in_range 0x80 0x8F b
                else in_range 0xF1 0xF3 a \<and> cont b)"

fun ValidString :: "string \<Rightarrow> bool" where
  "ValidString [] = True"
| "ValidString (a # s) =
     (if in_range 0 0x7F a then ValidString s
      else case s of
        [] \<Rightarrow> False
      | b # s1 \<Rightarrow>
          if lead2 a then cont b \<and> ValidString s1
          else (case s1 of
            [] \<Rightarrow> False
          | c # s2 \<Rightarrow>
              if lead3 a b then cont c \<and> ValidString s2
              else (case s2 of
                [] \<Rightarrow> False
              | d # s3 \<Rightarrow> lead4 a b \<and> cont c \<and> cont d \<and> ValidString s3)))"

section \<open>encodeKey and decodeKey\<close>

definition binaryPrefix :: string where
  "binaryPrefix = CHR 0x1F # ''b64:''"

definition encodeKey :: "string \<Rightarrow> string" where
  "encodeKey key =
     (if NUL \<in> set key \<or> \<not> ValidString key then binaryPrefix @ EncodeToString key else key)"

definition decodeKey :: "string \<Rightarrow> string" where
  "decodeKey key =
     (if HasPrefix key binaryPrefix
      then case DecodeString (drop (length binaryPrefix) key) of
             Some decoded \<Rightarrow> decoded
           | None \<Rightarrow> key
      else key)"

text \<open>\<^verbatim>\<open>encodeKeys\<close> overwrites the slice it is given; the caller's slice is the result.\<close>

definition encodeKeys :: "string list \<Rightarrow> string list" where
  "encodeKeys keys = map encodeKey keys"

definition encodeField :: "string \<Rightarrow> string" where
  "encodeField field =
     (if NUL \<in> set field \<or> \<not> ValidString field then binaryPrefix @ EncodeToString field else field)"

definition decodeField :: "string \<Rightarrow> string" where
  "decodeField field =
     (if HasPrefix field binaryPrefix
      then case DecodeString (drop (length binaryPrefix) field) of
             Some decoded \<Rightarrow> decoded
           | None \<Rightarrow> field
      else field)"

text \<open>What a PostgreSQL TEXT value may hold: valid UTF-8 without a zero byte.\<close>

definition pg_text :: "string \<Rightarrow> bool" where
  "pg_text s = (ValidString s \<and> NUL \<notin> set s)"

section \<open>Lemmas\<close>

subsection \<open>base64\<close>

definition ascii :: "char \<Rightarrow> bool" where
  "ascii c = (c \<noteq> NUL \<and> in_range 0 0x7F c)"

lemma b64_alphabet_length: "length b64_alphabet = 64"
  by (simp add: b64_alphabet_def)

lemma b64_alphabet_vals: "map b64_val b64_alphabet = map Some [0..<64]"
  by (simp add: b64_alphabet_def b64_val_def upt_rec)

lemma b64_alphabet_ascii: "\<forall>c \<in> set b64_alphabet. ascii c \<and> c \<noteq> CHR ''='' \<and> c \<noteq> CR \<and> c \<noteq> LF"
  by (simp add: b64_alphabet_def ascii_def in_range_def)

lemma b64_val_char [codec_simps]: "n < 64 \<Longrightarrow> b64_val (b64_char n) = Some n"
  using arg_cong [OF b64_alphabet_vals, of "\<lambda>l. l ! n"]
  by (simp add: b64_char_def b64_alphabet_length)

lemma b64_char_ascii:
  assumes "n < 64"
  shows "ascii (b64_char n)" "b64_char n \<noteq> CHR ''=''" "b64_char n \<noteq> CR" "b64_char n \<noteq> LF"
  using b64_alphabet_ascii assms nth_mem [of n b64_alphabet]
  by (auto simp: b64_char_def b64_alphabet_length)

lemma base64_digits:
  fixes v w x y :: nat
  assumes "v = w * 64 + d" "w = x * 64 + c" "x = y * 64 + b"
  shows "y * 262144 + b * 4096 + c * 64 + d = v"
  using assms by simp

lemma sextets:
  fixes v :: nat
  assumes "v < 16777216"
  obtains va vb vc vd where "v div 262144 mod 64 = va" "v div 4096 mod 64 = vb"
    "v div 64 mod 64 = vc" "v mod 64 = vd" "va < 64" "vb < 64" "vc < 64" "vd < 64"
    "va * 262144 + vb * 4096 + vc * 64 + vd = v"
proof -
  have d: "v div 4096 = v div 64 div 64" "v div 262144 = v div 64 div 64 div 64"
    by (simp_all flip: div_mult2_eq)
  have "v div 262144 < 64" using assms by (simp add: less_mult_imp_div_less)
  then have "v div 262144 mod 64 = v div 64 div 64 div 64" unfolding d by (rule mod_less)
  then have "(v div 262144 mod 64) * 262144 + (v div 4096 mod 64) * 4096
      + (v div 64 mod 64) * 64 + v mod 64 = v"
    using base64_digits [OF div_mult_mod_eq [of v 64, symmetric]
        div_mult_mod_eq [of "v div 64" 64, symmetric]
        div_mult_mod_eq [of "v div 64 div 64" 64, symmetric]]
    unfolding d by (simp only:)
  then show ?thesis by (rule that [OF refl refl refl refl, rotated -1]) (rule mod_less_divisor, simp)+
qed

lemma octets:
  fixes a b c :: nat
  assumes "a < 256" "b < 256" "c < 256"
  shows "(a * 65536 + b * 256 + c) div 65536 mod 256 = a"
    and "(a * 65536 + b * 256 + c) div 256 mod 256 = b"
    and "(a * 65536 + b * 256 + c) mod 256 = c"
proof -
  have eq: "a * 65536 + b * 256 + c = c + (a * 256 + b) * 256" by simp
  have "(c + (a * 256 + b) * 256) div 256 = a * 256 + b" "(c + (a * 256 + b) * 256) mod 256 = c"
    using assms by (simp_all only: div_mult_self1 mod_mult_self1) simp_all
  then have d: "(a * 65536 + b * 256 + c) div 256 = a * 256 + b"
    "(a * 65536 + b * 256 + c) mod 256 = c" unfolding eq .
  have "(a * 65536 + b * 256 + c) div 65536 = (a * 65536 + b * 256 + c) div 256 div 256"
    by (simp only: flip: div_mult2_eq) simp
  then show "(a * 65536 + b * 256 + c) div 65536 mod 256 = a"
    and "(a * 65536 + b * 256 + c) div 256 mod 256 = b"
    and "(a * 65536 + b * 256 + c) mod 256 = c"
    unfolding d using assms by simp_all
qed

lemma octet_chars:
  fixes a b c :: char
  defines "v \<equiv> of_char a * 65536 + of_char b * 256 + of_char c :: nat"
  shows "v < 16777216" "char_of (v div 65536) = a" "char_of (v div 256) = b" "char_of v = c"
proof -
  have lt: "(of_char x :: nat) < 256" for x by simp
  show "v < 16777216" unfolding v_def using lt [of a] lt [of b] lt [of c] by linarith
  have "char_of (v div 65536 mod 256) = a" "char_of (v div 256 mod 256) = b" "char_of (v mod 256) = c"
    unfolding v_def octets [OF lt lt lt] by simp_all
  then show "char_of (v div 65536) = a" "char_of (v div 256) = b" "char_of v = c"
    by (simp_all only: char_of_mod_256)
qed

lemma decode_quad:
  assumes "va < 64" "vb < 64" "vc < 64" "vd < 64"
  shows "decodeQuanta (b64_char va # b64_char vb # b64_char vc # b64_char vd # t) =
    map_option (\<lambda>r. char_of ((va * 262144 + vb * 4096 + vc * 64 + vd) div 65536)
      # char_of ((va * 262144 + vb * 4096 + vc * 64 + vd) div 256)
      # char_of (va * 262144 + vb * 4096 + vc * 64 + vd) # r) (decodeQuanta t)"
  using assms by (simp add: b64_val_char b64_char_ascii Let_def)

lemma decode_padded:
  assumes "va < 64" "vb < 64" "vc < 64"
  shows "decodeQuanta [b64_char va, b64_char vb, CHR ''='', CHR ''=''] =
      Some [char_of ((va * 262144 + vb * 4096) div 65536)]"
    and "decodeQuanta [b64_char va, b64_char vb, b64_char vc, CHR ''=''] =
      Some [char_of ((va * 262144 + vb * 4096 + vc * 64) div 65536),
            char_of ((va * 262144 + vb * 4096 + vc * 64) div 256)]"
  using assms by (simp_all add: b64_val_char b64_char_ascii Let_def)

lemma decode_EncodeToString: "decodeQuanta (EncodeToString s) = Some s"
proof (induction s rule: EncodeToString.induct)
  case (2 a)
  define v :: nat where "v = of_char a * 65536"
  have v: "v < 16777216" "char_of (v div 65536) = a"
    using octet_chars(1,2) [of a NUL NUL] by (simp_all add: v_def)
  obtain va vb vc vd where q: "v div 262144 mod 64 = va" "v div 4096 mod 64 = vb"
    "v div 64 mod 64 = vc" "v mod 64 = vd" "va < 64" "vb < 64"
    "va * 262144 + vb * 4096 + vc * 64 + vd = v" using sextets [OF v(1)] by metis
  have "v = 1024 * of_char a * 64" by (simp add: v_def)
  then have "v mod 64 = 0" "v div 64 = 16 * of_char a * 64" by simp_all
  then have "v mod 64 = 0" "v div 64 mod 64 = 0" by (simp_all only: mod_mult_self2_is_0)
  then have eq: "va * 262144 + vb * 4096 = v" using q(3,4,7) by simp
  show ?case
    unfolding EncodeToString.simps Let_def v_def [symmetric] q(1,2) decode_padded(1) [OF q(5,6,6)] eq v ..
next
  case (3 a b)
  define v :: nat where "v = of_char a * 65536 + of_char b * 256"
  have v: "v < 16777216" "char_of (v div 65536) = a" "char_of (v div 256) = b"
    using octet_chars(1,2,3) [of a b NUL] by (simp_all add: v_def)
  obtain va vb vc vd where q: "v div 262144 mod 64 = va" "v div 4096 mod 64 = vb"
    "v div 64 mod 64 = vc" "v mod 64 = vd" "va < 64" "vb < 64" "vc < 64"
    "va * 262144 + vb * 4096 + vc * 64 + vd = v" using sextets [OF v(1)] by metis
  have "v = (of_char a * 1024 + of_char b * 4) * 64" by (simp add: v_def)
  then have "v mod 64 = 0" by simp
  then have eq: "va * 262144 + vb * 4096 + vc * 64 = v" using q(4,8) by simp
  show ?case
    unfolding EncodeToString.simps Let_def v_def [symmetric] q(1-3) decode_padded(2) [OF q(5-7)] eq v ..
next
  case (4 a b c s)
  define v :: nat where "v = of_char a * 65536 + of_char b * 256 + of_char c"
  have v: "v < 16777216" "char_of (v div 65536) = a" "char_of (v div 256) = b" "char_of v = c"
    using octet_chars [of a b c] by (simp_all add: v_def)
  obtain va vb vc vd where q: "v div 262144 mod 64 = va" "v div 4096 mod 64 = vb"
    "v div 64 mod 64 = vc" "v mod 64 = vd" "va < 64" "vb < 64" "vc < 64" "vd < 64"
    "va * 262144 + vb * 4096 + vc * 64 + vd = v" by (rule sextets [OF v(1)])
  have "EncodeToString (a # b # c # s)
      = b64_char va # b64_char vb # b64_char vc # b64_char vd # EncodeToString s"
    unfolding EncodeToString.simps Let_def v_def [symmetric] q(1-4) append.simps ..
  then show ?case by (simp only: decode_quad [OF q(5-8)] q(9) v 4 option.map)
qed simp

lemma b64_char_mod: "\<exists>k < 64. b64_char (n mod 64) = b64_char k"
  by (rule exI [of _ "n mod 64"]) simp

lemma EncodeToString_chars:
  "c \<in> set (EncodeToString s) \<Longrightarrow> c = CHR ''='' \<or> (\<exists>n < 64. c = b64_char n)"
proof (induction s rule: EncodeToString.induct)
  case (2 a)
  then show ?case unfolding EncodeToString.simps Let_def using b64_char_mod by fastforce
next
  case (3 a b)
  then show ?case unfolding EncodeToString.simps Let_def using b64_char_mod by fastforce
next
  case (4 a b d s)
  then show ?case unfolding EncodeToString.simps Let_def using b64_char_mod by fastforce
qed simp

lemma EncodeToString_ascii: "c \<in> set (EncodeToString s) \<Longrightarrow> ascii c \<and> c \<noteq> CR \<and> c \<noteq> LF"
  by (auto dest!: EncodeToString_chars simp: b64_char_ascii) (simp_all add: ascii_def in_range_def)

lemma DecodeString_EncodeToString [codec_simps]: "DecodeString (EncodeToString s) = Some s"
proof -
  have "filter (\<lambda>c. c \<noteq> CR \<and> c \<noteq> LF) (EncodeToString s) = EncodeToString s"
    using EncodeToString_ascii by (auto simp: filter_id_conv)
  then show ?thesis by (simp add: DecodeString_def decode_EncodeToString)
qed

subsection \<open>Keys\<close>

lemma ValidString_ascii: "(\<And>c. c \<in> set s \<Longrightarrow> in_range 0 0x7F c) \<Longrightarrow> ValidString s"
  by (induction s) auto

lemma pg_text_ascii: "(\<And>c. c \<in> set s \<Longrightarrow> ascii c) \<Longrightarrow> pg_text s"
  by (auto simp: pg_text_def ascii_def intro!: ValidString_ascii)

lemma encodeKey_text: "pg_text key \<Longrightarrow> encodeKey key = key"
  by (simp add: encodeKey_def pg_text_def)

lemma encodeKey_binary: "\<not> pg_text key \<Longrightarrow> encodeKey key = binaryPrefix @ EncodeToString key"
  by (auto simp: encodeKey_def pg_text_def)

lemma pg_text_encodeKey [simp]: "pg_text (encodeKey key)"
proof (cases "pg_text key")
  case False
  have "pg_text (binaryPrefix @ EncodeToString key)"
    by (rule pg_text_ascii) (auto simp: binaryPrefix_def ascii_def in_range_def dest!: EncodeToString_ascii)
  with False show ?thesis by (simp add: encodeKey_binary)
qed (simp add: encodeKey_text)

lemma encodeKey_idem [simp]: "encodeKey (encodeKey key) = encodeKey key"
  by (simp add: encodeKey_text)

lemma decodeKey_encodeKey [codec_simps]:
  assumes "pg_text key \<Longrightarrow> \<not> HasPrefix key binaryPrefix"
  shows "decodeKey (encodeKey key) = key"
proof (cases "pg_text key")
  case True
  with assms show ?thesis by (simp add: encodeKey_text decodeKey_def)
next
  case False
  then show ?thesis
    by (simp add: encodeKey_binary decodeKey_def DecodeString_EncodeToString)
qed

lemma encodeField_encodeKey: "encodeField = encodeKey" "decodeField = decodeKey"
  by (simp_all add: fun_eq_iff encodeField_def encodeKey_def decodeField_def decodeKey_def)

section \<open>Properties\<close>



text \<open>
  The marker prefix is itself valid UTF-8, so a client can send a key that
  already starts with it: such a key is stored unchanged, shares its row with a
  different binary key, and does not read back as itself.
\<close>

theorem encodeKey_collision:
  "encodeKey (binaryPrefix @ ''AA=='') = encodeKey [NUL]
   \<and> decodeKey (encodeKey (binaryPrefix @ ''AA=='')) \<noteq> binaryPrefix @ ''AA==''"
proof -
  have "b64_char 0 = CHR ''A''" by (simp add: b64_char_def b64_alphabet_def)
  then have enc: "EncodeToString [NUL] = ''AA==''" by simp
  have "\<not> pg_text [NUL]" by (simp add: pg_text_def)
  then have nul: "encodeKey [NUL] = binaryPrefix @ ''AA==''" unfolding enc [symmetric] by (rule encodeKey_binary)
  then have "encodeKey (binaryPrefix @ ''AA=='') = encodeKey [NUL]" by (metis encodeKey_idem)
  moreover have "decodeKey (encodeKey [NUL]) = [NUL]"
    by (rule decodeKey_encodeKey) (simp add: pg_text_def)
  ultimately show ?thesis by (simp add: binaryPrefix_def)
qed

end
