(* ===== verification/Database.thy ===== *)
theory Database
  imports KeyCodec "HOL-Library.List_Lexorder" "HOL-Library.Char_ord"
begin

text \<open>
  The PostgreSQL schema of \<^verbatim>\<open>src/internal/storage/storage.go\<close> and the helper
  statements of \<^verbatim>\<open>src/internal/storage/querier.go\<close> that every command uses.

  A table is the list of its rows, a row being its primary key paired with its
  other columns.  A SQL statement is the function on row lists it denotes: an
  upsert is \<^const>\<open>AList.update\<close>, a DELETE or UPDATE with a WHERE clause is
  \<open>delete_rows\<close> or \<open>update_rows\<close>.  The order of rows stands for the order a scan
  without ORDER BY returns.  \<^verbatim>\<open>NOW()\<close> and \<^verbatim>\<open>time.Now()\<close> are the argument \<open>now\<close>
  (nanoseconds); \<open>expires_at\<close> is an option, None for SQL NULL.  Scores are values
  of a type parameter.  The field \<open>held\<close> records the transaction-scoped advisory locks in
  the order they are requested; waiting and connection errors are not modelled.
\<close>

section \<open>Row tables\<close>

definition delete_rows :: "('k \<times> 'v \<Rightarrow> bool) \<Rightarrow> ('k \<times> 'v) list \<Rightarrow> ('k \<times> 'v) list" where
  "delete_rows P t = filter (\<lambda>r. \<not> P r) t"

definition update_rows ::
  "('k \<times> 'v \<Rightarrow> bool) \<Rightarrow> ('v \<Rightarrow> 'v) \<Rightarrow> ('k \<times> 'v) list \<Rightarrow> ('k \<times> 'v) list" where
  "update_rows P f t = map (\<lambda>r. if P r then (fst r, f (snd r)) else r) t"

definition rekey_rows ::
  "('k \<Rightarrow> bool) \<Rightarrow> ('k \<Rightarrow> 'k) \<Rightarrow> ('k \<times> 'v) list \<Rightarrow> ('k \<times> 'v) list" where
  "rekey_rows P f t = map (\<lambda>r. if P (fst r) then (f (fst r), snd r) else r) t"

text \<open>The rows of one key in a table whose primary key is (key, sub).\<close>

definition rows_of :: "'k \<Rightarrow> (('k \<times> 'c) \<times> 'v) list \<Rightarrow> (('k \<times> 'c) \<times> 'v) list" where
  "rows_of k t = filter (\<lambda>r. fst (fst r) = k) t"

abbreviation pk_distinct :: "('k \<times> 'v) list \<Rightarrow> bool" where
  "pk_distinct t \<equiv> distinct (map fst t)"

section \<open>Schema\<close>

datatype KeyType = TypeString | TypeHash | TypeList | TypeSet | TypeZSet | TypeHLL | TypeNone

primrec keyTypeName :: "KeyType \<Rightarrow> string" where
  "keyTypeName TypeString = ''string''"
| "keyTypeName TypeHash = ''hash''"
| "keyTypeName TypeList = ''list''"
| "keyTypeName TypeSet = ''set''"
| "keyTypeName TypeZSet = ''zset''"
| "keyTypeName TypeHLL = ''hyperloglog''"
| "keyTypeName TypeNone = ''none''"

type_synonym time = int

record 's db =
  kv_strings :: "(string \<times> (string \<times> time option)) list"
  kv_hashes :: "((string \<times> string) \<times> (string \<times> time option)) list"
  kv_lists :: "((string \<times> int) \<times> (string \<times> time option)) list"
  kv_sets :: "((string \<times> string) \<times> time option) list"
  kv_zsets :: "((string \<times> string) \<times> ('s \<times> time option)) list"
  kv_meta :: "(string \<times> (KeyType \<times> time option)) list"
  kv_hyperloglog :: "(string \<times> (string \<times> time option)) list"
  held :: "string list"

definition initSchema :: "'s db" where
  "initSchema = \<lparr>kv_strings = [], kv_hashes = [], kv_lists = [], kv_sets = [], kv_zsets = [],
     kv_meta = [], kv_hyperloglog = [], held = []\<rparr>"

text \<open>\<^verbatim>\<open>expires_at IS NULL OR expires_at > NOW()\<close>\<close>

definition live :: "time \<Rightarrow> time option \<Rightarrow> bool" where
  "live now e = (case e of None \<Rightarrow> True | Some t \<Rightarrow> t > now)"

section \<open>Helper methods of queryOps\<close>

definition getKeyType :: "time \<Rightarrow> string \<Rightarrow> 's db \<Rightarrow> KeyType" where
  "getKeyType now key d =
     (case map_of (kv_meta d) key of
        Some (kt, e) \<Rightarrow> if live now e then kt else TypeNone
      | None \<Rightarrow> TypeNone)"

definition errWrongType :: string where
  "errWrongType = ''WRONGTYPE Operation against a key holding the wrong kind of value''"

definition readTypeCheck :: "time \<Rightarrow> string \<Rightarrow> KeyType \<Rightarrow> 's db \<Rightarrow> string option" where
  "readTypeCheck now key expected d =
     (case map_of (kv_meta d) key of
        Some (kt, e) \<Rightarrow> if live now e \<and> kt \<noteq> expected then Some errWrongType else None
      | None \<Rightarrow> None)"

definition lockKey :: "string \<Rightarrow> 's db \<Rightarrow> 's db" where
  "lockKey key d = d\<lparr>held := held d @ [key]\<rparr>"

text \<open>The order in which \<^verbatim>\<open>lockKeys\<close> requests the locks of a key list.\<close>

definition lockOrder :: "string list \<Rightarrow> string list" where
  "lockOrder keys =
     (if length keys \<le> 1 then keys else remdups_adj (sort keys))"

definition lockKeys :: "string list \<Rightarrow> 's db \<Rightarrow> 's db" where
  "lockKeys keys d = d\<lparr>held := held d @ lockOrder keys\<rparr>"

definition setMeta :: "string \<Rightarrow> KeyType \<Rightarrow> time option \<Rightarrow> 's db \<Rightarrow> 's db" where
  "setMeta key kt expiresAt d =
     (let d = lockKey key d
      in d\<lparr>kv_meta := AList.update key (kt, expiresAt) (kv_meta d)\<rparr>)"

text \<open>
  The conflict branch of \<^verbatim>\<open>setMetaBatch\<close> keeps the stored expiry.  PostgreSQL
  refuses the statement when a key occurs twice.
\<close>

definition upsertMetaType :: "KeyType \<Rightarrow> string \<Rightarrow> 's db \<Rightarrow> 's db" where
  "upsertMetaType kt key d =
     d\<lparr>kv_meta := (case map_of (kv_meta d) key of
         Some (_, e) \<Rightarrow> AList.update key (kt, e) (kv_meta d)
       | None \<Rightarrow> AList.update key (kt, None) (kv_meta d))\<rparr>"

definition errSecondTime :: string where
  "errSecondTime = ''ERROR: ON CONFLICT DO UPDATE command cannot affect row a second time (SQLSTATE 21000)''"

definition setMetaBatch :: "string list \<Rightarrow> KeyType \<Rightarrow> 's db \<Rightarrow> (string + unit) \<times> 's db" where
  "setMetaBatch keys kt d =
     (if keys = [] then (Inr (), d)
      else let d = lockKeys keys d
           in if distinct keys then (Inr (), fold (upsertMetaType kt) keys d)
              else (Inl errSecondTime, d))"

text \<open>DELETE FROM every table WHERE the key satisfies a condition.\<close>

definition purge :: "(string \<Rightarrow> bool) \<Rightarrow> 's db \<Rightarrow> 's db" where
  "purge P d = d\<lparr>
     kv_meta := delete_rows (\<lambda>r. P (fst r)) (kv_meta d),
     kv_strings := delete_rows (\<lambda>r. P (fst r)) (kv_strings d),
     kv_hashes := delete_rows (\<lambda>r. P (fst (fst r))) (kv_hashes d),
     kv_lists := delete_rows (\<lambda>r. P (fst (fst r))) (kv_lists d),
     kv_sets := delete_rows (\<lambda>r. P (fst (fst r))) (kv_sets d),
     kv_zsets := delete_rows (\<lambda>r. P (fst (fst r))) (kv_zsets d),
     kv_hyperloglog := delete_rows (\<lambda>r. P (fst r)) (kv_hyperloglog d)\<rparr>"

definition deleteKeyFromAllTables :: "string \<Rightarrow> 's db \<Rightarrow> 's db" where
  "deleteKeyFromAllTables key d = purge (\<lambda>k. k = key) (lockKey key d)"

definition deleteKeysFromAllTables :: "string list \<Rightarrow> 's db \<Rightarrow> 's db" where
  "deleteKeysFromAllTables keys d =
     (if keys = [] then d else purge (\<lambda>k. k \<in> set keys) (lockKeys keys d))"

section \<open>Well-formedness and the rows of a key\<close>

text \<open>Primary keys are unique and every stored key is legal PostgreSQL text.\<close>

definition wf_db :: "'s db \<Rightarrow> bool" where
  "wf_db d = (pk_distinct (kv_meta d) \<and> pk_distinct (kv_strings d) \<and> pk_distinct (kv_hashes d)
     \<and> pk_distinct (kv_lists d) \<and> pk_distinct (kv_sets d) \<and> pk_distinct (kv_zsets d)
     \<and> pk_distinct (kv_hyperloglog d))"

text \<open>Everything the database holds about one (encoded) key.\<close>

definition rows :: "string \<Rightarrow> 's db \<Rightarrow> _" where
  "rows k d = (map_of (kv_meta d) k, map_of (kv_strings d) k, rows_of k (kv_hashes d),
     rows_of k (kv_lists d), rows_of k (kv_sets d), rows_of k (kv_zsets d),
     map_of (kv_hyperloglog d) k)"

text \<open>\<open>touches\<close>: an operation changes the rows of the given keys only.\<close>

definition touches :: "string set \<Rightarrow> 's db \<Rightarrow> 's db \<Rightarrow> bool" where
  "touches K d d' = (\<forall>k. k \<notin> K \<longrightarrow> rows k d' = rows k d)"

section \<open>Lemmas on row tables\<close>

lemma map_of_delete_rows_key [table_simps]:
  "map_of (delete_rows (\<lambda>r. P (fst r)) t) k = (if P k then None else map_of t k)"
  by (induction t) (auto simp: delete_rows_def)

lemma map_of_update [table_simps]: "map_of (AList.update k v t) k' = (if k' = k then Some v else map_of t k')"
  by (simp add: update_conv')

lemma pk_delete_rows [simp]: "pk_distinct t \<Longrightarrow> pk_distinct (delete_rows P t)"
  by (simp add: delete_rows_def distinct_map_filter)

lemma map_fst_update_rows [simp]: "map fst (update_rows P f t) = map fst t"
  by (simp add: update_rows_def)

lemma pk_update [simp]: "pk_distinct t \<Longrightarrow> pk_distinct (AList.update k v t)"
  by (rule distinct_update)

lemma map_of_update_rows_key [table_simps]:
  "map_of (update_rows (\<lambda>r. P (fst r)) f t) k =
     (if P k then map_option f (map_of t k) else map_of t k)"
  by (induction t) (auto simp: update_rows_def)

lemmas map_of_delete_eq [table_simps] = map_of_delete_rows_key [of "\<lambda>k'. k' = k" for k]
lemmas map_of_update_rows_eq [table_simps] = map_of_update_rows_key [of "\<lambda>k'. k' = k" for k]

lemma rows_of_update [frame_simps]:
  "k \<noteq> fst ks \<Longrightarrow> rows_of k (AList.update ks v t) = rows_of k t"
  by (induction t) (auto simp: rows_of_def)

lemma rows_of_delete_rows [frame_simps]:
  "(\<And>r. r \<in> set t \<Longrightarrow> fst (fst r) = k \<Longrightarrow> \<not> P r) \<Longrightarrow> rows_of k (delete_rows P t) = rows_of k t"
  by (induction t) (auto simp: rows_of_def delete_rows_def)

lemma rows_of_delete_key [table_simps]:
  "rows_of k (delete_rows (\<lambda>r. P (fst (fst r))) t) = (if P k then [] else rows_of k t)"
  by (induction t) (auto simp: rows_of_def delete_rows_def)

lemmas rows_of_delete_eq [table_simps] = rows_of_delete_key [of k "\<lambda>k'. k' = j" for k j]

lemma rows_of_update_key [table_simps]:
  "rows_of k (update_rows (\<lambda>r. fst (fst r) = j) f t) =
     (if k = j then update_rows (\<lambda>r. True) f (rows_of k t) else rows_of k t)"
  by (induction t) (auto simp: rows_of_def update_rows_def)

lemma rows_of_update_rows [frame_simps]:
  "(\<And>r. r \<in> set t \<Longrightarrow> fst (fst r) = k \<Longrightarrow> \<not> P r) \<Longrightarrow> rows_of k (update_rows P f t) = rows_of k t"
  by (induction t) (auto simp: rows_of_def update_rows_def)

lemma map_of_rows_of: "map_of (rows_of k t) (k, c) = map_of t (k, c)"
  by (induction t) (auto simp: rows_of_def)

lemma in_rows_of [simp]: "r \<in> set (rows_of k t) \<longleftrightarrow> r \<in> set t \<and> fst (fst r) = k"
  by (auto simp: rows_of_def)

lemma distinct_subkeys:
  assumes "pk_distinct t"
  shows "distinct (map (snd \<circ> fst) (filter P (rows_of k t)))"
proof -
  have "map fst (filter P (rows_of k t)) = map (Pair k) (map (snd \<circ> fst) (filter P (rows_of k t)))"
    by (simp add: rows_of_def comp_def prod_eq_iff)
  moreover have "distinct (map fst (filter P (rows_of k t)))"
    using assms by (simp add: rows_of_def distinct_map_filter)
  ultimately show ?thesis by (metis distinct_map)
qed

section \<open>Lemmas on the helper methods\<close>

lemma lock_rows [frame_simps, simp]: "rows k (lockKey x d) = rows k d" "rows k (lockKeys xs d) = rows k d"
  by (simp_all add: rows_def lockKey_def lockKeys_def)

lemma wf_lock [simp]: "wf_db (lockKey x d) = wf_db d" "wf_db (lockKeys xs d) = wf_db d"
  by (simp_all add: wf_db_def lockKey_def lockKeys_def)

lemma wf_initSchema [simp]: "wf_db initSchema"
  by (simp add: wf_db_def initSchema_def)

lemma rows_purge [table_simps]:
  "rows k (purge P d) = (if P k then (None, None, [], [], [], [], None) else rows k d)"
  by (simp add: rows_def purge_def table_simps)

lemma wf_purge [simp]: "wf_db d \<Longrightarrow> wf_db (purge P d)"
  by (simp add: wf_db_def purge_def)

lemma wf_setMeta [simp]: "wf_db d \<Longrightarrow> wf_db (setMeta k kt e d)"
  by (simp add: wf_db_def setMeta_def lockKey_def)

lemma touches_refl [simp, intro]: "touches K d d"
  by (simp add: touches_def)

lemma touches_trans: "touches K d d' \<Longrightarrow> touches K d' d'' \<Longrightarrow> touches K d d''"
  by (simp add: touches_def)

lemma touches_mono: "touches K d d' \<Longrightarrow> K \<subseteq> K' \<Longrightarrow> touches K' d d'"
  by (auto simp: touches_def)

lemma touches_purge: "{k. P k} \<subseteq> K \<Longrightarrow> touches K d (purge P d)"
  by (auto simp: touches_def rows_purge)

lemma touches_lock [simp]: "touches K d (lockKey x d)" "touches K d (lockKeys xs d)"
  by (simp_all add: touches_def)

lemma touches_setMeta: "k \<in> K \<Longrightarrow> touches K d (setMeta k kt e d)"
  by (auto simp: touches_def rows_def setMeta_def lockKey_def table_simps)

lemma setMeta_select [simp]:
  "kv_strings (setMeta k kt e d) = kv_strings d" "kv_hashes (setMeta k kt e d) = kv_hashes d"
  "kv_lists (setMeta k kt e d) = kv_lists d" "kv_sets (setMeta k kt e d) = kv_sets d"
  "kv_zsets (setMeta k kt e d) = kv_zsets d" "kv_hyperloglog (setMeta k kt e d) = kv_hyperloglog d"
  "kv_meta (setMeta k kt e d) = AList.update k (kt, e) (kv_meta d)"
  "held (setMeta k kt e d) = held d @ [k]"
  by (simp_all add: setMeta_def lockKey_def)

lemma lock_select [simp]:
  "kv_strings (lockKey k d) = kv_strings d" "kv_hashes (lockKey k d) = kv_hashes d"
  "kv_lists (lockKey k d) = kv_lists d" "kv_sets (lockKey k d) = kv_sets d"
  "kv_zsets (lockKey k d) = kv_zsets d" "kv_hyperloglog (lockKey k d) = kv_hyperloglog d"
  "kv_meta (lockKey k d) = kv_meta d" "held (lockKey k d) = held d @ [k]"
  "kv_strings (lockKeys ks d) = kv_strings d" "kv_hashes (lockKeys ks d) = kv_hashes d"
  "kv_lists (lockKeys ks d) = kv_lists d" "kv_sets (lockKeys ks d) = kv_sets d"
  "kv_zsets (lockKeys ks d) = kv_zsets d" "kv_hyperloglog (lockKeys ks d) = kv_hyperloglog d"
  "kv_meta (lockKeys ks d) = kv_meta d"
  by (simp_all add: lockKey_def lockKeys_def)

lemma live_None [simp]: "live now None"
  by (simp add: live_def)

lemma live_Some [simp]: "live now (Some t) = (t > now)"
  by (simp add: live_def)

subsection \<open>Batch statements\<close>

lemma upsertMetaType_select [simp]:
  "kv_strings (upsertMetaType kt k d) = kv_strings d" "kv_hashes (upsertMetaType kt k d) = kv_hashes d"
  "kv_lists (upsertMetaType kt k d) = kv_lists d" "kv_sets (upsertMetaType kt k d) = kv_sets d"
  "kv_zsets (upsertMetaType kt k d) = kv_zsets d"
  "kv_hyperloglog (upsertMetaType kt k d) = kv_hyperloglog d"
  "held (upsertMetaType kt k d) = held d"
  by (simp_all add: upsertMetaType_def)

lemma map_of_upsertMetaType [table_simps]:
  "map_of (kv_meta (upsertMetaType kt k d)) k' =
     (if k' = k then Some (kt, case map_of (kv_meta d) k of Some (_, e) \<Rightarrow> e | None \<Rightarrow> None)
      else map_of (kv_meta d) k')"
  by (auto simp: upsertMetaType_def table_simps split: option.splits)

lemma wf_upsertMetaType [simp]: "wf_db d \<Longrightarrow> wf_db (upsertMetaType kt k d)"
  by (auto simp: wf_db_def upsertMetaType_def split: option.splits)

lemma fold_upsertMetaType_select [simp]:
  "kv_strings (fold (upsertMetaType kt) ks d) = kv_strings d"
  "kv_hashes (fold (upsertMetaType kt) ks d) = kv_hashes d"
  "kv_lists (fold (upsertMetaType kt) ks d) = kv_lists d"
  "kv_sets (fold (upsertMetaType kt) ks d) = kv_sets d"
  "kv_zsets (fold (upsertMetaType kt) ks d) = kv_zsets d"
  "kv_hyperloglog (fold (upsertMetaType kt) ks d) = kv_hyperloglog d"
  "held (fold (upsertMetaType kt) ks d) = held d"
  by (induction ks arbitrary: d) simp_all

lemma map_of_fold_upsertMetaType [table_simps]:
  "map_of (kv_meta (fold (upsertMetaType kt) ks d)) k' =
     (if k' \<in> set ks then Some (kt, case map_of (kv_meta d) k' of Some (_, e) \<Rightarrow> e | None \<Rightarrow> None)
      else map_of (kv_meta d) k')"
  by (induction ks arbitrary: d) (auto simp: table_simps split: option.splits)

lemma wf_fold_upsertMetaType [simp]: "wf_db d \<Longrightarrow> wf_db (fold (upsertMetaType kt) ks d)"
  by (induction ks arbitrary: d) simp_all

lemma wf_setMetaBatch [simp]: "wf_db d \<Longrightarrow> wf_db (snd (setMetaBatch ks kt d))"
  by (simp add: setMetaBatch_def Let_def)

lemma touches_setMetaBatch: "set ks \<subseteq> K \<Longrightarrow> touches K d (snd (setMetaBatch ks kt d))"
  by (auto simp: touches_def rows_def setMetaBatch_def Let_def table_simps)

lemma wf_deleteKeys [simp]:
  "wf_db d \<Longrightarrow> wf_db (deleteKeyFromAllTables k d)"
  "wf_db d \<Longrightarrow> wf_db (deleteKeysFromAllTables ks d)"
  by (simp_all add: deleteKeyFromAllTables_def deleteKeysFromAllTables_def)

lemma touches_deleteKeys:
  "k \<in> K \<Longrightarrow> touches K d (deleteKeyFromAllTables k d)"
  "set ks \<subseteq> K \<Longrightarrow> touches K d (deleteKeysFromAllTables ks d)"
  by (auto simp: deleteKeyFromAllTables_def deleteKeysFromAllTables_def touches_def rows_purge)

lemma rows_deleteKeys [table_simps]:
  "rows k (deleteKeyFromAllTables key d) =
     (if k = key then (None, None, [], [], [], [], None) else rows k d)"
  "rows k (deleteKeysFromAllTables keys d) =
     (if k \<in> set keys then (None, None, [], [], [], [], None) else rows k d)"
  by (simp_all add: deleteKeyFromAllTables_def deleteKeysFromAllTables_def rows_purge)

subsection \<open>Lock order\<close>

lemma lockOrder_set [simp]: "set (lockOrder keys) = set keys"
  by (simp add: lockOrder_def)

lemma sorted_remdups_adj_strict:
  "sorted xs \<Longrightarrow> sorted_wrt (<) (remdups_adj (xs :: 'a :: linorder list))"
  by (induction xs rule: remdups_adj.induct)
    (auto simp: less_le)

lemma lockOrder_sorted: "sorted_wrt (<) (lockOrder keys)"
proof (cases "length keys \<le> 1")
  case True
  then show ?thesis by (cases keys) (auto simp: lockOrder_def)
qed (simp add: lockOrder_def sorted_remdups_adj_strict)

end
