(* ===== verification/Strings.thy ===== *)
theory Strings
  imports Database
begin

text \<open>
  The string commands of \<^verbatim>\<open>queryOps\<close> in \<^verbatim>\<open>src/internal/storage/querier.go\<close>:
  each is a function of the time, its arguments and the database, returning
  its result (Inl the error text) and the database after it.
\<close>

type_synonym ('s, 'a) op = "'s db \<Rightarrow> (string + 'a) \<times> 's db"

section \<open>Operations\<close>

text \<open>\<^verbatim>\<open>SELECT value FROM kv_strings WHERE key = $1 AND (live)\<close>\<close>

definition selectString :: "time \<Rightarrow> string \<Rightarrow> 's db \<Rightarrow> string option" where
  "selectString now key d =
     (case map_of (kv_strings d) key of
        Some (v, e) \<Rightarrow> if live now e then Some v else None
      | None \<Rightarrow> None)"

definition get :: "time \<Rightarrow> string \<Rightarrow> 's db \<Rightarrow> string option" where
  "get now key d = selectString now (encodeKey key) d"

definition expiryOf :: "time \<Rightarrow> int \<Rightarrow> time option" where
  "expiryOf now ttl = (if ttl > 0 then Some (now + ttl) else None)"

text \<open>INSERT INTO kv_strings with value and expiry, the conflict branch writing both.\<close>

definition upsertString :: "string \<Rightarrow> string \<Rightarrow> time option \<Rightarrow> 's db \<Rightarrow> 's db" where
  "upsertString key value e d = d\<lparr>kv_strings := AList.update key (value, e) (kv_strings d)\<rparr>"

definition set' :: "time \<Rightarrow> string \<Rightarrow> string \<Rightarrow> int \<Rightarrow> 's db \<Rightarrow> 's db" where
  "set' now key value ttl d =
     (let key = encodeKey key;
          d = deleteKeyFromAllTables key d;
          expiresAt = expiryOf now ttl;
          d = setMeta key TypeString expiresAt d
      in upsertString key value expiresAt d)"

definition setNX :: "time \<Rightarrow> string \<Rightarrow> string \<Rightarrow> int \<Rightarrow> 's db \<Rightarrow> bool \<times> 's db" where
  "setNX now key value ttl d =
     (let enc = encodeKey key; d = lockKey enc d
      in if (case map_of (kv_meta d) enc of Some (_, e) \<Rightarrow> live now e | None \<Rightarrow> False)
         then (False, d)
         else (True, set' now key value ttl d))"

definition mGet :: "time \<Rightarrow> string list \<Rightarrow> 's db \<Rightarrow> string option list" where
  "mGet now keys d =
     (let keys = encodeKeys keys;
          rs = filter (\<lambda>r. fst r \<in> set keys \<and> live now (snd (snd r))) (kv_strings d);
          keyValues = fold (\<lambda>r m. AList.update (fst r) (fst (snd r)) m) rs []
      in map (\<lambda>key. map_of keyValues key) keys)"

text \<open>
  INSERT INTO kv_strings (key, value), the conflict branch writing the value only.
\<close>

definition upsertStringValue :: "string \<Rightarrow> string \<Rightarrow> 's db \<Rightarrow> 's db" where
  "upsertStringValue key value d =
     d\<lparr>kv_strings := (case map_of (kv_strings d) key of
         Some (_, e) \<Rightarrow> AList.update key (value, e) (kv_strings d)
       | None \<Rightarrow> AList.update key (value, None) (kv_strings d))\<rparr>"

definition mSet :: "(string \<times> string) list \<Rightarrow> ('s, unit) op" where
  "mSet pairs d =
     (let pairs = fold (\<lambda>(k, v) m. AList.update (encodeKey k) v m) pairs []
      in if pairs = [] then (Inr (), d)
         else let keys = sort (map fst pairs);
                  d = deleteKeysFromAllTables keys d
              in case setMetaBatch keys TypeString d of
                   (Inl e, d) \<Rightarrow> (Inl e, d)
                 | (Inr _, d) \<Rightarrow>
                     (Inr (), fold (\<lambda>k d. upsertStringValue k (the (map_of pairs k)) d) keys d))"

definition incr :: "time \<Rightarrow> string \<Rightarrow> int \<Rightarrow> ('s, int) op" where
  "incr now key delta d =
     (let key = encodeKey key;
          current = (case selectString now key d of
                       None \<Rightarrow> Inr 0
                     | Some v \<Rightarrow> ParseInt v)
      in case current of
           Inl _ \<Rightarrow> (Inl ''value is not an integer or out of range'', d)
         | Inr current \<Rightarrow>
             let result = wrap64 (current + delta);
                 d = setMeta key TypeString None d
             in (Inr result, upsertStringValue key (FormatInt result) d))"

definition appendStr :: "string \<Rightarrow> string \<Rightarrow> ('s, int) op" where
  "appendStr key value d =
     (let key = encodeKey key;
          d = setMeta key TypeString None d;
          d = (case map_of (kv_strings d) key of
                 Some (old, _) \<Rightarrow> upsertStringValue key (old @ value) d
               | None \<Rightarrow> upsertStringValue key value d)
      in case map_of (kv_strings d) key of
           Some (newValue, _) \<Rightarrow> (Inr (int (length newValue)), d)
         | None \<Rightarrow> (Inl ''no rows in result set'', d))"

text \<open>Go's \<^verbatim>\<open>s[lo:hi]\<close> for indices already known to be in range.\<close>

definition slice :: "int \<Rightarrow> int \<Rightarrow> 'a list \<Rightarrow> 'a list" where
  "slice lo hi xs = take (nat (hi - lo)) (drop (nat lo) xs)"

definition getRange :: "time \<Rightarrow> string \<Rightarrow> int \<Rightarrow> int \<Rightarrow> 's db \<Rightarrow> string" where
  "getRange now key start stop d =
     (case selectString now (encodeKey key) d of
        None \<Rightarrow> []
      | Some value \<Rightarrow>
          let len = int (length value)
          in if len = 0 then []
             else let start = (if start < 0 then len + start else start);
                      stop = (if stop < 0 then len + stop else stop);
                      start = (if start < 0 then 0 else start);
                      stop = (if stop \<ge> len then len - 1 else stop)
                  in if start > stop \<or> start \<ge> len then []
                     else slice start (stop + 1) value)"

text \<open>
  Growing the buffer with zero bytes, and \<^verbatim>\<open>copy(existing[offset:], value)\<close>.
\<close>

definition growBuf :: "string \<Rightarrow> int \<Rightarrow> string" where
  "growBuf existing endPos =
     (if int (length existing) < endPos
      then existing @ replicate (nat endPos - length existing) NUL
      else existing)"

definition copyAt :: "nat \<Rightarrow> string \<Rightarrow> string \<Rightarrow> string" where
  "copyAt offset v existing =
     (let n = min (length v) (length existing - offset)
      in take offset existing @ take n v @ drop (offset + n) existing)"

text \<open>A negative offset panics in Go and is Inl here.\<close>

definition setRange :: "time \<Rightarrow> string \<Rightarrow> int \<Rightarrow> string \<Rightarrow> ('s, int) op" where
  "setRange now key offset v d =
     (let key = encodeKey key;
          existing = (case selectString now key d of None \<Rightarrow> [] | Some v \<Rightarrow> v);
          endPos = wrap64 (offset + int (length v));
          existing = growBuf existing endPos
      in if offset < 0 \<or> offset > int (length existing)
         then (Inl ''runtime error: slice bounds out of range'', d)
         else let existing = copyAt (nat offset) v existing;
                  d = setMeta key TypeString None d
              in (Inr (int (length existing)), upsertStringValue key existing d))"

definition strLen :: "time \<Rightarrow> string \<Rightarrow> 's db \<Rightarrow> int" where
  "strLen now key d =
     (case selectString now (encodeKey key) d of None \<Rightarrow> 0 | Some v \<Rightarrow> int (length v))"

definition setExpiry :: "string \<Rightarrow> time option \<Rightarrow> 's db \<Rightarrow> 's db" where
  "setExpiry key e d = d\<lparr>
     kv_meta := update_rows (\<lambda>r. fst r = key) (\<lambda>(kt, _). (kt, e)) (kv_meta d),
     kv_strings := update_rows (\<lambda>r. fst r = key) (\<lambda>(v, _). (v, e)) (kv_strings d)\<rparr>"

definition getEx :: "time \<Rightarrow> string \<Rightarrow> int \<Rightarrow> bool \<Rightarrow> 's db \<Rightarrow> string option \<times> 's db" where
  "getEx now key ttl persist d =
     (let key = encodeKey key; d = lockKey key d
      in case selectString now key d of
           None \<Rightarrow> (None, d)
         | Some value \<Rightarrow>
             (Some value,
              if persist then setExpiry key None d
              else if ttl > 0 then setExpiry key (Some (now + ttl)) d
              else d))"

definition getDel :: "time \<Rightarrow> string \<Rightarrow> 's db \<Rightarrow> string option \<times> 's db" where
  "getDel now key d =
     (let key = encodeKey key; d = lockKey key d
      in case selectString now key d of
           None \<Rightarrow> (None, d)
         | Some value \<Rightarrow>
             (Some value, d\<lparr>kv_meta := delete_rows (\<lambda>r. fst r = key) (kv_meta d),
                            kv_strings := delete_rows (\<lambda>r. fst r = key) (kv_strings d)\<rparr>))"

definition getSet :: "time \<Rightarrow> string \<Rightarrow> string \<Rightarrow> 's db \<Rightarrow> string option \<times> 's db" where
  "getSet now key value d =
     (let key = encodeKey key;
          oldValue = selectString now key d;
          d = setMeta key TypeString None d
      in (oldValue, upsertString key value None d))"

section \<open>Lemmas: well-formedness and frame\<close>

lemma selectString_rows: "rows k d' = rows k d \<Longrightarrow> selectString now k d' = selectString now k d"
  by (simp add: selectString_def rows_def)

lemma getKeyType_rows: "rows k d' = rows k d \<Longrightarrow> getKeyType now k d' = getKeyType now k d"
  by (simp add: getKeyType_def rows_def)

lemma touches_upsertString [simp]: "k \<in> K \<Longrightarrow> touches K d (upsertStringValue k v d)"
  by (auto simp: touches_def rows_def upsertStringValue_def table_simps split: option.splits)

lemma wf_upsertString [simp]: "wf_db d \<Longrightarrow> wf_db (upsertStringValue k v d)"
  by (auto simp: wf_db_def upsertStringValue_def split: option.splits)

lemma touches_setString: "k \<in> K \<Longrightarrow> touches K d (upsertString k v e d)"
  by (auto simp: touches_def rows_def upsertString_def table_simps)

lemma wf_setString [simp]: "wf_db d \<Longrightarrow> wf_db (upsertString k v e d)"
  by (simp add: wf_db_def upsertString_def)

lemma touches_set' [frame_simps]: "touches {encodeKey key} d (set' now key value ttl d)"
  unfolding set'_def Let_def
  by (intro touches_trans [OF touches_deleteKeys(1) touches_trans [OF touches_setMeta touches_setString]])
    simp_all

lemma wf_set' [simp]: "wf_db d \<Longrightarrow> wf_db (set' now key value ttl d)"
  by (simp add: set'_def Let_def)

lemma touches_setNX [frame_simps]: "touches {encodeKey key} d (snd (setNX now key value ttl d))"
  unfolding setNX_def Let_def
  using touches_trans [OF touches_lock(1) touches_set'] by auto

lemma wf_setNX [simp]: "wf_db d \<Longrightarrow> wf_db (snd (setNX now key value ttl d))"
  by (simp add: setNX_def Let_def)

lemma touches_incr [frame_simps]: "touches {encodeKey key} d (snd (incr now key delta d))"
  unfolding incr_def Let_def
  by (auto split: sum.splits intro: touches_trans [OF touches_setMeta touches_upsertString])

lemma wf_incr [simp]: "wf_db d \<Longrightarrow> wf_db (snd (incr now key delta d))"
  by (auto simp: incr_def Let_def split: sum.splits)

lemma touches_appendStr [frame_simps]: "touches {encodeKey key} d (snd (appendStr key value d))"
  unfolding appendStr_def Let_def
  by (auto split: option.splits intro: touches_trans [OF touches_setMeta touches_upsertString])

lemma wf_appendStr [simp]: "wf_db d \<Longrightarrow> wf_db (snd (appendStr key value d))"
  by (auto simp: appendStr_def Let_def split: option.splits)

lemma touches_setRange [frame_simps]: "touches {encodeKey key} d (snd (setRange now key off value d))"
  unfolding setRange_def Let_def
  by (auto split: option.splits intro: touches_trans [OF touches_setMeta touches_upsertString])

lemma wf_setRange [simp]: "wf_db d \<Longrightarrow> wf_db (snd (setRange now key off value d))"
  by (auto simp: setRange_def Let_def)

lemma touches_setExpiry: "k \<in> K \<Longrightarrow> touches K d (setExpiry k e d)"
  by (auto simp: touches_def rows_def setExpiry_def table_simps)

lemma wf_setExpiry [simp]: "wf_db d \<Longrightarrow> wf_db (setExpiry k e d)"
  by (simp add: wf_db_def setExpiry_def)

lemma touches_getEx [frame_simps]: "touches {encodeKey key} d (snd (getEx now key ttl p d))"
  unfolding getEx_def Let_def
  by (auto split: option.splits intro: touches_trans [OF touches_lock(1) touches_setExpiry])

lemma wf_getEx [simp]: "wf_db d \<Longrightarrow> wf_db (snd (getEx now key ttl p d))"
  by (auto simp: getEx_def Let_def split: option.splits)

lemma touches_getDel [frame_simps]: "touches {encodeKey key} d (snd (getDel now key d))"
  by (auto simp: getDel_def Let_def touches_def rows_def table_simps split: option.splits)

lemma wf_getDel [simp]: "wf_db d \<Longrightarrow> wf_db (snd (getDel now key d))"
  by (auto simp: getDel_def Let_def wf_db_def lockKey_def split: option.splits)

lemma touches_getSet [frame_simps]: "touches {encodeKey key} d (snd (getSet now key value d))"
  unfolding getSet_def Let_def
  by (auto intro: touches_trans [OF touches_setMeta touches_setString])

lemma wf_getSet [simp]: "wf_db d \<Longrightarrow> wf_db (snd (getSet now key value d))"
  by (simp add: getSet_def Let_def)

section \<open>Lemmas: values\<close>

lemma selectString_upsertString [simp]:
  "selectString now k (upsertString k' v e d) =
     (if k = k' then if live now e then Some v else None else selectString now k d)"
  by (simp add: selectString_def upsertString_def table_simps)

lemma selectString_upsertValue [simp]:
  "selectString now k (upsertStringValue k' v d) =
     (if k = k' then if live now (case map_of (kv_strings d) k' of Some (_, e) \<Rightarrow> e | None \<Rightarrow> None)
                     then Some v else None
      else selectString now k d)"
  by (auto simp: selectString_def upsertStringValue_def table_simps split: option.splits)

lemma selectString_setMeta [simp]: "selectString now k (setMeta k' kt e d) = selectString now k d"
  by (simp add: selectString_def)

lemma selectString_lock [simp]: "selectString now k (lockKey x d) = selectString now k d"
  "selectString now k (lockKeys xs d) = selectString now k d"
  by (simp_all add: selectString_def)

lemma getKeyType_upsert [simp]:
  "getKeyType now k (upsertString k' v e d) = getKeyType now k d"
  "getKeyType now k (upsertStringValue k' v d) = getKeyType now k d"
  by (simp_all add: getKeyType_def upsertString_def upsertStringValue_def)

lemma getKeyType_setMeta [simp]:
  "getKeyType now k (setMeta k' kt e d) =
     (if k = k' then if live now e then kt else TypeNone else getKeyType now k d)"
  by (auto simp: getKeyType_def table_simps)

lemma get_frame:
  assumes "touches K d d'" and "encodeKey k \<notin> K"
  shows "get now k d' = get now k d"
  using assms unfolding get_def touches_def by (blast intro: selectString_rows)

lemma get_set':
  "get now' k (set' now key v ttl d) =
     (if encodeKey k = encodeKey key then if live now' (expiryOf now ttl) then Some v else None
      else get now' k d)"
  using get_frame [OF touches_set' [of key d now v ttl]] by (simp add: get_def set'_def Let_def)

lemma getKeyType_set':
  "getKeyType now' (encodeKey key) (set' now key v ttl d) =
     (if live now' (expiryOf now ttl) then TypeString else TypeNone)"
  by (simp add: set'_def Let_def)

text \<open>MSET writes each key once, in sorted order, with the last value given for it.\<close>

lemma fold_upsertValue_rows:
  "distinct ks \<Longrightarrow> map_of (kv_strings (fold (\<lambda>k d. upsertStringValue k (f k) d) ks d)) k =
     (if k \<in> set ks then Some (f k, case map_of (kv_strings d) k of Some (_, e) \<Rightarrow> e | None \<Rightarrow> None)
      else map_of (kv_strings d) k)"
  by (induction ks arbitrary: d)
    (auto simp: upsertStringValue_def table_simps split: option.splits)

lemma fold_upsertValue_frame:
  "set ks \<subseteq> K \<Longrightarrow> touches K d (fold (\<lambda>k d. upsertStringValue k (f k) d) ks d)"
  by (induction ks arbitrary: d) (auto intro: touches_trans [OF touches_upsertString])

lemma fold_upsertValue_wf: "wf_db d \<Longrightarrow> wf_db (fold (\<lambda>k d. upsertStringValue k (f k) d) ks d)"
  by (induction ks arbitrary: d) auto

definition encPairs :: "(string \<times> string) list \<Rightarrow> (string \<times> string) list" where
  "encPairs pairs = fold (\<lambda>(k, v) m. AList.update (encodeKey k) v m) pairs []"

lemma encPairs_aux:
  "distinct (map fst m) \<Longrightarrow>
     distinct (map fst (fold (\<lambda>(k, v) m. AList.update (encodeKey k) v m) pairs m)) \<and>
     map_of (fold (\<lambda>(k, v) m. AList.update (encodeKey k) v m) pairs m)
       = map_of m ++ map_of (rev (map (\<lambda>(k, v). (encodeKey k, v)) pairs))"
proof (induction pairs arbitrary: m)
  case (Cons p pairs)
  obtain k v where p: "p = (k, v)" by fastforce
  have "distinct (map fst (AList.update (encodeKey k) v m))" using Cons.prems by (rule distinct_update)
  from Cons.IH [OF this] show ?case
    by (auto simp: p fun_eq_iff map_add_def update_conv' split: option.splits)
qed simp

lemma encPairs_distinct: "distinct (map fst (encPairs pairs))"
  and encPairs_map_of: "map_of (encPairs pairs) = map_of (rev (map (\<lambda>(k, v). (encodeKey k, v)) pairs))"
  using encPairs_aux [of "[]" pairs] by (simp_all add: encPairs_def)

lemma mSet_unfold:
  "mSet pairs d =
     (if encPairs pairs = [] then (Inr (), d)
      else let keys = sort (map fst (encPairs pairs));
               d = deleteKeysFromAllTables keys d;
               d = fold (upsertMetaType TypeString) keys (lockKeys keys d)
           in (Inr (), fold (\<lambda>k d. upsertStringValue k (the (map_of (encPairs pairs) k)) d) keys d))"
proof -
  have "sort (map fst (encPairs pairs)) = [] \<longleftrightarrow> encPairs pairs = []"
    by (metis length_0_conv length_map length_sort)
  moreover have "distinct (sort (map fst (encPairs pairs)))" by (simp add: encPairs_distinct)
  ultimately show ?thesis
    by (simp add: mSet_def setMetaBatch_def Let_def flip: encPairs_def)
qed

lemma dom_encPairs: "k \<in> set (map fst (encPairs pairs)) \<longleftrightarrow> k \<in> encodeKey ` fst ` set pairs"
proof -
  have "k \<in> set (map fst (encPairs pairs)) \<longleftrightarrow> map_of (encPairs pairs) k \<noteq> None"
    by (simp add: map_of_eq_None_iff)
  also have "\<dots> \<longleftrightarrow> k \<in> encodeKey ` fst ` set pairs"
    by (force simp: encPairs_map_of map_of_eq_None_iff)
  finally show ?thesis .
qed

lemma touches_mSet [frame_simps]: "touches (encodeKey ` fst ` set pairs) d (snd (mSet pairs d))"
proof -
  let ?K = "encodeKey ` fst ` set pairs" and ?ks = "sort (map fst (encPairs pairs))"
  have K: "set ?ks \<subseteq> ?K" by (metis dom_encPairs set_sort subsetI)
  have "touches ?K d (fold (upsertMetaType TypeString) ?ks d)" for d
    using K by (auto simp: touches_def rows_def table_simps)
  with K show ?thesis
    by (auto simp: mSet_unfold Let_def simp del: set_sort set_map
        intro!: touches_trans [OF touches_deleteKeys(2) touches_trans [OF touches_lock(2)
            touches_trans [OF _ fold_upsertValue_frame]]])
qed

lemma wf_mSet [simp]: "wf_db d \<Longrightarrow> wf_db (snd (mSet pairs d))"
  by (simp add: mSet_unfold Let_def fold_upsertValue_wf)

lemma get_mSet:
  "get now k (snd (mSet pairs d)) =
     (case map_of (encPairs pairs) (encodeKey k) of Some v \<Rightarrow> Some v | None \<Rightarrow> get now k d)"
proof (cases "map_of (encPairs pairs) (encodeKey k)")
  case None
  then have "encodeKey k \<notin> encodeKey ` fst ` set pairs"
    by (metis dom_encPairs map_of_eq_None_iff set_map)
  with None show ?thesis using get_frame [OF touches_mSet] by simp
next
  case (Some v)
  let ?ks = "sort (map fst (encPairs pairs))"
  have k: "encodeKey k \<in> set ?ks" "encPairs pairs \<noteq> []"
    using Some by (auto dest: map_of_SomeD intro: rev_image_eqI)
  have "map_of (kv_strings (deleteKeysFromAllTables ?ks d)) (encodeKey k) = None"
    using rows_deleteKeys(2) [of "encodeKey k" ?ks d] k(1) by (simp add: rows_def)
  with k Some show ?thesis
    by (simp add: get_def selectString_def mSet_unfold Let_def fold_upsertValue_rows encPairs_distinct)
qed

subsection \<open>Counters and ranges\<close>

text \<open>\<open>not_stale\<close>: the key has no string row left over from an expired value.\<close>

definition not_stale :: "time \<Rightarrow> string \<Rightarrow> 's db \<Rightarrow> bool" where
  "not_stale now key d =
     (case map_of (kv_strings d) (encodeKey key) of Some (_, e) \<Rightarrow> live now e | None \<Rightarrow> True)"

lemma get_upsert_after_meta:
  assumes "not_stale now key d"
  shows "get now key (upsertStringValue (encodeKey key) v (setMeta (encodeKey key) kt e d)) = Some v"
  using assms by (auto simp: get_def not_stale_def split: option.splits)

lemma copyAt_fits:
  "off + length v \<le> length xs \<Longrightarrow> copyAt off v xs = take off xs @ v @ drop (off + length v) xs"
  by (simp add: copyAt_def min_def)

lemma length_copyAt: "off + length v \<le> length xs \<Longrightarrow> length (copyAt off v xs) = length xs"
  by (simp add: copyAt_fits)

lemma slice_copyAt:
  assumes "off + length v \<le> length xs"
  shows "slice (int off) (int (off + length v)) (copyAt off v xs) = v"
  using assms by (simp add: slice_def copyAt_fits)

lemma nth_copyAt:
  assumes "off + length v \<le> length xs" "i < length xs"
  shows "copyAt off v xs ! i = (if off \<le> i \<and> i < off + length v then v ! (i - off) else xs ! i)"
proof -
  consider "i < off" | "off \<le> i" "i < off + length v" | "off + length v \<le> i" by linarith
  then show ?thesis using assms by cases (auto simp: nth_append copyAt_fits)
qed

lemma length_growBuf: "0 \<le> p \<Longrightarrow> length (growBuf xs p) = max (length xs) (nat p)"
  by (auto simp: growBuf_def max_def)

lemma nth_growBuf: "i < length (growBuf xs p) \<Longrightarrow> growBuf xs p ! i = (if i < length xs then xs ! i else NUL)"
  by (auto simp: growBuf_def nth_append)

lemma setRange_result:
  assumes "0 \<le> off" "int64 (off + int (length v))" "not_stale now key d"
    and "buf = growBuf (case get now key d of None \<Rightarrow> [] | Some x \<Rightarrow> x) (off + int (length v))"
  shows "fst (setRange now key off v d) = Inr (int (length buf))"
    and "get now key (snd (setRange now key off v d)) = Some (copyAt (nat off) v buf)"
    and "nat off + length v \<le> length buf"
proof -
  show le: "nat off + length v \<le> length buf"
    using assms(1) by (simp add: assms(4) length_growBuf)
  then have "\<not> (off < 0 \<or> int (length buf) < off)" using assms(1) by linarith
  then have "setRange now key off v d = (Inr (int (length (copyAt (nat off) v buf))),
      upsertStringValue (encodeKey key) (copyAt (nat off) v buf) (setMeta (encodeKey key) TypeString None d))"
    using assms(2,4) unfolding setRange_def Let_def get_def by simp
  then show "fst (setRange now key off v d) = Inr (int (length buf))"
    and "get now key (snd (setRange now key off v d)) = Some (copyAt (nat off) v buf)"
    using get_upsert_after_meta [OF assms(3)] le by (simp_all add: length_copyAt)
qed

section \<open>Properties\<close>



text \<open>
  SETRANGE zero-fills up to the end of the written range, keeps every byte
  outside it, and GETRANGE over the range reads back exactly what was written.
\<close>

theorem setRange_getRange:
  assumes "0 \<le> off" and "v \<noteq> []" and "int64 (off + int (length v))" and "not_stale now key d"
  defines "old \<equiv> (case get now key d of None \<Rightarrow> [] | Some x \<Rightarrow> x)"
  defines "d' \<equiv> snd (setRange now key off v d)"
  shows "getRange now key off (off + int (length v) - 1) d' = v
       \<and> strLen now key d' = max (int (length old)) (off + int (length v))
       \<and> fst (setRange now key off v d) = Inr (strLen now key d')
       \<and> (\<exists>new. get now key d' = Some new
            \<and> (\<forall>i < length new. new ! i = (if nat off \<le> i \<and> i < nat off + length v then v ! (i - nat off)
                                              else if i < length old then old ! i else NUL)))"
proof -
  define buf where "buf = growBuf old (off + int (length v))"
  define new where "new = copyAt (nat off) v buf"
  have r: "fst (setRange now key off v d) = Inr (int (length buf))" "get now key d' = Some new"
    "nat off + length v \<le> length buf"
    using setRange_result [OF assms(1,3,4) buf_def [unfolded old_def]] by (simp_all add: d'_def new_def)
  have len: "length new = length buf" using r(3) by (simp add: new_def length_copyAt)
  have lenb: "int (length buf) = max (int (length old)) (off + int (length v))"
    using assms(1) by (simp add: buf_def length_growBuf)
  have sl: "slice off (off + int (length v)) new = v"
    using slice_copyAt [OF r(3)] assms(1) by (simp add: new_def)
  have "1 \<le> int (length v)" using assms(2) by (cases v) auto
  moreover have "off + int (length v) \<le> int (length new)" using r(3) len assms(1) by linarith
  moreover from calculation have "new \<noteq> []" using assms(1) by auto
  ultimately have gr: "getRange now key off (off + int (length v) - 1) d' = slice off (off + int (length v)) new"
    using r(2) assms(1,2) by (simp add: getRange_def get_def Let_def)
  have nth: "new ! i = (if nat off \<le> i \<and> i < nat off + length v then v ! (i - nat off)
      else if i < length old then old ! i else NUL)" if "i < length new" for i
    using that r(3) len nth_copyAt [of "nat off" v buf i] nth_growBuf [of i old "off + int (length v)"]
    by (simp add: new_def buf_def)
  have sl_len: "strLen now key d' = int (length buf)" using r(2) len by (simp add: strLen_def get_def)
  show ?thesis
    unfolding gr sl sl_len r(1) lenb using r(2) nth by blast
qed

theorem setRange_getRange_witness:
  "getRange 0 ''k'' 3 4 (snd (setRange 0 ''k'' 3 ''xy'' (initSchema :: nat db))) = ''xy''"
proof -
  have "not_stale 0 ''k'' (initSchema :: nat db)" by (simp add: not_stale_def initSchema_def)
  then show ?thesis
    using setRange_getRange [of 3 "''xy''" 0 "''k''" "initSchema :: nat db"] by (simp add: int64_bounds)
qed

end
