(* ===== verification/Keyspace.thy ===== *)
theory Keyspace
  imports Strings
begin

text \<open>
  The key commands of \<^verbatim>\<open>queryOps\<close> (\<^verbatim>\<open>src/internal/storage/querier.go\<close>) and the
  background sweeper \<^verbatim>\<open>deleteExpiredKeys\<close> of \<^verbatim>\<open>src/internal/storage/storage.go\<close>.
  The sweeper's view of other sessions is a parameter: \<open>acquired\<close> says whether it
  got the cleanup lock, \<open>busy\<close> which keys are locked by a writer.
\<close>

section \<open>Key commands\<close>

definition del_keys :: "string list \<Rightarrow> string list" where
  "del_keys keys = sort (encodeKeys keys)"

fun del_loop :: "time \<Rightarrow> string list \<Rightarrow> int \<Rightarrow> 's db \<Rightarrow> int \<times> 's db" where
  "del_loop now [] deleted d = (deleted, d)"
| "del_loop now (key # keys) deleted d =
     (if getKeyType now key d = TypeNone then del_loop now keys deleted d
      else del_loop now keys (deleted + 1) (deleteKeyFromAllTables key d))"

definition del :: "time \<Rightarrow> string list \<Rightarrow> 's db \<Rightarrow> int \<times> 's db" where
  "del now keys d = del_loop now (del_keys keys) 0 d"

definition exists' :: "time \<Rightarrow> string list \<Rightarrow> 's db \<Rightarrow> int" where
  "exists' now keys d =
     int (length (filter (\<lambda>r. fst r \<in> set (encodeKeys keys) \<and> live now (snd (snd r))) (kv_meta d)))"

record ExpireOptions =
  NX :: bool
  XX :: bool
  GT :: bool
  LT :: bool

definition expireWhereClause :: "ExpireOptions \<Rightarrow> time \<Rightarrow> time \<Rightarrow> time option \<Rightarrow> bool" where
  "expireWhereClause opts now new e =
     (if NX opts then e = None
      else if XX opts then e \<noteq> None \<and> live now e
      else if GT opts then (case e of None \<Rightarrow> False | Some t \<Rightarrow> t > now \<and> new > t)
      else if LT opts then (case e of None \<Rightarrow> True | Some t \<Rightarrow> t > now \<and> new < t)
      else live now e)"

text \<open>
  \<^verbatim>\<open>UPDATE <data table> SET expires_at\<close> on the table \<^verbatim>\<open>dataTableForType\<close> names; the
  types it does not know have no table.
\<close>

definition updateDataExpiry :: "KeyType \<Rightarrow> string \<Rightarrow> time option \<Rightarrow> 's db \<Rightarrow> 's db" where
  "updateDataExpiry kt key e d =
     (case kt of
        TypeString \<Rightarrow> d\<lparr>kv_strings := update_rows (\<lambda>r. fst r = key) (\<lambda>(v, _). (v, e)) (kv_strings d)\<rparr>
      | TypeHash \<Rightarrow> d\<lparr>kv_hashes := update_rows (\<lambda>r. fst (fst r) = key) (\<lambda>(v, _). (v, e)) (kv_hashes d)\<rparr>
      | TypeList \<Rightarrow> d\<lparr>kv_lists := update_rows (\<lambda>r. fst (fst r) = key) (\<lambda>(v, _). (v, e)) (kv_lists d)\<rparr>
      | TypeSet \<Rightarrow> d\<lparr>kv_sets := update_rows (\<lambda>r. fst (fst r) = key) (\<lambda>_. e) (kv_sets d)\<rparr>
      | TypeZSet \<Rightarrow> d\<lparr>kv_zsets := update_rows (\<lambda>r. fst (fst r) = key) (\<lambda>(v, _). (v, e)) (kv_zsets d)\<rparr>
      | _ \<Rightarrow> d)"

definition dataTableForType :: "KeyType \<Rightarrow> string" where
  "dataTableForType kt =
     (case kt of TypeString \<Rightarrow> ''kv_strings'' | TypeHash \<Rightarrow> ''kv_hashes'' | TypeList \<Rightarrow> ''kv_lists''
      | TypeSet \<Rightarrow> ''kv_sets'' | TypeZSet \<Rightarrow> ''kv_zsets'' | _ \<Rightarrow> [])"

definition expireAt :: "time \<Rightarrow> string \<Rightarrow> time \<Rightarrow> ExpireOptions \<Rightarrow> 's db \<Rightarrow> bool \<times> 's db" where
  "expireAt now key timestamp opts d =
     (let key = encodeKey key; d = lockKey key d
      in case map_of (kv_meta d) key of
           None \<Rightarrow> (False, d)
         | Some (kt, e) \<Rightarrow>
             if expireWhereClause opts now timestamp e
             then let d = d\<lparr>kv_meta := update_rows (\<lambda>r. fst r = key)
                             (\<lambda>(kt, _). (kt, Some timestamp)) (kv_meta d)\<rparr>
                  in (True, if dataTableForType kt = [] then d
                            else updateDataExpiry kt key (Some timestamp) d)
             else (False, d))"

definition expire :: "time \<Rightarrow> string \<Rightarrow> int \<Rightarrow> ExpireOptions \<Rightarrow> 's db \<Rightarrow> bool \<times> 's db" where
  "expire now key ttl opts d =
     (let key = encodeKey key; d = lockKey key d; expiresAt = now + ttl
      in case map_of (kv_meta d) key of
           None \<Rightarrow> (False, d)
         | Some (kt, e) \<Rightarrow>
             if expireWhereClause opts now expiresAt e
             then let d = d\<lparr>kv_meta := update_rows (\<lambda>r. fst r = key)
                             (\<lambda>(kt, _). (kt, Some expiresAt)) (kv_meta d)\<rparr>
                  in (True, if dataTableForType kt = [] then d
                            else updateDataExpiry kt key (Some expiresAt) d)
             else (False, d))"

text \<open>\<^verbatim>\<open>SELECT expires_at FROM kv_meta\<close> of a live key.\<close>

definition metaExpiry :: "time \<Rightarrow> string \<Rightarrow> 's db \<Rightarrow> time option option" where
  "metaExpiry now key d =
     (case map_of (kv_meta d) key of
        Some (_, e) \<Rightarrow> if live now e then Some e else None
      | None \<Rightarrow> None)"

definition ttl' :: "time \<Rightarrow> string \<Rightarrow> 's db \<Rightarrow> int" where
  "ttl' now key d =
     (case metaExpiry now (encodeKey key) d of
        None \<Rightarrow> -2
      | Some None \<Rightarrow> -1
      | Some (Some t) \<Rightarrow> if t - now < 0 then -2 else (t - now) div 1000000000)"

definition pttl :: "time \<Rightarrow> string \<Rightarrow> 's db \<Rightarrow> int" where
  "pttl now key d =
     (case metaExpiry now (encodeKey key) d of
        None \<Rightarrow> -2
      | Some None \<Rightarrow> -1
      | Some (Some t) \<Rightarrow> if t - now < 0 then -2 else (t - now) div 1000000)"

definition persist :: "time \<Rightarrow> string \<Rightarrow> 's db \<Rightarrow> bool \<times> 's db" where
  "persist now key d =
     (let key = encodeKey key; d = lockKey key d
      in case map_of (kv_meta d) key of
           Some (_, Some t) \<Rightarrow>
             if t > now
             then (True, d\<lparr>
               kv_meta := update_rows (\<lambda>r. fst r = key) (\<lambda>(kt, _). (kt, None)) (kv_meta d),
               kv_strings := update_rows (\<lambda>r. fst r = key) (\<lambda>(v, _). (v, None)) (kv_strings d),
               kv_hashes := update_rows (\<lambda>r. fst (fst r) = key) (\<lambda>(v, _). (v, None)) (kv_hashes d),
               kv_lists := update_rows (\<lambda>r. fst (fst r) = key) (\<lambda>(v, _). (v, None)) (kv_lists d),
               kv_sets := update_rows (\<lambda>r. fst (fst r) = key) (\<lambda>_. None) (kv_sets d),
               kv_zsets := update_rows (\<lambda>r. fst (fst r) = key) (\<lambda>(v, _). (v, None)) (kv_zsets d),
               kv_hyperloglog := update_rows (\<lambda>r. fst r = key) (\<lambda>(v, _). (v, None)) (kv_hyperloglog d)\<rparr>)
             else (False, d)
         | _ \<Rightarrow> (False, d))"

definition keyType :: "time \<Rightarrow> string \<Rightarrow> 's db \<Rightarrow> KeyType" where
  "keyType now key d = getKeyType now (encodeKey key) d"

text \<open>\<^verbatim>\<open>UPDATE <table> SET key = $2 WHERE key = $1\<close>\<close>

definition renameData :: "KeyType \<Rightarrow> string \<Rightarrow> string \<Rightarrow> 's db \<Rightarrow> 's db" where
  "renameData kt old new d =
     (case kt of
        TypeString \<Rightarrow> d\<lparr>kv_strings := rekey_rows (\<lambda>k. k = old) (\<lambda>_. new) (kv_strings d)\<rparr>
      | TypeHash \<Rightarrow> d\<lparr>kv_hashes := rekey_rows (\<lambda>k. fst k = old) (\<lambda>k. (new, snd k)) (kv_hashes d)\<rparr>
      | TypeList \<Rightarrow> d\<lparr>kv_lists := rekey_rows (\<lambda>k. fst k = old) (\<lambda>k. (new, snd k)) (kv_lists d)\<rparr>
      | TypeSet \<Rightarrow> d\<lparr>kv_sets := rekey_rows (\<lambda>k. fst k = old) (\<lambda>k. (new, snd k)) (kv_sets d)\<rparr>
      | TypeZSet \<Rightarrow> d\<lparr>kv_zsets := rekey_rows (\<lambda>k. fst k = old) (\<lambda>k. (new, snd k)) (kv_zsets d)\<rparr>
      | _ \<Rightarrow> d)"

definition rename :: "time \<Rightarrow> string \<Rightarrow> string \<Rightarrow> ('s, unit) op" where
  "rename now oldKey newKey d =
     (let oldKey = encodeKey oldKey; newKey = encodeKey newKey;
          d = lockKeys [oldKey, newKey] d;
          kt = getKeyType now oldKey d
      in if kt = TypeNone then (Inl ''no such key'', d)
         else let d = deleteKeyFromAllTables newKey d
              in if dataTableForType kt = []
                 then (Inl (''unsupported key type for rename: '' @ keyTypeName kt), d)
                 else let d = d\<lparr>kv_meta := rekey_rows (\<lambda>k. k = oldKey) (\<lambda>_. newKey) (kv_meta d)\<rparr>
                      in (Inr (), renameData kt oldKey newKey d))"

definition dbSize :: "time \<Rightarrow> 's db \<Rightarrow> int" where
  "dbSize now d = int (length (filter (\<lambda>r. live now (snd (snd r))) (kv_meta d)))"

section \<open>The sweeper\<close>

definition cleanupBatch :: nat where
  "cleanupBatch = 1000"

definition expired :: "time \<Rightarrow> time option \<Rightarrow> bool" where
  "expired now e = (case e of None \<Rightarrow> False | Some t \<Rightarrow> t \<le> now)"

text \<open>A kv_meta row whose data table has no row of the key.\<close>

definition orphan :: "'s db \<Rightarrow> string \<Rightarrow> KeyType \<Rightarrow> bool" where
  "orphan d k kt =
     (case kt of
        TypeString \<Rightarrow> k \<notin> fst ` set (kv_strings d)
      | TypeList \<Rightarrow> k \<notin> (fst \<circ> fst) ` set (kv_lists d)
      | TypeHash \<Rightarrow> k \<notin> (fst \<circ> fst) ` set (kv_hashes d)
      | TypeSet \<Rightarrow> k \<notin> (fst \<circ> fst) ` set (kv_sets d)
      | TypeZSet \<Rightarrow> k \<notin> (fst \<circ> fst) ` set (kv_zsets d)
      | _ \<Rightarrow> False)"

definition sweepCandidates :: "time \<Rightarrow> 's db \<Rightarrow> string list" where
  "sweepCandidates now d = remdups (
     take cleanupBatch [k. (k, _, e) \<leftarrow> kv_meta d, expired now e] @
     take cleanupBatch [k. (k, _, e) \<leftarrow> kv_strings d, expired now e] @
     take cleanupBatch (remdups [k. ((k, _), _, e) \<leftarrow> kv_hashes d, expired now e]) @
     take cleanupBatch (remdups [k. ((k, _), _, e) \<leftarrow> kv_lists d, expired now e]) @
     take cleanupBatch (remdups [k. ((k, _), e) \<leftarrow> kv_sets d, expired now e]) @
     take cleanupBatch (remdups [k. ((k, _), _, e) \<leftarrow> kv_zsets d, expired now e]) @
     take cleanupBatch [k. (k, _, e) \<leftarrow> kv_hyperloglog d, expired now e] @
     take cleanupBatch [k. (k, kt, _) \<leftarrow> kv_meta d, orphan d k kt])"

text \<open>
  The DELETE of one data table: the keys whose kv_meta row expired, and the
  locked keys that have an expired row in this table.
\<close>

definition sweepTable ::
  "time \<Rightarrow> ('r \<Rightarrow> string) \<Rightarrow> ('r \<Rightarrow> time option) \<Rightarrow> string list \<Rightarrow> string list \<Rightarrow> 'r list \<Rightarrow> 'r list" where
  "sweepTable now keyOf expOf keys gone t =
     (let stale = keyOf ` set (filter (\<lambda>r. keyOf r \<in> set keys \<and> expired now (expOf r)) t)
      in filter (\<lambda>r. \<not> (keyOf r \<in> set gone \<or> keyOf r \<in> stale)) t)"

definition sweepData :: "time \<Rightarrow> string list \<Rightarrow> string list \<Rightarrow> 's db \<Rightarrow> 's db" where
  "sweepData now keys gone d = d\<lparr>
     kv_strings := sweepTable now fst (snd \<circ> snd) keys gone (kv_strings d),
     kv_hashes := sweepTable now (fst \<circ> fst) (snd \<circ> snd) keys gone (kv_hashes d),
     kv_lists := sweepTable now (fst \<circ> fst) (snd \<circ> snd) keys gone (kv_lists d),
     kv_sets := sweepTable now (fst \<circ> fst) snd keys gone (kv_sets d),
     kv_zsets := sweepTable now (fst \<circ> fst) (snd \<circ> snd) keys gone (kv_zsets d),
     kv_hyperloglog := sweepTable now fst (snd \<circ> snd) keys gone (kv_hyperloglog d)\<rparr>"

definition sweepKeys :: "time \<Rightarrow> string list \<Rightarrow> 's db \<Rightarrow> 's db" where
  "sweepKeys now keys d =
     (let stale = (\<lambda>r. fst r \<in> set keys \<and> expired now (snd (snd r)));
          gone = map fst (filter stale (kv_meta d));
          d = d\<lparr>kv_meta := delete_rows stale (kv_meta d)\<rparr>;
          d = sweepData now keys gone d
      in d\<lparr>kv_meta := delete_rows (\<lambda>r. fst r \<in> set keys \<and> orphan d (fst r) (fst (snd r))) (kv_meta d)\<rparr>)"

definition deleteExpiredKeys :: "bool \<Rightarrow> (string \<Rightarrow> bool) \<Rightarrow> time \<Rightarrow> 's db \<Rightarrow> 's db" where
  "deleteExpiredKeys acquired busy now d =
     (if \<not> acquired then d
      else let candidates = sweepCandidates now d;
               keys = filter (\<lambda>k. \<not> busy k) candidates
           in if candidates = [] \<or> keys = [] then d else sweepKeys now keys d)"

section \<open>Lemmas: key commands\<close>

lemma del_loop_props:
  "touches (set keys) d (snd (del_loop now keys n d))
   \<and> (wf_db d \<longrightarrow> wf_db (snd (del_loop now keys n d)))
   \<and> (\<forall>k \<in> set keys. getKeyType now k (snd (del_loop now keys n d)) = TypeNone)"
proof (induction keys arbitrary: n d)
  case (Cons key keys)
  define d1 where "d1 = (if getKeyType now key d = TypeNone then d else deleteKeyFromAllTables key d)"
  define n1 where "n1 = (if getKeyType now key d = TypeNone then n else n + 1)"
  have step: "del_loop now (key # keys) n d = del_loop now keys n1 d1"
    by (simp add: d1_def n1_def)
  have key: "getKeyType now key d1 = TypeNone"
    using rows_deleteKeys(1) [of key key d] by (auto simp: d1_def getKeyType_def rows_def)
  have "touches (insert key (set keys)) d d1"
    by (simp add: d1_def touches_deleteKeys)
  moreover have "touches (insert key (set keys)) d1 (snd (del_loop now keys n1 d1))"
    using Cons.IH by (meson subset_insertI touches_mono)
  moreover have "wf_db d \<Longrightarrow> wf_db d1" by (simp add: d1_def)
  moreover have "getKeyType now key (snd (del_loop now keys n1 d1)) = TypeNone"
  proof (cases "key \<in> set keys")
    case False
    then have "rows key (snd (del_loop now keys n1 d1)) = rows key d1"
      using Cons.IH unfolding touches_def by blast
    then show ?thesis using key getKeyType_rows by metis
  qed (use Cons.IH in blast)
  ultimately show ?case
    unfolding step using Cons.IH [of d1 n1] by (auto intro: touches_trans)
qed simp

lemma del_loop_count:
  "distinct keys \<Longrightarrow> fst (del_loop now keys n d) =
     n + int (length (filter (\<lambda>k. getKeyType now k d \<noteq> TypeNone) keys))"
proof (induction keys arbitrary: n d)
  case (Cons key keys)
  have "getKeyType now k (deleteKeyFromAllTables key d) = getKeyType now k d" if "k \<in> set keys" for k
    using that Cons.prems rows_deleteKeys(1) [of k key d] by (auto intro: getKeyType_rows)
  then have "filter (\<lambda>k. getKeyType now k (deleteKeyFromAllTables key d) \<noteq> TypeNone) keys =
      filter (\<lambda>k. getKeyType now k d \<noteq> TypeNone) keys"
    by (auto intro: filter_cong)
  with Cons show ?case by simp
qed simp

lemma touches_del [frame_simps]: "touches (encodeKey ` set keys) d (snd (del now keys d))"
  using del_loop_props [of "del_keys keys" d now 0] by (simp add: del_def del_keys_def encodeKeys_def)

lemma wf_del [simp]: "wf_db d \<Longrightarrow> wf_db (snd (del now keys d))"
  using del_loop_props [of "del_keys keys" d now 0] by (simp add: del_def)

subsection \<open>Expiry\<close>

lemma touches_updateDataExpiry: "k \<in> K \<Longrightarrow> touches K d (updateDataExpiry kt k e d)"
  by (cases kt) (auto simp: touches_def rows_def updateDataExpiry_def table_simps)

lemma wf_updateDataExpiry [simp]: "wf_db d \<Longrightarrow> wf_db (updateDataExpiry kt k e d)"
  by (cases kt) (auto simp: wf_db_def updateDataExpiry_def)

lemma updateDataExpiry_meta [simp]: "kv_meta (updateDataExpiry kt k e d) = kv_meta d"
  by (cases kt) (auto simp: updateDataExpiry_def)

lemma touches_metaExpiry:
  "k \<in> K \<Longrightarrow> touches K d (d\<lparr>kv_meta := update_rows (\<lambda>r. fst r = k) f (kv_meta d)\<rparr>)"
  by (auto simp: touches_def rows_def table_simps)

lemma wf_metaExpiry [simp]:
  "wf_db d \<Longrightarrow> wf_db (d\<lparr>kv_meta := update_rows (\<lambda>r. fst r = k) f (kv_meta d)\<rparr>)"
  by (simp add: wf_db_def)

lemma expire_expireAt: "expire now key t opts d = expireAt now key (now + t) opts d"
  by (simp add: expire_def expireAt_def Let_def)

lemma touches_expireAt [frame_simps]: "touches {encodeKey key} d (snd (expireAt now key t opts d))"
proof -
  let ?k = "encodeKey key"
  have "touches {?k} (lockKey ?k d) (updateDataExpiry kt ?k e
      (lockKey ?k d\<lparr>kv_meta := update_rows (\<lambda>r. fst r = ?k) f (kv_meta (lockKey ?k d))\<rparr>))" for kt e f
    by (rule touches_trans [OF touches_metaExpiry touches_updateDataExpiry]) simp_all
  moreover have "touches {?k} (lockKey ?k d)
      (lockKey ?k d\<lparr>kv_meta := update_rows (\<lambda>r. fst r = ?k) f (kv_meta (lockKey ?k d))\<rparr>)" for f
    by (rule touches_metaExpiry) simp
  ultimately have "touches {?k} (lockKey ?k d) (snd (expireAt now key t opts d))"
    by (simp add: expireAt_def Let_def split: option.splits prod.splits)
  then show ?thesis by (rule touches_trans [OF touches_lock(1)])
qed

lemma wf_expireAt [simp]:
  assumes "wf_db d"
  shows "wf_db (snd (expireAt now key t opts d))"
proof -
  have "wf_db (lockKey k d\<lparr>kv_meta := update_rows (\<lambda>r. fst r = k) f (kv_meta (lockKey k d))\<rparr>)" for k f
    using assms by (intro wf_metaExpiry) simp
  with assms show ?thesis
    by (auto simp: expireAt_def Let_def simp del: lock_select split: option.splits prod.splits)
qed

lemma touches_persist [frame_simps]: "touches {encodeKey key} d (snd (persist now key d))"
  by (auto simp: persist_def Let_def touches_def rows_def table_simps split: option.splits)

lemma wf_persist [simp]: "wf_db d \<Longrightarrow> wf_db (snd (persist now key d))"
  by (auto simp: persist_def Let_def wf_db_def lockKey_def split: option.splits)

lemma expireAt_meta:
  assumes "map_of (kv_meta d) (encodeKey key) = Some (kt, e)"
    and "expireWhereClause opts now t e"
  shows "fst (expireAt now key t opts d)"
    and "map_of (kv_meta (snd (expireAt now key t opts d))) (encodeKey key) = Some (kt, Some t)"
  using assms by (simp_all add: expireAt_def Let_def table_simps)

lemma expireAt_string:
  assumes "map_of (kv_meta d) (encodeKey key) = Some (TypeString, e)"
    and "expireWhereClause opts now t e"
  shows "map_of (kv_strings (snd (expireAt now key t opts d))) (encodeKey key)
    = map_option (\<lambda>(v, _). (v, Some t)) (map_of (kv_strings d) (encodeKey key))"
  using assms
  by (simp add: expireAt_def Let_def dataTableForType_def updateDataExpiry_def table_simps)

subsection \<open>Renaming\<close>

lemma map_of_rekey:
  assumes "new \<notin> fst ` set t" and "old \<noteq> new"
  shows "map_of (rekey_rows (\<lambda>k. k = old) (\<lambda>_. new) t) k =
    (if k = new then map_of t old else if k = old then None else map_of t k)"
  using assms by (induction t) (auto simp: rekey_rows_def)

lemma rows_of_rekey:
  assumes "old \<noteq> new" and "new \<notin> (fst \<circ> fst) ` set t"
  shows "rows_of k (rekey_rows (\<lambda>k. fst k = old) (\<lambda>k. (new, snd k)) t) =
    (if k = new then map (\<lambda>r. ((new, snd (fst r)), snd r)) (rows_of old t)
     else if k = old then [] else rows_of k t)"
  using assms by (induction t) (auto simp: rekey_rows_def rows_of_def)

lemma pk_rekey: "pk_distinct t \<Longrightarrow> new \<notin> fst ` set t \<Longrightarrow>
    pk_distinct (rekey_rows (\<lambda>k. k = old) (\<lambda>_. new) t)"
  by (induction t) (auto simp: rekey_rows_def image_iff split: if_splits)

lemma pk_rekey2:
  assumes "pk_distinct t" and "new \<notin> (fst \<circ> fst) ` set t"
  shows "pk_distinct (rekey_rows (\<lambda>k. fst k = old) (\<lambda>k. (new, snd k)) t)"
proof -
  have "map fst (rekey_rows (\<lambda>k. fst k = old) (\<lambda>k. (new, snd k)) t) =
      map (\<lambda>k. if fst k = old then (new, snd k) else k) (map fst t)"
    by (simp add: rekey_rows_def)
  moreover have "inj_on (\<lambda>k. if fst k = old then (new, snd k) else k) (set (map fst t))"
    using assms(2) by (auto simp: inj_on_def image_iff split: if_splits)
  ultimately show ?thesis using assms(1) by (simp add: distinct_map del: map_map)
qed

lemma purged_absent:
  "k \<notin> fst ` set (kv_meta (deleteKeyFromAllTables k d))"
  "k \<notin> fst ` set (kv_strings (deleteKeyFromAllTables k d))"
  "k \<notin> (fst \<circ> fst) ` set (kv_hashes (deleteKeyFromAllTables k d))"
  "k \<notin> (fst \<circ> fst) ` set (kv_lists (deleteKeyFromAllTables k d))"
  "k \<notin> (fst \<circ> fst) ` set (kv_sets (deleteKeyFromAllTables k d))"
  "k \<notin> (fst \<circ> fst) ` set (kv_zsets (deleteKeyFromAllTables k d))"
  by (auto simp: deleteKeyFromAllTables_def purge_def delete_rows_def)

text \<open>What the key's rows in its data table become under the new name.\<close>

definition renamed_rows :: "KeyType \<Rightarrow> string \<Rightarrow> string \<Rightarrow> 's db \<Rightarrow> 's db \<Rightarrow> bool" where
  "renamed_rows kt old new d d' =
     (case kt of
        TypeString \<Rightarrow> map_of (kv_strings d') new = map_of (kv_strings d) old
      | TypeHash \<Rightarrow> rows_of new (kv_hashes d') = map (\<lambda>r. ((new, snd (fst r)), snd r)) (rows_of old (kv_hashes d))
      | TypeList \<Rightarrow> rows_of new (kv_lists d') = map (\<lambda>r. ((new, snd (fst r)), snd r)) (rows_of old (kv_lists d))
      | TypeSet \<Rightarrow> rows_of new (kv_sets d') = map (\<lambda>r. ((new, snd (fst r)), snd r)) (rows_of old (kv_sets d))
      | TypeZSet \<Rightarrow> rows_of new (kv_zsets d') = map (\<lambda>r. ((new, snd (fst r)), snd r)) (rows_of old (kv_zsets d))
      | _ \<Rightarrow> False)"

lemma renameData_meta [simp]: "kv_meta (renameData kt old new d) = kv_meta d"
  by (cases kt) (auto simp: renameData_def)

lemma rename_unfold:
  assumes "keyType now old d = kt" "kt \<noteq> TypeNone" "kt \<noteq> TypeHLL"
  shows "rename now old new d =
    (let d1 = deleteKeyFromAllTables (encodeKey new) (lockKeys [encodeKey old, encodeKey new] d)
     in (Inr (), renameData kt (encodeKey old) (encodeKey new)
          (d1\<lparr>kv_meta := rekey_rows (\<lambda>k. k = encodeKey old) (\<lambda>_. encodeKey new) (kv_meta d1)\<rparr>)))"
proof -
  have "getKeyType now (encodeKey old) (lockKeys [encodeKey old, encodeKey new] d) = kt"
    using assms(1) by (simp add: keyType_def getKeyType_def)
  with assms(2,3) show ?thesis
    by (cases kt) (simp_all add: rename_def Let_def dataTableForType_def)
qed

lemma rename_effect:
  assumes "encodeKey old \<noteq> encodeKey new"
    and kt: "keyType now old d = kt" "kt \<noteq> TypeNone" "kt \<noteq> TypeHLL"
  defines "d' \<equiv> snd (rename now old new d)"
  shows "fst (rename now old new d) = Inr ()"
    and "map_of (kv_meta d') (encodeKey new) = map_of (kv_meta d) (encodeKey old)"
    and "map_of (kv_meta d') (encodeKey old) = None"
    and "renamed_rows kt (encodeKey old) (encodeKey new) d d'"
    and "touches {encodeKey old, encodeKey new} d d'"
proof -
  let ?o = "encodeKey old" and ?n = "encodeKey new"
  define d1 where "d1 = deleteKeyFromAllTables ?n (lockKeys [?o, ?n] d)"
  have d': "d' = renameData kt ?o ?n (d1\<lparr>kv_meta := rekey_rows (\<lambda>k. k = ?o) (\<lambda>_. ?n) (kv_meta d1)\<rparr>)"
    unfolding d'_def rename_unfold [OF kt] d1_def Let_def by simp
  show "fst (rename now old new d) = Inr ()" unfolding rename_unfold [OF kt] Let_def by simp
  have absent: "?n \<notin> fst ` set (kv_meta d1)" "?n \<notin> fst ` set (kv_strings d1)"
    "?n \<notin> (fst \<circ> fst) ` set (kv_hashes d1)" "?n \<notin> (fst \<circ> fst) ` set (kv_lists d1)"
    "?n \<notin> (fst \<circ> fst) ` set (kv_sets d1)" "?n \<notin> (fst \<circ> fst) ` set (kv_zsets d1)"
    unfolding d1_def by (rule purged_absent)+
  have old: "rows ?o d1 = rows ?o d" and other: "\<And>k. k \<noteq> ?n \<Longrightarrow> rows k d1 = rows k d"
    unfolding d1_def using assms(1) by (simp_all add: rows_deleteKeys)
  show "map_of (kv_meta d') ?n = map_of (kv_meta d) ?o" "map_of (kv_meta d') ?o = None"
    using old assms(1) by (simp_all add: d' map_of_rekey [OF absent(1) assms(1)] rows_def)
  show "renamed_rows kt ?o ?n d d'"
    using old kt(2,3) assms(1)
    by (cases kt) (simp_all add: renamed_rows_def d' renameData_def rows_def
        map_of_rekey [OF absent(2)] rows_of_rekey [OF assms(1) absent(3)]
        rows_of_rekey [OF assms(1) absent(4)] rows_of_rekey [OF assms(1) absent(5)]
        rows_of_rekey [OF assms(1) absent(6)])
  show "touches {?o, ?n} d d'"
    using other kt(2,3) assms(1)
    by (cases kt) (auto simp: touches_def d' renameData_def rows_def
        map_of_rekey [OF absent(1)] map_of_rekey [OF absent(2)] rows_of_rekey [OF assms(1) absent(3)]
        rows_of_rekey [OF assms(1) absent(4)] rows_of_rekey [OF assms(1) absent(5)]
        rows_of_rekey [OF assms(1) absent(6)])
qed

lemma wf_rename [simp]:
  assumes "wf_db d"
  shows "wf_db (snd (rename now old new d))"
proof -
  define d1 where "d1 = deleteKeyFromAllTables (encodeKey new) (lockKeys [encodeKey old, encodeKey new] d)"
  have wf: "wf_db d1" using assms by (simp add: d1_def)
  have absent: "encodeKey new \<notin> fst ` set (kv_meta d1)" "encodeKey new \<notin> fst ` set (kv_strings d1)"
    "encodeKey new \<notin> (fst \<circ> fst) ` set (kv_hashes d1)" "encodeKey new \<notin> (fst \<circ> fst) ` set (kv_lists d1)"
    "encodeKey new \<notin> (fst \<circ> fst) ` set (kv_sets d1)" "encodeKey new \<notin> (fst \<circ> fst) ` set (kv_zsets d1)"
    unfolding d1_def by (rule purged_absent)+
  have "wf_db (renameData kt (encodeKey old) (encodeKey new)
      (d1\<lparr>kv_meta := rekey_rows (\<lambda>k. k = encodeKey old) (\<lambda>_. encodeKey new) (kv_meta d1)\<rparr>))" for kt
    using wf absent by (cases kt) (simp_all add: renameData_def wf_db_def pk_rekey pk_rekey2)
  then show ?thesis
    using assms wf by (simp add: rename_def Let_def flip: d1_def)
qed

lemma rekey_same [simp]:
  "rekey_rows (\<lambda>k. k = old) (\<lambda>_. old) t = t"
  "rekey_rows (\<lambda>k. fst k = old) (\<lambda>k. (old, snd k)) t' = t'"
  by (induction t, auto simp: rekey_rows_def) (induction t', auto simp: rekey_rows_def)

lemma renameData_same [simp]: "renameData kt k k d = d"
  by (cases kt) (simp_all add: renameData_def)

lemma rename_same:
  assumes "encodeKey old = encodeKey new" "keyType now old d \<noteq> TypeNone"
  shows "snd (rename now old new d) = deleteKeyFromAllTables (encodeKey new) (lockKeys [encodeKey old, encodeKey new] d)"
proof -
  have "getKeyType now (encodeKey old) (lockKeys [encodeKey old, encodeKey new] d) \<noteq> TypeNone"
    using assms(2) by (simp add: keyType_def getKeyType_def)
  then show ?thesis by (simp add: rename_def Let_def assms(1))
qed

lemma touches_rename [frame_simps]: "touches {encodeKey old, encodeKey new} d (snd (rename now old new d))"
proof -
  have none: "keyType now old d = TypeNone \<Longrightarrow> ?thesis"
    by (simp add: rename_def Let_def keyType_def getKeyType_def)
  have del: "touches {encodeKey old, encodeKey new} d
      (deleteKeyFromAllTables (encodeKey new) (lockKeys [encodeKey old, encodeKey new] d))"
    by (rule touches_trans [OF touches_lock(2) touches_deleteKeys(1)]) simp
  have hll: "keyType now old d = TypeHLL \<Longrightarrow> ?thesis"
    using del by (simp add: rename_def Let_def keyType_def getKeyType_def dataTableForType_def)
  show ?thesis
  proof (cases "encodeKey old = encodeKey new")
    case True
    then show ?thesis using none del rename_same [OF True] by fastforce
  next
    case False
    then show ?thesis using none hll rename_effect(5) [OF False refl] by blast
  qed
qed

section \<open>Lemmas: the sweeper\<close>

text \<open>\<open>fresh\<close>: no row of the key has expired and its kv_meta row, if any, has data.\<close>

definition fresh :: "time \<Rightarrow> string \<Rightarrow> 's db \<Rightarrow> bool" where
  "fresh now k d =
     ((\<forall>r \<in> set (kv_meta d). fst r = k \<longrightarrow> \<not> expired now (snd (snd r)) \<and> \<not> orphan d k (fst (snd r)))
      \<and> (\<forall>r \<in> set (kv_strings d). fst r = k \<longrightarrow> \<not> expired now (snd (snd r)))
      \<and> (\<forall>r \<in> set (kv_hashes d). fst (fst r) = k \<longrightarrow> \<not> expired now (snd (snd r)))
      \<and> (\<forall>r \<in> set (kv_lists d). fst (fst r) = k \<longrightarrow> \<not> expired now (snd (snd r)))
      \<and> (\<forall>r \<in> set (kv_sets d). fst (fst r) = k \<longrightarrow> \<not> expired now (snd r))
      \<and> (\<forall>r \<in> set (kv_zsets d). fst (fst r) = k \<longrightarrow> \<not> expired now (snd (snd r)))
      \<and> (\<forall>r \<in> set (kv_hyperloglog d). fst r = k \<longrightarrow> \<not> expired now (snd (snd r))))"

lemma in_sweepTable:
  "r \<in> set (sweepTable now keyOf expOf keys gone t) \<longleftrightarrow>
     r \<in> set t \<and> keyOf r \<notin> set gone
     \<and> \<not> (keyOf r \<in> set keys \<and> (\<exists>r' \<in> set t. keyOf r' = keyOf r \<and> expired now (expOf r')))"
  by (auto simp: sweepTable_def Let_def image_iff)

lemma map_of_filter_key: "(\<And>r. r \<in> set t \<Longrightarrow> fst r = k \<Longrightarrow> P r) \<Longrightarrow> map_of (filter P t) k = map_of t k"
  by (induction t) auto

lemma map_of_sweepTable:
  assumes "k \<notin> set gone" "\<And>r. r \<in> set t \<Longrightarrow> fst r = k \<Longrightarrow> \<not> expired now (expOf r)"
  shows "map_of (sweepTable now fst expOf keys gone t) k = map_of t k"
  unfolding sweepTable_def Let_def using assms by (intro map_of_filter_key) auto

lemma rows_of_sweepTable:
  assumes "k \<notin> set gone" "\<And>r. r \<in> set t \<Longrightarrow> fst (fst r) = k \<Longrightarrow> \<not> expired now (expOf r)"
  shows "rows_of k (sweepTable now (fst \<circ> fst) expOf keys gone t) = rows_of k t"
  unfolding sweepTable_def Let_def rows_of_def filter_filter using assms
  by (intro filter_cong) auto

lemma sweepData_select [simp]:
  "kv_meta (sweepData now keys gone d) = kv_meta d"
  "kv_strings (sweepData now keys gone d) = sweepTable now fst (snd \<circ> snd) keys gone (kv_strings d)"
  "kv_hashes (sweepData now keys gone d) = sweepTable now (fst \<circ> fst) (snd \<circ> snd) keys gone (kv_hashes d)"
  "kv_lists (sweepData now keys gone d) = sweepTable now (fst \<circ> fst) (snd \<circ> snd) keys gone (kv_lists d)"
  "kv_sets (sweepData now keys gone d) = sweepTable now (fst \<circ> fst) snd keys gone (kv_sets d)"
  "kv_zsets (sweepData now keys gone d) = sweepTable now (fst \<circ> fst) (snd \<circ> snd) keys gone (kv_zsets d)"
  "kv_hyperloglog (sweepData now keys gone d) = sweepTable now fst (snd \<circ> snd) keys gone (kv_hyperloglog d)"
  by (simp_all add: sweepData_def)

lemma orphan_meta [simp]: "orphan (d\<lparr>kv_meta := m\<rparr>) k kt = orphan d k kt"
  by (cases kt) (simp_all add: orphan_def)

lemma sweepKeys_parts:
  fixes d :: "'s db"
  obtains gone and d2 :: "'s db" where
    "gone = map fst (filter (\<lambda>r. fst r \<in> set keys \<and> expired now (snd (snd r))) (kv_meta d))"
    "d2 = sweepData now keys gone d"
    "sweepKeys now keys d = d2\<lparr>kv_meta := filter (\<lambda>r. \<not> (fst r \<in> set keys \<and> expired now (snd (snd r)))
       \<and> \<not> (fst r \<in> set keys \<and> orphan d2 (fst r) (fst (snd r)))) (kv_meta d)\<rparr>"
proof -
  define gone where "gone = map fst (filter (\<lambda>r. fst r \<in> set keys \<and> expired now (snd (snd r))) (kv_meta d))"
  have "orphan (sweepData now keys gone (d\<lparr>kv_meta := m\<rparr>)) = orphan (sweepData now keys gone d)" for m
    by (auto simp: orphan_def fun_eq_iff split: KeyType.splits)
  then have "sweepKeys now keys d = (sweepData now keys gone d)
    \<lparr>kv_meta := filter (\<lambda>r. \<not> (fst r \<in> set keys \<and> expired now (snd (snd r)))
       \<and> \<not> (fst r \<in> set keys \<and> orphan (sweepData now keys gone d) (fst r) (fst (snd r)))) (kv_meta d)\<rparr>"
    by (simp add: sweepKeys_def Let_def delete_rows_def flip: gone_def) (simp add: sweepData_def)
  with gone_def that show ?thesis by blast
qed

lemma in_rows_of_key: "k \<in> (fst \<circ> fst) ` set t \<longleftrightarrow> rows_of k t \<noteq> []"
  by (auto simp: rows_of_def filter_empty_conv image_iff)

lemma in_map_of_key: "k \<in> fst ` set t \<longleftrightarrow> map_of t k \<noteq> None"
  by (simp add: map_of_eq_None_iff)

lemma orphan_rows: "rows k d' = rows k d \<Longrightarrow> orphan d' k kt = orphan d k kt"
  by (cases kt) (simp_all only: orphan_def in_rows_of_key in_map_of_key KeyType.case rows_def prod.inject)

lemma sweepKeys_fresh:
  assumes "fresh now k d"
  shows "rows k (sweepKeys now keys d) = rows k d"
proof -
  obtain gone d2 where g: "gone = map fst (filter (\<lambda>r. fst r \<in> set keys \<and> expired now (snd (snd r))) (kv_meta d))"
    and d2: "d2 = sweepData now keys gone d"
    and eq: "sweepKeys now keys d = d2\<lparr>kv_meta := filter (\<lambda>r. \<not> (fst r \<in> set keys \<and> expired now (snd (snd r)))
       \<and> \<not> (fst r \<in> set keys \<and> orphan d2 (fst r) (fst (snd r)))) (kv_meta d)\<rparr>"
    by (rule sweepKeys_parts)
  have gone: "k \<notin> set gone" using assms by (auto simp: g fresh_def)
  have tables: "map_of (kv_strings d2) k = map_of (kv_strings d) k"
    "rows_of k (kv_hashes d2) = rows_of k (kv_hashes d)" "rows_of k (kv_lists d2) = rows_of k (kv_lists d)"
    "rows_of k (kv_sets d2) = rows_of k (kv_sets d)" "rows_of k (kv_zsets d2) = rows_of k (kv_zsets d)"
    "map_of (kv_hyperloglog d2) k = map_of (kv_hyperloglog d) k"
    using assms gone unfolding d2 sweepData_select fresh_def
    by (intro map_of_sweepTable rows_of_sweepTable; force)+
  have "orphan d2 k kt = orphan d k kt" for kt
    using tables by (cases kt) (simp_all only: orphan_def in_rows_of_key in_map_of_key KeyType.case)
  then have "map_of (kv_meta (sweepKeys now keys d)) k = map_of (kv_meta d) k"
    using assms unfolding eq by simp (rule map_of_filter_key, auto simp: fresh_def)
  with tables show ?thesis by (simp add: rows_def eq)
qed

lemma sweepTable_subset: "set (sweepTable now keyOf expOf keys gone t) \<subseteq> set t"
  by (auto simp: in_sweepTable)

lemma sweepKeys_keeps_fresh:
  assumes "fresh now k d"
  shows "fresh now k (sweepKeys now keys d)"
proof -
  obtain gone d2 where d2: "d2 = sweepData now keys gone d"
    and eq: "sweepKeys now keys d = d2\<lparr>kv_meta := filter (\<lambda>r. \<not> (fst r \<in> set keys \<and> expired now (snd (snd r)))
       \<and> \<not> (fst r \<in> set keys \<and> orphan d2 (fst r) (fst (snd r)))) (kv_meta d)\<rparr>"
    by (rule sweepKeys_parts)
  have "orphan (sweepKeys now keys d) k kt = orphan d k kt" for kt
    using sweepKeys_fresh [OF assms] by (rule orphan_rows)
  with assms show ?thesis
    unfolding fresh_def by (simp add: eq d2) (meson sweepTable_subset subsetD)
qed

lemma sweepTable_clean:
  assumes "k \<in> set keys"
  shows "r1 \<in> set (sweepTable now fst (snd \<circ> snd) keys gone t1) \<Longrightarrow> fst r1 = k \<Longrightarrow> \<not> expired now (snd (snd r1))"
    and "r2 \<in> set (sweepTable now (fst \<circ> fst) (snd \<circ> snd) keys gone t2) \<Longrightarrow> fst (fst r2) = k \<Longrightarrow> \<not> expired now (snd (snd r2))"
    and "r3 \<in> set (sweepTable now (fst \<circ> fst) snd keys gone t3) \<Longrightarrow> fst (fst r3) = k \<Longrightarrow> \<not> expired now (snd r3)"
  using assms by (auto simp: in_sweepTable)

lemma sweepKeys_clean:
  assumes "k \<in> set keys"
  shows "fresh now k (sweepKeys now keys d)"
proof -
  obtain gone d2 where d2: "d2 = sweepData now keys gone d"
    and eq: "sweepKeys now keys d = d2\<lparr>kv_meta := filter (\<lambda>r. \<not> (fst r \<in> set keys \<and> expired now (snd (snd r)))
       \<and> \<not> (fst r \<in> set keys \<and> orphan d2 (fst r) (fst (snd r)))) (kv_meta d)\<rparr>"
    by (rule sweepKeys_parts)
  show ?thesis
    unfolding fresh_def eq using assms by (simp add: d2) (auto dest: sweepTable_clean [OF assms])
qed

subsection \<open>Candidates\<close>

text \<open>Without the batch limits, every key that is not fresh is a candidate.\<close>

definition within_batch :: "'s db \<Rightarrow> bool" where
  "within_batch d = (length (kv_meta d) \<le> cleanupBatch \<and> length (kv_strings d) \<le> cleanupBatch
     \<and> length (kv_hashes d) \<le> cleanupBatch \<and> length (kv_lists d) \<le> cleanupBatch
     \<and> length (kv_sets d) \<le> cleanupBatch \<and> length (kv_zsets d) \<le> cleanupBatch
     \<and> length (kv_hyperloglog d) \<le> cleanupBatch)"

lemma length_concat_if: "length (concat (map (\<lambda>x. if P x then [f x] else []) xs)) \<le> length xs"
  by (induction xs) auto

lemma take_scan:
  "length xs \<le> n \<Longrightarrow> take n (concat (map (\<lambda>x. if P x then [f x] else []) xs)) =
     concat (map (\<lambda>x. if P x then [f x] else []) xs)"
  by (intro take_all order_trans [OF length_concat_if])

lemma take_remdups_scan:
  "length xs \<le> n \<Longrightarrow> take n (remdups (concat (map (\<lambda>x. if P x then [f x] else []) xs))) =
     remdups (concat (map (\<lambda>x. if P x then [f x] else []) xs))"
  by (intro take_all order_trans [OF length_remdups_leq order_trans [OF length_concat_if]])

lemma sweepCandidates_complete:
  assumes "within_batch d"
  shows "set (sweepCandidates now d) = {k. \<not> fresh now k d}"
  using assms unfolding within_batch_def sweepCandidates_def case_prod_beta
  by (simp add: take_scan take_remdups_scan) (auto simp: fresh_def; force)

section \<open>Properties\<close>

text \<open>
  C35.  SET makes the key a string that reads back as the value written until its
  expiry (for ever without one), whatever the key held before, and no other
  key's data changes in any table.
\<close>

theorem set_get:
  "get now' k (set' now key v ttl d) =
     (if encodeKey k = encodeKey key then if live now' (expiryOf now ttl) then Some v else None
      else get now' k d)
   \<and> keyType now' key (set' now key v ttl d) =
       (if live now' (expiryOf now ttl) then TypeString else TypeNone)
   \<and> touches {encodeKey key} d (set' now key v ttl d)"
  by (simp add: get_set' keyType_def getKeyType_set' touches_set')

text \<open>
  MSET is one SET without expiry per distinct key, the last pair of a key
  winning, and keeps every other key.
\<close>

theorem mSet_get:
  "fst (mSet pairs d) = Inr () \<and>
   get now k (snd (mSet pairs d)) =
     (case map_of (rev (map (\<lambda>(k, v). (encodeKey k, v)) pairs)) (encodeKey k) of
        Some v \<Rightarrow> Some v | None \<Rightarrow> get now k d)"
  by (simp add: get_mSet encPairs_map_of) (simp add: mSet_unfold Let_def)

text \<open>
  DEL removes every listed key that exists, reports how many distinct
  (encoded) keys existed, and touches no other key.
\<close>

theorem del_correct:
  assumes "distinct (encodeKeys keys)"
  shows "fst (del now keys d) = int (length (filter (\<lambda>k. keyType now k d \<noteq> TypeNone) keys))
       \<and> (\<forall>k \<in> set keys. keyType now k (snd (del now keys d)) = TypeNone)
       \<and> touches (encodeKey ` set keys) d (snd (del now keys d))"
proof -
  have dk: "distinct (del_keys keys)" "set (del_keys keys) = encodeKey ` set keys"
    using assms by (simp_all add: del_keys_def encodeKeys_def)
  have "int (length (filter (\<lambda>k. getKeyType now k d \<noteq> TypeNone) (del_keys keys)))
      = int (length (filter (\<lambda>k. getKeyType now k d \<noteq> TypeNone) (encodeKeys keys)))"
    by (simp add: del_keys_def filter_sort)
  also have "\<dots> = int (length (filter (\<lambda>k. keyType now k d \<noteq> TypeNone) keys))"
    by (simp add: encodeKeys_def filter_map comp_def keyType_def)
  finally show ?thesis
    using del_loop_count [OF dk(1), of now 0 d] del_loop_props [of "del_keys keys" d now 0] touches_del
    by (simp add: del_def keyType_def dk(2))
qed

theorem del_correct_witness:
  "fst (del 5 [''a'', ''b''] (set' 0 ''a'' ''1'' 0 (initSchema :: nat db))) = 1"
proof -
  let ?d = "set' 0 ''a'' ''1'' 0 (initSchema :: nat db)"
  have enc: "encodeKey ''a'' = ''a''" "encodeKey ''b'' = ''b''"
    by (simp_all add: encodeKey_def in_range_def)
  then have "distinct (encodeKeys [''a'', ''b''])" by (simp add: encodeKeys_def)
  moreover have "keyType 5 ''a'' ?d = TypeString"
    by (simp add: keyType_def getKeyType_set' expiryOf_def)
  moreover have "rows ''b'' ?d = rows ''b'' initSchema"
    using touches_set' [of "''a''" "initSchema :: nat db" 0 "''1''" 0] by (simp add: touches_def enc)
  then have "keyType 5 ''b'' ?d = keyType 5 ''b'' (initSchema :: nat db)"
    unfolding keyType_def enc by (rule getKeyType_rows)
  ultimately show ?thesis
    using del_correct [of "[''a'', ''b'']" 5 ?d] by (simp add: keyType_def getKeyType_def initSchema_def enc)
qed



text \<open>
  RENAME moves the type, the expiry and every row of the key's data table to
  the new name, leaves the old name without a key, and touches nothing else.
\<close>

theorem rename_moves:
  assumes "encodeKey old \<noteq> encodeKey new" and "keyType now old d = kt"
    and "kt \<noteq> TypeNone" and "kt \<noteq> TypeHLL"
  defines "d' \<equiv> snd (rename now old new d)"
  shows "fst (rename now old new d) = Inr ()
       \<and> keyType now new d' = kt \<and> keyType now old d' = TypeNone
       \<and> metaExpiry now (encodeKey new) d' = metaExpiry now (encodeKey old) d
       \<and> renamed_rows kt (encodeKey old) (encodeKey new) d d'
       \<and> touches {encodeKey old, encodeKey new} d d'"
  using rename_effect [OF assms(1-4)] assms(2)
  by (simp add: d'_def keyType_def getKeyType_def metaExpiry_def)

theorem rename_moves_witness:
  "keyType 1 ''b'' (snd (rename 1 ''a'' ''b'' (set' 0 ''a'' ''x'' 0 (initSchema :: nat db)))) = TypeString"
proof -
  let ?d = "set' 0 ''a'' ''x'' 0 (initSchema :: nat db)"
  have "encodeKey ''a'' \<noteq> encodeKey ''b''" by (simp add: encodeKey_def in_range_def)
  moreover have "keyType 1 ''a'' ?d = TypeString"
    by (simp add: keyType_def getKeyType_set' expiryOf_def)
  ultimately show ?thesis using rename_moves [of "''a''" "''b''" 1 ?d TypeString] by simp
qed

text \<open>
  Renaming a key to itself reports success and destroys it: the target is
  deleted before the (then empty) update.
\<close>

theorem rename_to_itself_deletes:
  assumes "keyType now key d = TypeString"
  shows "fst (rename now key key d) = Inr () \<and> keyType now key (snd (rename now key key d)) = TypeNone
       \<and> get now key (snd (rename now key key d)) = None"
proof -
  have "fst (rename now key key d) = Inr ()"
    using rename_unfold [OF assms, of key] by (simp add: Let_def)
  moreover have "rows (encodeKey key) (snd (rename now key key d)) = (None, None, [], [], [], [], None)"
    using assms by (simp add: rename_same rows_deleteKeys)
  ultimately show ?thesis
    by (simp add: rows_def keyType_def getKeyType_def get_def selectString_def)
qed

theorem rename_to_itself_deletes_witness:
  "get 1 ''a'' (snd (rename 1 ''a'' ''a'' (set' 0 ''a'' ''x'' 0 (initSchema :: nat db)))) = None
   \<and> get 1 ''a'' (set' 0 ''a'' ''x'' 0 (initSchema :: nat db)) = Some ''x''"
proof -
  have "keyType 1 ''a'' (set' 0 ''a'' ''x'' 0 (initSchema :: nat db)) = TypeString"
    by (simp add: keyType_def getKeyType_set' expiryOf_def)
  from rename_to_itself_deletes [OF this] show ?thesis by (simp add: get_set' expiryOf_def)
qed

text \<open>
  C21.  The sweeper never touches a key with no expired row and with data behind
  its metadata, whatever the locks and the batch limits; and when it runs
  unhindered on tables within the batch limit, no expired row and no orphaned
  metadata of any key is left.
\<close>

theorem sweeper_exact:
  "(fresh now k d \<longrightarrow> rows k (deleteExpiredKeys acquired busy now d) = rows k d)
   \<and> (acquired \<and> \<not> busy k \<and> within_batch d \<longrightarrow> fresh now k (deleteExpiredKeys acquired busy now d))"
proof (intro conjI impI)
  show "fresh now k d \<Longrightarrow> rows k (deleteExpiredKeys acquired busy now d) = rows k d"
    by (simp add: deleteExpiredKeys_def Let_def sweepKeys_fresh)
next
  assume a: "acquired \<and> \<not> busy k \<and> within_batch d"
  let ?keys = "filter (\<lambda>k. \<not> busy k) (sweepCandidates now d)"
  show "fresh now k (deleteExpiredKeys acquired busy now d)"
  proof (cases "k \<in> set ?keys")
    case True
    then have "sweepCandidates now d \<noteq> []" "?keys \<noteq> []" by (auto simp: filter_empty_conv)
    with True a show ?thesis by (simp add: deleteExpiredKeys_def Let_def sweepKeys_clean)
  next
    case False
    then have "fresh now k d" using a sweepCandidates_complete [of d now] by auto
    then show ?thesis by (simp add: deleteExpiredKeys_def Let_def sweepKeys_keeps_fresh)
  qed
qed

theorem sweeper_exact_witness:
  "fresh 100 ''k'' (deleteExpiredKeys True (\<lambda>_. False) 100 (set' 0 ''k'' ''v'' 50 (initSchema :: nat db)))
   \<and> get 60 ''j'' (set' 0 ''j'' ''v'' 0 (initSchema :: nat db)) = Some ''v''"
proof -
  let ?d = "set' 0 ''k'' ''v'' 50 (initSchema :: nat db)"
  have "within_batch ?d"
    by (simp add: within_batch_def cleanupBatch_def set'_def Let_def deleteKeyFromAllTables_def purge_def
        delete_rows_def initSchema_def lockKey_def setMeta_def upsertString_def)
  then have "fresh 100 ''k'' (deleteExpiredKeys True (\<lambda>_. False) 100 ?d)"
    using sweeper_exact [of 100 "''k''" ?d True "\<lambda>_. False"] by simp
  then show ?thesis by (simp add: get_set' expiryOf_def)
qed

end
