(* ===== verification/Lists.thy ===== *)
theory Lists
  imports Keyspace "HOL-Library.Multiset"
begin

text \<open>
  The list commands of \<^verbatim>\<open>queryOps\<close> in \<^verbatim>\<open>src/internal/storage/querier.go\<close>.  A list is
  stored as rows (key, idx) with arbitrary distinct indices; \<open>listVals\<close> abstracts
  it to the HOL list of its values in index order, which the commands refine.
\<close>

section \<open>Rows of a list\<close>

type_synonym list_row = "(string \<times> int) \<times> (string \<times> time option)"

abbreviation row_idx :: "list_row \<Rightarrow> int" where "row_idx r \<equiv> snd (fst r)"
abbreviation row_val :: "list_row \<Rightarrow> string" where "row_val r \<equiv> fst (snd r)"
abbreviation row_exp :: "list_row \<Rightarrow> time option" where "row_exp r \<equiv> snd (snd r)"

text \<open>\<^verbatim>\<open>SELECT ... WHERE key = $1 ORDER BY idx\<close>\<close>

definition listRows :: "string \<Rightarrow> 's db \<Rightarrow> list_row list" where
  "listRows key d = sort_key row_idx (rows_of key (kv_lists d))"

definition listVals :: "string \<Rightarrow> 's db \<Rightarrow> string list" where
  "listVals key d = map row_val (listRows key d)"

definition deleteListIdx :: "string \<Rightarrow> int list \<Rightarrow> 's db \<Rightarrow> 's db" where
  "deleteListIdx key idxs d =
     d\<lparr>kv_lists := delete_rows (\<lambda>r. fst (fst r) = key \<and> row_idx r \<in> set idxs) (kv_lists d)\<rparr>"

definition errDuplicate :: string where
  "errDuplicate = ''ERROR: duplicate key value violates unique constraint (SQLSTATE 23505)''"

text \<open>A plain INSERT: refused when a primary key is already present.\<close>

definition newRows :: "string \<Rightarrow> (int \<times> string) list \<Rightarrow> list_row list" where
  "newRows key new = map (\<lambda>(i, v). ((key, i), (v, None))) new"

definition insertListRows :: "string \<Rightarrow> (int \<times> string) list \<Rightarrow> 's db \<Rightarrow> string + 's db" where
  "insertListRows key new d =
     (let rs = newRows key new
      in if distinct (map fst (kv_lists d @ rs)) then Inr (d\<lparr>kv_lists := kv_lists d @ rs\<rparr>)
         else Inl errDuplicate)"

definition minIdx :: "string \<Rightarrow> 's db \<Rightarrow> int" where
  "minIdx key d = (case listRows key d of [] \<Rightarrow> 0 | r # _ \<Rightarrow> row_idx r)"

definition maxIdx :: "string \<Rightarrow> 's db \<Rightarrow> int" where
  "maxIdx key d = (case rev (listRows key d) of [] \<Rightarrow> -1 | r # _ \<Rightarrow> row_idx r)"

abbreviation countRows :: "string \<Rightarrow> 's db \<Rightarrow> int" where
  "countRows key d \<equiv> int (length (rows_of key (kv_lists d)))"

section \<open>Operations\<close>

definition lPush :: "time \<Rightarrow> string \<Rightarrow> string list \<Rightarrow> ('s, int) op" where
  "lPush now key values d =
     (let key = encodeKey key; kt = getKeyType now key d
      in if kt \<noteq> TypeNone \<and> kt \<noteq> TypeList then (Inl errWrongType, d)
         else if values = [] then (Inr (countRows key d), d)
         else let d = lockKey key d;
                  m = minIdx key d;
                  new = map (\<lambda>(i, v). (m - (int i + 1), v)) (enumerate 0 values);
                  d = setMeta key TypeList None d
              in case insertListRows key new d of
                   Inl e \<Rightarrow> (Inl e, d)
                 | Inr d \<Rightarrow> (Inr (countRows key d), d))"

definition rPush :: "time \<Rightarrow> string \<Rightarrow> string list \<Rightarrow> ('s, int) op" where
  "rPush now key values d =
     (let key = encodeKey key; kt = getKeyType now key d
      in if kt \<noteq> TypeNone \<and> kt \<noteq> TypeList then (Inl errWrongType, d)
         else if values = [] then (Inr (countRows key d), d)
         else let d = lockKey key d;
                  m = maxIdx key d;
                  new = map (\<lambda>(i, v). (m + (int i + 1), v)) (enumerate 0 values);
                  d = setMeta key TypeList None d
              in case insertListRows key new d of
                   Inl e \<Rightarrow> (Inl e, d)
                 | Inr d \<Rightarrow> (Inr (countRows key d), d))"

definition lPop :: "string \<Rightarrow> 's db \<Rightarrow> string option \<times> 's db" where
  "lPop key d =
     (let key = encodeKey key
      in case listRows key d of
           [] \<Rightarrow> (None, d)
         | r # _ \<Rightarrow> (Some (row_val r), deleteListIdx key [row_idx r] d))"

definition rPop :: "string \<Rightarrow> 's db \<Rightarrow> string option \<times> 's db" where
  "rPop key d =
     (let key = encodeKey key
      in case rev (listRows key d) of
           [] \<Rightarrow> (None, d)
         | r # _ \<Rightarrow> (Some (row_val r), deleteListIdx key [row_idx r] d))"

text \<open>The live rows of a list in pop order; \<open>asc\<close> stands for \<^verbatim>\<open>ORDER BY idx ASC\<close>.\<close>

definition popRows :: "time \<Rightarrow> bool \<Rightarrow> string \<Rightarrow> 's db \<Rightarrow> list_row list" where
  "popRows now asc key d =
     (let rs = filter (\<lambda>r. live now (row_exp r)) (listRows key d)
      in if asc then rs else rev rs)"

definition popMulti :: "time \<Rightarrow> string list \<Rightarrow> bool \<Rightarrow> 's db \<Rightarrow> (string \<times> string) option \<times> 's db" where
  "popMulti now keys asc d =
     (if keys = [] then (None, d)
      else case find (\<lambda>k. popRows now asc k d \<noteq> []) (encodeKeys keys) of
             None \<Rightarrow> (None, d)
           | Some k \<Rightarrow>
               let r = hd (popRows now asc k d)
               in (Some (decodeKey k, row_val r), deleteListIdx k [row_idx r] d))"

definition lPopMulti :: "time \<Rightarrow> string list \<Rightarrow> 's db \<Rightarrow> (string \<times> string) option \<times> 's db" where
  "lPopMulti now keys d = popMulti now keys True d"

definition rPopMulti :: "time \<Rightarrow> string list \<Rightarrow> 's db \<Rightarrow> (string \<times> string) option \<times> 's db" where
  "rPopMulti now keys d = popMulti now keys False d"

definition popMultiN :: "time \<Rightarrow> string list \<Rightarrow> bool \<Rightarrow> int \<Rightarrow> 's db \<Rightarrow> (string \<times> string list) option \<times> 's db" where
  "popMultiN now keys asc cnt d =
     (if keys = [] \<or> cnt \<le> 0 then (None, d)
      else case find (\<lambda>k. popRows now asc k d \<noteq> []) (encodeKeys keys) of
             None \<Rightarrow> (None, d)
           | Some k \<Rightarrow>
               let target = take (nat cnt) (popRows now asc k d)
               in (Some (decodeKey k, map row_val target), deleteListIdx k (map row_idx target) d))"

definition lMPop :: "time \<Rightarrow> string list \<Rightarrow> int \<Rightarrow> 's db \<Rightarrow> (string \<times> string list) option \<times> 's db" where
  "lMPop now keys cnt d = popMultiN now keys True cnt d"

definition rMPop :: "time \<Rightarrow> string list \<Rightarrow> int \<Rightarrow> 's db \<Rightarrow> (string \<times> string list) option \<times> 's db" where
  "rMPop now keys cnt d = popMultiN now keys False cnt d"

definition lLen :: "time \<Rightarrow> string \<Rightarrow> 's db \<Rightarrow> string + int" where
  "lLen now key d =
     (let key = encodeKey key
      in case readTypeCheck now key TypeList d of
           Some e \<Rightarrow> Inl e
         | None \<Rightarrow> Inr (int (length (filter (\<lambda>r. live now (row_exp r)) (rows_of key (kv_lists d))))))"

definition lRange :: "time \<Rightarrow> string \<Rightarrow> int \<Rightarrow> int \<Rightarrow> 's db \<Rightarrow> string + string list" where
  "lRange now key start stop d =
     (let key = encodeKey key
      in case readTypeCheck now key TypeList d of
           Some e \<Rightarrow> Inl e
         | None \<Rightarrow>
             let total = countRows key d;
                 start = (if start < 0 then total + start else start);
                 stop = (if stop < 0 then total + stop else stop);
                 start = (if start < 0 then 0 else start);
                 stop = (if stop \<ge> total then total - 1 else stop)
             in if start > stop then Inr []
                else Inr (map row_val (take (nat (stop - start + 1)) (drop (nat start) (listRows key d)))))"

definition lIndex :: "time \<Rightarrow> string \<Rightarrow> int \<Rightarrow> 's db \<Rightarrow> string option" where
  "lIndex now key index d =
     (let rs = filter (\<lambda>r. live now (row_exp r)) (listRows (encodeKey key) d);
          total = int (length rs)
      in if index \<ge> 0
         then (case drop (nat index) rs of [] \<Rightarrow> None | r # _ \<Rightarrow> Some (row_val r))
         else if total + index \<ge> 0
         then (case drop (nat (max (total + index) 0)) rs of [] \<Rightarrow> None | r # _ \<Rightarrow> Some (row_val r))
         else None)"

definition lRem :: "string \<Rightarrow> int \<Rightarrow> string \<Rightarrow> ('s, int) op" where
  "lRem key cnt element d =
     (let key = encodeKey key;
          matching = filter (\<lambda>r. row_val r = element) (listRows key d)
      in if cnt = 0
         then (Inr (int (length matching)), deleteListIdx key (map row_idx matching) d)
         else let absCount = (if cnt < 0 then wrap64 (- cnt) else cnt);
                  target = take (nat absCount) (if cnt > 0 then matching else rev matching)
              in if absCount < 0 then (Inl ''ERROR: LIMIT must not be negative (SQLSTATE 2201W)'', d)
                 else (Inr (int (length target)), deleteListIdx key (map row_idx target) d))"

definition insertMetaIfAbsent :: "string \<Rightarrow> KeyType \<Rightarrow> 's db \<Rightarrow> 's db" where
  "insertMetaIfAbsent key kt d =
     (if key \<in> fst ` set (kv_meta d) then d else d\<lparr>kv_meta := kv_meta d @ [(key, (kt, None))]\<rparr>)"

definition rPopLPush :: "string \<Rightarrow> string \<Rightarrow> ('s, string option) op" where
  "rPopLPush source destination d =
     (let source = encodeKey source; destination = encodeKey destination;
          d = lockKeys [source, destination] d
      in case rev (listRows source d) of
           [] \<Rightarrow> (Inr None, d)
         | r # _ \<Rightarrow>
             let d = deleteListIdx source [row_idx r] d;
                 d = insertMetaIfAbsent destination TypeList d
             in case insertListRows destination [(minIdx destination d - 1, row_val r)] d of
                  Inl e \<Rightarrow> (Inl e, d)
                | Inr d \<Rightarrow> (Inr (Some (row_val r)), d))"

definition lTrim :: "string \<Rightarrow> int \<Rightarrow> int \<Rightarrow> 's db \<Rightarrow> 's db" where
  "lTrim key start stop d =
     (let key = encodeKey key; d = lockKey key d; len = countRows key d
      in if len = 0 then d
         else let start = (if start < 0 then len + start else start);
                  stop = (if stop < 0 then len + stop else stop);
                  start = (if start < 0 then 0 else start);
                  stop = (if stop \<ge> len then len - 1 else stop)
              in if start > stop
                 then d\<lparr>kv_meta := delete_rows (\<lambda>r. fst r = key) (kv_meta d),
                        kv_lists := delete_rows (\<lambda>r. fst (fst r) = key) (kv_lists d)\<rparr>
                 else deleteListIdx key
                   (map (row_idx \<circ> snd) (filter (\<lambda>(pos, r). int pos < start \<or> int pos > stop)
                      (enumerate 0 (listRows key d)))) d)"

fun lPos_loop :: "string \<Rightarrow> int \<Rightarrow> int \<Rightarrow> int \<Rightarrow> (nat \<times> string) list \<Rightarrow> int \<Rightarrow> int \<Rightarrow> int list \<Rightarrow> int list" where
  "lPos_loop element rank cnt maxlen [] skipped scanned positions = positions"
| "lPos_loop element rank cnt maxlen ((pos, v) # rs) skipped scanned positions =
     (let scanned = scanned + 1
      in if maxlen > 0 \<and> scanned > maxlen then positions
         else if v = element
         then if rank > 0 \<and> skipped < rank - 1
              then lPos_loop element rank cnt maxlen rs (skipped + 1) scanned positions
              else let positions = positions @ [int pos]
                   in if cnt > 0 \<and> int (length positions) \<ge> cnt then positions
                      else lPos_loop element rank cnt maxlen rs skipped scanned positions
         else lPos_loop element rank cnt maxlen rs skipped scanned positions)"

definition lPos :: "string \<Rightarrow> string \<Rightarrow> int \<Rightarrow> int \<Rightarrow> int \<Rightarrow> 's db \<Rightarrow> int list" where
  "lPos key element rank cnt maxlen d =
     lPos_loop element rank cnt maxlen (enumerate 0 (listVals (encodeKey key) d)) 0 0 []"

definition updateListVal :: "string \<Rightarrow> int \<Rightarrow> string \<Rightarrow> 's db \<Rightarrow> 's db" where
  "updateListVal key idx v d =
     d\<lparr>kv_lists := update_rows (\<lambda>r. fst r = (key, idx)) (\<lambda>(_, e). (v, e)) (kv_lists d)\<rparr>"

definition lSet :: "string \<Rightarrow> int \<Rightarrow> string \<Rightarrow> ('s, unit) op" where
  "lSet key index element d =
     (let key = encodeKey key; total = countRows key d
      in if total = 0 then (Inl ''ERR no such key'', d)
         else let index = (if index < 0 then total + index else index)
              in if index < 0 \<or> index \<ge> total then (Inl ''ERR index out of range'', d)
                 else let idx = row_idx (listRows key d ! nat index)
                      in (Inr (), updateListVal key idx element d))"

text \<open>
  \<^verbatim>\<open>UPDATE kv_lists SET idx = idx + 1\<close>: PostgreSQL checks the (not deferrable)
  primary key after each updated row, in scan order.
\<close>

fun shiftRows :: "(string \<times> int) list \<Rightarrow> list_row list \<Rightarrow> list_row list option" where
  "shiftRows [] t = Some t"
| "shiftRows (pk # pks) t =
     (let pk' = (fst pk, snd pk + 1)
      in if pk' \<in> fst ` set t then None
         else shiftRows pks (rekey_rows (\<lambda>k. k = pk) (\<lambda>_. pk') t))"

definition lInsert :: "string \<Rightarrow> string \<Rightarrow> string \<Rightarrow> bool \<Rightarrow> ('s, int) op" where
  "lInsert key pivot element before d =
     (let key = encodeKey key
      in case filter (\<lambda>r. row_val r = pivot) (listRows key d) of
           [] \<Rightarrow> (Inr (-1), d)
         | p # _ \<Rightarrow>
             let pivotIdx = row_idx p;
                 d = lockKey key d;
                 moved = map fst (filter (\<lambda>r. fst (fst r) = key
                   \<and> (if before then row_idx r \<ge> pivotIdx else row_idx r > pivotIdx)) (kv_lists d))
             in case shiftRows moved (kv_lists d) of
                  None \<Rightarrow> (Inl errDuplicate, d)
                | Some t \<Rightarrow>
                    let d = d\<lparr>kv_lists := t\<rparr>
                    in case insertListRows key [(if before then pivotIdx else pivotIdx + 1, element)] d of
                         Inl e \<Rightarrow> (Inl e, d)
                       | Inr d \<Rightarrow> (Inr (countRows key d), d))"

section \<open>Lemmas: sorting rows\<close>

lemma filter_eq_single: "distinct zs \<Longrightarrow> k \<in> set zs \<Longrightarrow> filter (\<lambda>x. x = k) zs = [k]"
  by (induction zs) (auto simp: filter_empty_conv)

lemma sort_key_unique:
  assumes "mset ys = mset xs" "distinct (map f xs)" "sorted (map f ys)"
  shows "sort_key f xs = ys"
proof (rule properties_for_sort_key [OF assms(1) _ assms(3)])
  fix k assume "k \<in> set ys"
  have inj: "inj_on f (set xs)" and dx: "distinct xs" using assms(2) by (simp_all add: distinct_map)
  have dy: "distinct ys" and sets: "set ys = set xs"
    using assms(1) dx by (metis mset_eq_imp_distinct_iff, metis mset_eq_setD)
  have one: "filter (\<lambda>x. f k = f x) zs = [k]" if "distinct zs" "set zs = set xs" for zs
  proof -
    have "filter (\<lambda>x. f k = f x) zs = filter (\<lambda>x. x = k) zs"
      using inj that \<open>k \<in> set ys\<close> sets by (intro filter_cong) (auto dest: inj_onD)
    also have "\<dots> = [k]"
      using that \<open>k \<in> set ys\<close> sets by (simp add: filter_eq_single)
    finally show ?thesis .
  qed
  show "filter (\<lambda>x. f k = f x) ys = filter (\<lambda>x. f k = f x) xs"
    using one [OF dy sets] one [OF dx refl] by simp
qed

lemma filter_notin_key:
  assumes "distinct (map f xs)" "set S \<subseteq> set xs"
  shows "filter (\<lambda>x. f x \<notin> set (map f S)) xs = filter (\<lambda>x. x \<notin> set S) xs"
  using assms by (intro filter_cong) (auto simp: distinct_map inj_on_def subset_iff)

lemma filter_drop_take: "distinct xs \<Longrightarrow> filter (\<lambda>x. x \<notin> set (take n xs)) xs = drop n xs"
proof -
  assume "distinct xs"
  then have disj: "set (take n xs) \<inter> set (drop n xs) = {}"
    by (simp add: set_take_disj_set_drop_if_distinct)
  then have "filter (\<lambda>x. x \<notin> set (take n xs)) (take n xs) = []"
    "filter (\<lambda>x. x \<notin> set (take n xs)) (drop n xs) = drop n xs"
    by (auto simp: filter_empty_conv filter_id_conv)
  then show ?thesis by (metis append_Nil append_take_drop_id filter_append)
qed

lemma filter_take_rev:
  "distinct xs \<Longrightarrow> filter (\<lambda>x. x \<notin> set (take n (rev xs))) xs = take (length xs - n) xs"
  using filter_drop_take [of "rev xs" n] by (simp add: rev_filter [symmetric] drop_rev)

section \<open>Lemmas: the rows of one list\<close>

definition list_ok :: "string \<Rightarrow> 's db \<Rightarrow> bool" where
  "list_ok key d = distinct (map row_idx (rows_of key (kv_lists d)))"

lemma wf_list_ok [simp]: "wf_db d \<Longrightarrow> list_ok key d"
proof -
  assume "wf_db d"
  then have "distinct (map fst (kv_lists d))" by (simp add: wf_db_def)
  then have "distinct (map fst (rows_of key (kv_lists d)))"
    by (simp add: rows_of_def distinct_map_filter)
  then show ?thesis
    by (auto simp: list_ok_def distinct_map inj_on_def rows_of_def prod_eq_iff)
qed

lemma listRows_props:
  assumes "list_ok key d"
  shows "mset (listRows key d) = mset (rows_of key (kv_lists d))"
    and "distinct (map row_idx (listRows key d))" and "distinct (listRows key d)"
    and "sorted (map row_idx (listRows key d))"
    and "length (listRows key d) = length (rows_of key (kv_lists d))"
proof -
  show m: "mset (listRows key d) = mset (rows_of key (kv_lists d))" by (simp add: listRows_def)
  then have "mset (map row_idx (listRows key d)) = mset (map row_idx (rows_of key (kv_lists d)))"
    by simp
  then show d: "distinct (map row_idx (listRows key d))"
    using assms by (metis list_ok_def mset_eq_imp_distinct_iff)
  then show "distinct (listRows key d)" by (simp add: distinct_map)
qed (simp_all add: listRows_def)

lemma set_listRows: "set (listRows key d) = set (rows_of key (kv_lists d))"
  by (simp add: listRows_def)

lemma length_listVals: "int (length (listVals key d)) = countRows key d"
  by (simp add: listVals_def listRows_def)

lemma listRows_lock [simp]: "listRows key (lockKey k d) = listRows key d" "listRows key (lockKeys ks d) = listRows key d"
  "listRows key (setMeta k kt e d) = listRows key d" "listRows key (insertMetaIfAbsent k kt d) = listRows key d"
  by (simp_all add: listRows_def insertMetaIfAbsent_def)

lemma kv_lists_insertMeta [simp]: "kv_lists (insertMetaIfAbsent k kt d) = kv_lists d"
  by (simp add: insertMetaIfAbsent_def)

lemma listRows_delete:
  "listRows key (deleteListIdx key idxs d) = filter (\<lambda>r. row_idx r \<notin> set idxs) (listRows key d)"
proof -
  have "rows_of key (kv_lists (deleteListIdx key idxs d)) =
      filter (\<lambda>r. row_idx r \<notin> set idxs) (rows_of key (kv_lists d))"
    by (auto simp: deleteListIdx_def delete_rows_def rows_of_def intro: filter_cong)
  then show ?thesis by (simp add: listRows_def filter_sort)
qed

lemma listRows_delete_sub:
  assumes "list_ok key d" "set S \<subseteq> set (listRows key d)"
  shows "listRows key (deleteListIdx key (map row_idx S) d) = filter (\<lambda>r. r \<notin> set S) (listRows key d)"
  unfolding listRows_delete using filter_notin_key [OF listRows_props(2) [OF assms(1)] assms(2)] .

lemma rows_of_newRows [simp]: "rows_of k (newRows key new) = (if k = key then newRows key new else [])"
  by (auto simp: rows_of_def newRows_def filter_id_conv filter_empty_conv)

lemma rows_of_append: "rows_of k (t @ t') = rows_of k t @ rows_of k t'"
  by (simp add: rows_of_def)

lemma insertListRows_Inr:
  assumes "wf_db d" "distinct (map fst new)" "\<And>r. r \<in> set (listRows key d) \<Longrightarrow> row_idx r \<notin> fst ` set new"
  shows "insertListRows key new d = Inr (d\<lparr>kv_lists := kv_lists d @ newRows key new\<rparr>)"
proof -
  have "map fst (newRows key new) = map (Pair key) (map fst new)" by (auto simp: newRows_def)
  then have "distinct (map fst (newRows key new))"
    using assms(2) by (simp add: distinct_map inj_on_def)
  moreover have "fst ` set (kv_lists d) \<inter> fst ` set (newRows key new) = {}"
    using assms(3) by (force simp: newRows_def set_listRows)
  ultimately show ?thesis using assms(1) by (simp add: insertListRows_def wf_db_def)
qed

lemma wf_insertListRows: "wf_db d \<Longrightarrow> insertListRows key new d = Inr d' \<Longrightarrow> wf_db d'"
  by (auto simp: insertListRows_def Let_def wf_db_def split: if_splits)

lemma touches_insertListRows: "insertListRows key new d = Inr d' \<Longrightarrow> key \<in> K \<Longrightarrow> touches K d d'"
  by (auto simp: insertListRows_def Let_def touches_def rows_def rows_of_append split: if_splits)

lemma touches_deleteListIdx: "key \<in> K \<Longrightarrow> touches K d (deleteListIdx key idxs d)"
  by (auto simp: touches_def rows_def deleteListIdx_def intro!: rows_of_delete_rows)

lemma wf_deleteListIdx [simp]: "wf_db d \<Longrightarrow> wf_db (deleteListIdx key idxs d)"
  by (simp add: wf_db_def deleteListIdx_def)

text \<open>New rows below, or above, every stored index go to the head, or the tail.\<close>

lemma listRows_insert_head:
  assumes "list_ok key d" "sorted_wrt (>) (map fst new)"
    "\<And>r i. r \<in> set (listRows key d) \<Longrightarrow> i \<in> fst ` set new \<Longrightarrow> i < row_idx r"
  shows "listRows key (d\<lparr>kv_lists := kv_lists d @ newRows key new\<rparr>) = rev (newRows key new) @ listRows key d"
proof -
  have m: "map row_idx (newRows key new) = map fst new" by (auto simp: newRows_def)
  have "sorted_wrt (<) (rev (map fst new))" using assms(2) by (simp add: sorted_wrt_rev)
  then have sn: "sorted (rev (map fst new))" "distinct (map fst new)"
    by (simp_all add: strict_sorted_iff)
  have "set (map row_idx (rows_of key (kv_lists d))) \<inter> set (map fst new) = {}"
    using assms(3) by (fastforce simp: set_listRows)
  then have "distinct (map row_idx (rows_of key (kv_lists d) @ newRows key new))"
    using assms(1) sn(2) unfolding list_ok_def map_append m distinct_append by blast
  moreover have "\<forall>x \<in> set (rev (map fst new)). \<forall>y \<in> set (map row_idx (listRows key d)). x \<le> y"
    using assms(3) by (fastforce intro: less_imp_le)
  then have "sorted (map row_idx (rev (newRows key new) @ listRows key d))"
    using listRows_props(4) [OF assms(1)] sn(1) unfolding map_append rev_map [symmetric] m sorted_append
    by blast
  ultimately show ?thesis
    unfolding listRows_def [of key "d\<lparr>kv_lists := kv_lists d @ newRows key new\<rparr>"]
    using listRows_props(1) [OF assms(1)]
    by (intro sort_key_unique) (simp_all add: rows_of_append)
qed

lemma listRows_insert_tail:
  assumes "list_ok key d" "sorted_wrt (<) (map fst new)"
    "\<And>r i. r \<in> set (listRows key d) \<Longrightarrow> i \<in> fst ` set new \<Longrightarrow> row_idx r < i"
  shows "listRows key (d\<lparr>kv_lists := kv_lists d @ newRows key new\<rparr>) = listRows key d @ newRows key new"
proof -
  have m: "map row_idx (newRows key new) = map fst new" by (auto simp: newRows_def)
  have sn: "sorted (map fst new)" "distinct (map fst new)"
    using assms(2) by (simp_all add: strict_sorted_iff)
  have "set (map row_idx (rows_of key (kv_lists d))) \<inter> set (map fst new) = {}"
    using assms(3) by (fastforce simp: set_listRows)
  then have "distinct (map row_idx (rows_of key (kv_lists d) @ newRows key new))"
    using assms(1) sn(2) unfolding list_ok_def map_append m distinct_append by blast
  moreover have "\<forall>x \<in> set (map row_idx (listRows key d)). \<forall>y \<in> set (map fst new). x \<le> y"
    using assms(3) by (fastforce intro: less_imp_le)
  then have "sorted (map row_idx (listRows key d @ newRows key new))"
    using listRows_props(4) [OF assms(1)] sn(1) unfolding map_append m sorted_append by blast
  ultimately show ?thesis
    unfolding listRows_def [of key "d\<lparr>kv_lists := kv_lists d @ newRows key new\<rparr>"]
    using listRows_props(1) [OF assms(1)]
    by (intro sort_key_unique) (simp_all add: rows_of_append)
qed

lemma minIdx_le: "list_ok key d \<Longrightarrow> r \<in> set (listRows key d) \<Longrightarrow> minIdx key d \<le> row_idx r"
  using listRows_props(4) [of key d] by (auto simp: minIdx_def split: list.splits)

lemma maxIdx_ge:
  assumes "list_ok key d" "r \<in> set (listRows key d)"
  shows "row_idx r \<le> maxIdx key d"
proof (cases "listRows key d" rule: rev_cases)
  case (snoc rs x)
  with listRows_props(4) [OF assms(1)] assms(2) show ?thesis
    by (auto simp: maxIdx_def sorted_append)
qed (use assms in simp)

lemma minIdx_lock [simp]: "minIdx key (lockKey k d) = minIdx key d" "maxIdx key (lockKey k d) = maxIdx key d"
  "minIdx key (setMeta k kt e d) = minIdx key d" "maxIdx key (setMeta k kt e d) = maxIdx key d"
  by (simp_all add: minIdx_def maxIdx_def)

section \<open>Refinement of the abstract list\<close>

definition list_type :: "time \<Rightarrow> string \<Rightarrow> 's db \<Rightarrow> bool" where
  "list_type now key d =
     (getKeyType now (encodeKey key) d = TypeNone \<or> getKeyType now (encodeKey key) d = TypeList)"

lemma map_val_newRows [simp]: "map row_val (newRows key new) = map snd new"
  by (auto simp: newRows_def)

lemma enumerate_snd: "map snd (map (\<lambda>(i, v). (f i, v)) (enumerate n xs)) = xs"
  using map_snd_enumerate [of n xs] by (simp add: case_prod_beta comp_def)

lemma enumerate_fst: "map fst (map (\<lambda>(i, v). (f i, v)) (enumerate n xs)) = map f [n..<n + length xs]"
  unfolding map_fst_enumerate [of n xs, symmetric]
  by (simp add: case_prod_beta comp_def del: map_fst_enumerate)

lemma countRows_listRows: "countRows key d = int (length (listRows key d))"
  by (simp add: listRows_def)

text \<open>What the rows of a list are after a push: one insert below or above all others.\<close>

lemma push_head:
  assumes "wf_db d" "sorted_wrt (>) (map fst new)" "\<And>i. i \<in> fst ` set new \<Longrightarrow> i < minIdx key d"
  shows "insertListRows key new d = Inr (d\<lparr>kv_lists := kv_lists d @ newRows key new\<rparr>)"
    and "listRows key (d\<lparr>kv_lists := kv_lists d @ newRows key new\<rparr>) = rev (newRows key new) @ listRows key d"
proof -
  have ok: "list_ok key d" using assms(1) by simp
  have "sorted_wrt (<) (rev (map fst new))" using assms(2) by (simp add: sorted_wrt_rev)
  then have dist: "distinct (map fst new)" by (simp add: strict_sorted_iff)
  have bound: "i < row_idx r" if "r \<in> set (listRows key d)" "i \<in> fst ` set new" for r i
    using minIdx_le [OF ok that(1)] assms(3) [OF that(2)] by linarith
  then show "insertListRows key new d = Inr (d\<lparr>kv_lists := kv_lists d @ newRows key new\<rparr>)"
    by (intro insertListRows_Inr [OF assms(1) dist]) fastforce
  show "listRows key (d\<lparr>kv_lists := kv_lists d @ newRows key new\<rparr>) = rev (newRows key new) @ listRows key d"
    using bound by (intro listRows_insert_head [OF ok assms(2)])
qed

lemma push_tail:
  assumes "wf_db d" "sorted_wrt (<) (map fst new)" "\<And>i. i \<in> fst ` set new \<Longrightarrow> maxIdx key d < i"
  shows "insertListRows key new d = Inr (d\<lparr>kv_lists := kv_lists d @ newRows key new\<rparr>)"
    and "listRows key (d\<lparr>kv_lists := kv_lists d @ newRows key new\<rparr>) = listRows key d @ newRows key new"
proof -
  have ok: "list_ok key d" using assms(1) by simp
  have dist: "distinct (map fst new)" using assms(2) by (simp add: strict_sorted_iff)
  have bound: "row_idx r < i" if "r \<in> set (listRows key d)" "i \<in> fst ` set new" for r i
    using maxIdx_ge [OF ok that(1)] assms(3) [OF that(2)] by linarith
  then show "insertListRows key new d = Inr (d\<lparr>kv_lists := kv_lists d @ newRows key new\<rparr>)"
    by (intro insertListRows_Inr [OF assms(1) dist]) fastforce
  show "listRows key (d\<lparr>kv_lists := kv_lists d @ newRows key new\<rparr>) = listRows key d @ newRows key new"
    using bound by (intro listRows_insert_tail [OF ok assms(2)])
qed

lemma lPush_refines:
  assumes "wf_db d" "list_type now key d" "vs \<noteq> []"
  defines "d' \<equiv> snd (lPush now key vs d)"
  shows "fst (lPush now key vs d) = Inr (int (length vs + length (listVals (encodeKey key) d)))"
    and "listVals (encodeKey key) d' = rev vs @ listVals (encodeKey key) d"
    and "wf_db d'" and "list_type now' key d'"
    and "map_of (kv_meta d') (encodeKey key) = Some (TypeList, None)"
proof -
  let ?k = "encodeKey key"
  define f where "f = (\<lambda>i :: nat. minIdx ?k d - (int i + 1))"
  define new where "new = map (\<lambda>(i, v). (f i, v)) (enumerate 0 vs)"
  define d0 where "d0 = setMeta ?k TypeList None (lockKey ?k d)"
  define d1 where "d1 = d0\<lparr>kv_lists := kv_lists d0 @ newRows ?k new\<rparr>"
  have wf: "wf_db d0" and rows: "listRows ?k d0 = listRows ?k d" and m: "minIdx ?k d0 = minIdx ?k d"
    using assms(1) by (simp_all add: d0_def)
  have fst_new: "map fst new = map f [0..<length vs]" by (simp add: new_def enumerate_fst del: map_map)
  have snd_new: "map snd new = vs" by (simp add: new_def enumerate_snd del: map_map)
  have srt: "sorted_wrt (>) (map fst new)"
    unfolding fst_new by (simp add: sorted_wrt_iff_nth_less f_def)
  have "fst ` set new = f ` {0..<length vs}" using arg_cong [OF fst_new, of set] by simp
  then have lt: "i < minIdx ?k d0" if "i \<in> fst ` set new" for i
    using that unfolding m by (auto simp: f_def)
  note p = push_head [OF wf srt lt, folded d1_def]
  have eq: "lPush now key vs d = (Inr (countRows ?k d1), d1)"
    using assms(2,3) p(1) by (auto simp: lPush_def Let_def list_type_def new_def f_def d0_def)
  show "wf_db d'" using wf_insertListRows [OF wf p(1)] by (simp add: d'_def eq)
  show meta: "map_of (kv_meta d') ?k = Some (TypeList, None)" by (simp add: d'_def eq d1_def d0_def table_simps)
  then show "list_type now' key d'" by (simp add: list_type_def getKeyType_def)
  show "listVals ?k d' = rev vs @ listVals ?k d"
    using snd_new by (simp add: d'_def eq listVals_def p(2) rows rev_map [symmetric])
  then show "fst (lPush now key vs d) = Inr (int (length vs + length (listVals ?k d)))"
    using length_listVals [of ?k d1] by (simp add: eq d'_def)
qed

lemma rPush_refines:
  assumes "wf_db d" "list_type now key d" "vs \<noteq> []"
  defines "d' \<equiv> snd (rPush now key vs d)"
  shows "fst (rPush now key vs d) = Inr (int (length vs + length (listVals (encodeKey key) d)))"
    and "listVals (encodeKey key) d' = listVals (encodeKey key) d @ vs"
    and "wf_db d'" and "list_type now' key d'"
    and "map_of (kv_meta d') (encodeKey key) = Some (TypeList, None)"
proof -
  let ?k = "encodeKey key"
  define f where "f = (\<lambda>i :: nat. maxIdx ?k d + (int i + 1))"
  define new where "new = map (\<lambda>(i, v). (f i, v)) (enumerate 0 vs)"
  define d0 where "d0 = setMeta ?k TypeList None (lockKey ?k d)"
  define d1 where "d1 = d0\<lparr>kv_lists := kv_lists d0 @ newRows ?k new\<rparr>"
  have wf: "wf_db d0" and rows: "listRows ?k d0 = listRows ?k d" and m: "maxIdx ?k d0 = maxIdx ?k d"
    using assms(1) by (simp_all add: d0_def)
  have fst_new: "map fst new = map f [0..<length vs]" by (simp add: new_def enumerate_fst del: map_map)
  have snd_new: "map snd new = vs" by (simp add: new_def enumerate_snd del: map_map)
  have srt: "sorted_wrt (<) (map fst new)"
    unfolding fst_new by (simp add: sorted_wrt_iff_nth_less f_def)
  have "fst ` set new = f ` {0..<length vs}" using arg_cong [OF fst_new, of set] by simp
  then have lt: "maxIdx ?k d0 < i" if "i \<in> fst ` set new" for i
    using that unfolding m by (auto simp: f_def)
  note p = push_tail [OF wf srt lt, folded d1_def]
  have eq: "rPush now key vs d = (Inr (countRows ?k d1), d1)"
    using assms(2,3) p(1) by (auto simp: rPush_def Let_def list_type_def new_def f_def d0_def)
  show "wf_db d'" using wf_insertListRows [OF wf p(1)] by (simp add: d'_def eq)
  show meta: "map_of (kv_meta d') ?k = Some (TypeList, None)" by (simp add: d'_def eq d1_def d0_def table_simps)
  then show "list_type now' key d'" by (simp add: list_type_def getKeyType_def)
  show "listVals ?k d' = listVals ?k d @ vs"
    using snd_new by (simp add: d'_def eq listVals_def p(2) rows)
  then show "fst (rPush now key vs d) = Inr (int (length vs + length (listVals ?k d)))"
    using length_listVals [of ?k d1] by (simp add: eq d'_def)
qed

lemma list_type_delete [simp]: "list_type now key (deleteListIdx k idxs d) = list_type now key d"
  by (simp add: list_type_def getKeyType_def deleteListIdx_def)

lemma lPop_refines:
  assumes "wf_db d"
  shows "lPop key d = (case listVals (encodeKey key) d of [] \<Rightarrow> (None, d) | v # _ \<Rightarrow> (Some v, snd (lPop key d)))"
    and "listVals (encodeKey key) (snd (lPop key d)) = tl (listVals (encodeKey key) d)"
    and "wf_db (snd (lPop key d))" and "list_type now key (snd (lPop key d)) = list_type now key d"
proof -
  let ?k = "encodeKey key"
  have ok: "list_ok ?k d" using assms by simp
  have "listVals ?k (deleteListIdx ?k [row_idx r] d) = map row_val rs" if "listRows ?k d = r # rs" for r rs
    using listRows_delete_sub [OF ok, of "[r]"] filter_drop_take [OF listRows_props(3) [OF ok], of 1] that
    by (simp add: listVals_def)
  then show "listVals ?k (snd (lPop key d)) = tl (listVals ?k d)"
    by (auto simp: lPop_def Let_def listVals_def split: list.splits)
  show "lPop key d = (case listVals ?k d of [] \<Rightarrow> (None, d) | v # _ \<Rightarrow> (Some v, snd (lPop key d)))"
    by (auto simp: lPop_def Let_def listVals_def split: list.splits)
  show "wf_db (snd (lPop key d))" "list_type now key (snd (lPop key d)) = list_type now key d"
    using assms by (auto simp: lPop_def Let_def split: list.splits)
qed

lemma rPop_refines:
  assumes "wf_db d"
  shows "rPop key d = (case rev (listVals (encodeKey key) d) of [] \<Rightarrow> (None, d) | v # _ \<Rightarrow> (Some v, snd (rPop key d)))"
    and "listVals (encodeKey key) (snd (rPop key d)) = butlast (listVals (encodeKey key) d)"
    and "wf_db (snd (rPop key d))" and "list_type now key (snd (rPop key d)) = list_type now key d"
proof -
  let ?k = "encodeKey key"
  have ok: "list_ok ?k d" using assms by simp
  have "listVals ?k (deleteListIdx ?k [row_idx r] d) = map row_val (butlast (listRows ?k d))"
    if "rev (listRows ?k d) = r # rs" for r rs
  proof -
    have "r \<in> set (listRows ?k d)" using that by (metis list.set_intros(1) set_rev)
    then show ?thesis
      using listRows_delete_sub [OF ok, of "[r]"] filter_take_rev [OF listRows_props(3) [OF ok], of 1] that
      by (simp add: listVals_def butlast_conv_take)
  qed
  then show "listVals ?k (snd (rPop key d)) = butlast (listVals ?k d)"
    by (auto simp: rPop_def Let_def listVals_def map_butlast split: list.splits)
  show "rPop key d = (case rev (listVals ?k d) of [] \<Rightarrow> (None, d) | v # _ \<Rightarrow> (Some v, snd (rPop key d)))"
    by (auto simp: rPop_def Let_def listVals_def simp flip: rev_map split: list.splits)
  show "wf_db (snd (rPop key d))" "list_type now key (snd (rPop key d)) = list_type now key d"
    using assms by (auto simp: rPop_def Let_def split: list.splits)
qed

section \<open>The deque contract\<close>

text \<open>
  What a client of a Redis list relies on, stated over any implementation; the
  first-in first-out and last-in first-out lemmas are proved once here.
\<close>

fun popN :: "('d \<Rightarrow> 'v option \<times> 'd) \<Rightarrow> nat \<Rightarrow> 'd \<Rightarrow> 'v list" where
  "popN pop 0 d = []"
| "popN pop (Suc n) d = (case pop d of (None, _) \<Rightarrow> [] | (Some v, d') \<Rightarrow> v # popN pop n d')"

locale deque =
  fixes inv :: "'d \<Rightarrow> bool" and vals :: "'d \<Rightarrow> 'v list"
    and push_left push_right :: "'v list \<Rightarrow> 'd \<Rightarrow> 'd" and pop_left pop_right :: "'d \<Rightarrow> 'v option \<times> 'd"
  assumes push_left: "inv d \<Longrightarrow> vs \<noteq> [] \<Longrightarrow> inv (push_left vs d) \<and> vals (push_left vs d) = rev vs @ vals d"
    and push_right: "inv d \<Longrightarrow> vs \<noteq> [] \<Longrightarrow> inv (push_right vs d) \<and> vals (push_right vs d) = vals d @ vs"
    and pop_left: "inv d \<Longrightarrow> inv (snd (pop_left d)) \<and> vals (snd (pop_left d)) = tl (vals d)
        \<and> fst (pop_left d) = (if vals d = [] then None else Some (hd (vals d)))"
    and pop_right: "inv d \<Longrightarrow> inv (snd (pop_right d)) \<and> vals (snd (pop_right d)) = butlast (vals d)
        \<and> fst (pop_right d) = (if vals d = [] then None else Some (last (vals d)))"
begin

lemma popN_left: "inv d \<Longrightarrow> popN pop_left n d = take n (vals d)"
proof (induction n arbitrary: d)
  case (Suc n)
  obtain o' d' where p: "pop_left d = (o', d')" by fastforce
  show ?case
    using pop_left [OF Suc.prems] Suc.IH [of d'] p by (cases "vals d") auto
qed simp

lemma popN_right: "inv d \<Longrightarrow> popN pop_right n d = take n (rev (vals d))"
proof (induction n arbitrary: d)
  case (Suc n)
  obtain o' d' where p: "pop_right d = (o', d')" by fastforce
  show ?case
    using pop_right [OF Suc.prems] Suc.IH [of d'] p by (cases "vals d" rule: rev_cases) auto
qed simp

lemma fifo_right_left:
  assumes "inv d" "xs \<noteq> []" "ys \<noteq> []"
  shows "popN pop_left (length (vals d) + length xs + length ys) (push_right ys (push_right xs d)) = vals d @ xs @ ys"
  using assms push_right popN_left by simp

lemma fifo_left_right:
  assumes "inv d" "vs \<noteq> []"
  shows "popN pop_right (length (vals d) + length vs) (push_left vs d) = rev (vals d) @ vs"
  using assms push_left popN_right by simp

lemma lifo_left:
  assumes "inv d" "vs \<noteq> []"
  shows "popN pop_left (length vs) (push_left vs d) = rev vs"
  using assms push_left popN_left by simp

end

definition list_inv :: "time \<Rightarrow> string \<Rightarrow> 's db \<Rightarrow> bool" where
  "list_inv now key d = (wf_db d \<and> list_type now key d)"

interpretation lq: deque "list_inv now key" "listVals (encodeKey key)" "\<lambda>vs d. snd (lPush now key vs d)"
  "\<lambda>vs d. snd (rPush now key vs d)" "lPop key" "rPop key" for now key
proof
  fix d :: "'a db" and vs :: "string list"
  assume "list_inv now key d" and ne: "vs \<noteq> []"
  then have i: "wf_db d" "list_type now key d" by (simp_all add: list_inv_def)
  show "list_inv now key (snd (lPush now key vs d))
      \<and> listVals (encodeKey key) (snd (lPush now key vs d)) = rev vs @ listVals (encodeKey key) d"
    using lPush_refines [OF i ne] by (simp add: list_inv_def)
  show "list_inv now key (snd (rPush now key vs d))
      \<and> listVals (encodeKey key) (snd (rPush now key vs d)) = listVals (encodeKey key) d @ vs"
    using rPush_refines [OF i ne] by (simp add: list_inv_def)
next
  fix d :: "'a db"
  assume "list_inv now key d"
  then have i: "wf_db d" "list_type now key d" by (simp_all add: list_inv_def)
  show "list_inv now key (snd (lPop key d)) \<and> listVals (encodeKey key) (snd (lPop key d)) = tl (listVals (encodeKey key) d)
      \<and> fst (lPop key d) = (if listVals (encodeKey key) d = [] then None else Some (hd (listVals (encodeKey key) d)))"
    using lPop_refines(2,3) [OF i(1), of key] lPop_refines(4) [OF i(1), of now key] i(2) arg_cong [OF lPop_refines(1) [OF i(1), of key], of fst]
    by (auto simp: list_inv_def split: list.splits)
  show "list_inv now key (snd (rPop key d)) \<and> listVals (encodeKey key) (snd (rPop key d)) = butlast (listVals (encodeKey key) d)
      \<and> fst (rPop key d) = (if listVals (encodeKey key) d = [] then None else Some (last (listVals (encodeKey key) d)))"
    using rPop_refines(2,3) [OF i(1), of key] rPop_refines(4) [OF i(1), of now key] i(2) arg_cong [OF rPop_refines(1) [OF i(1), of key], of fst]
    by (cases "listVals (encodeKey key) d" rule: rev_cases) (auto simp: list_inv_def)
qed

lemma empty_list [simp]: "list_type now key initSchema" "listVals k initSchema = []"
  by (simp_all add: list_type_def getKeyType_def initSchema_def listVals_def listRows_def rows_of_def)

end
