(* ===== verification/ListRanges.thy ===== *)
theory ListRanges
  imports Lists
begin

text \<open>
  The positional list commands (LRANGE, LTRIM, LREM, LSET, LINDEX, RPOPLPUSH) against
  reference functions on HOL lists, and the properties of the list component.
\<close>

section \<open>Ranges, removal and update\<close>

text \<open>Reference semantics of a Redis range: the elements at positions start..stop.\<close>

definition redis_range :: "int \<Rightarrow> int \<Rightarrow> 'a list \<Rightarrow> 'a list" where
  "redis_range start stop xs =
     (let n = int (length xs);
          lo = (if start < 0 then n + start else start);
          hi = (if stop < 0 then n + stop else stop)
      in map snd (filter (\<lambda>(i, _). lo \<le> int i \<and> int i \<le> hi) (enumerate 0 xs)))"

fun remove_first :: "nat \<Rightarrow> 'a \<Rightarrow> 'a list \<Rightarrow> 'a list" where
  "remove_first n x [] = []"
| "remove_first n x (y # ys) =
     (if y = x \<and> n > 0 then remove_first (n - 1) x ys else y # remove_first n x ys)"

definition redis_lrem :: "int \<Rightarrow> 'a \<Rightarrow> 'a list \<Rightarrow> 'a list" where
  "redis_lrem cnt x xs =
     (if cnt = 0 then filter (\<lambda>y. y \<noteq> x) xs
      else if cnt > 0 then remove_first (nat cnt) x xs
      else rev (remove_first (nat (- cnt)) x (rev xs)))"

lemma filter_enumerate:
  "map snd (filter (\<lambda>(i, _). a \<le> i \<and> i < b) (enumerate n xs)) = take (b - max a n) (drop (a - n) xs)"
proof (induction xs arbitrary: n)
  case (Cons x xs)
  show ?case
  proof (cases "a \<le> n \<and> n < b")
    case True
    then have "b - max a n = Suc (b - max a (Suc n))" by (simp add: Suc_diff_Suc max_def)
    with True Cons show ?thesis by simp
  next
    case False
    then consider "n < a" | "a \<le> n" "b \<le> n" by linarith
    then show ?thesis
    proof cases
      case 1
      then have "a - n = Suc (a - Suc n)" "max a n = max a (Suc n)" by simp_all
      with 1 Cons show ?thesis by simp
    qed (use Cons in simp)
  qed
qed simp

text \<open>The clamped LIMIT/OFFSET window of the source denotes the reference range.\<close>

lemma redis_range_window:
  fixes xs :: "'a list"
  defines "n \<equiv> int (length xs)"
  assumes "lo = (if start < 0 then n + start else start)" and "hi = (if stop < 0 then n + stop else stop)"
    "lo' = (if lo < 0 then 0 else lo)" "hi' = (if hi \<ge> n then n - 1 else hi)"
  shows "redis_range start stop xs =
    (if lo' > hi' then [] else take (nat (hi' - lo' + 1)) (drop (nat lo') xs))"
proof -
  have "redis_range start stop xs = map snd (filter (\<lambda>(i, _). nat lo' \<le> i \<and> i < nat (hi' + 1)) (enumerate 0 xs))"
    unfolding redis_range_def Let_def n_def [symmetric] assms(2,3) [symmetric]
    by (rule arg_cong [of _ _ "map snd"], rule filter_cong [OF refl])
      (use assms(4,5) in \<open>auto simp: in_set_enumerate_eq n_def\<close>)
  also have "\<dots> = take (nat (hi' + 1) - nat lo') (drop (nat lo') xs)" by (simp add: filter_enumerate)
  also have "nat (hi' + 1) - nat lo' = (if lo' > hi' then 0 else nat (hi' - lo' + 1))"
    using assms(4) by auto
  finally show ?thesis by simp
qed

lemma lRange_refines:
  assumes "readTypeCheck now (encodeKey key) TypeList d = None"
  shows "lRange now key start stop d = Inr (redis_range start stop (listVals (encodeKey key) d))"
proof -
  have n: "int (length (listVals (encodeKey key) d)) = countRows (encodeKey key) d" by (rule length_listVals)
  show ?thesis
    unfolding lRange_def Let_def redis_range_window [OF refl refl refl refl] n
    using assms by (simp add: listVals_def take_map drop_map)
qed

lemma map_filter_sub: "map f (filter (\<lambda>x. P (f x)) xs) = filter P (map f xs)"
  by (induction xs) auto

lemma deleteList_vals:
  assumes "wf_db d" "set S \<subseteq> set (listRows key d)"
  shows "listVals key (deleteListIdx key (map row_idx S) d) = map row_val (filter (\<lambda>r. r \<notin> set S) (listRows key d))"
  using listRows_delete_sub [of key d S] assms by (simp add: listVals_def)

lemma distinct_enumerate_filter:
  assumes "distinct xs"
  shows "filter (\<lambda>x. x \<notin> set (map snd (filter (\<lambda>(i, _). \<not> P i) (enumerate n xs)))) xs
       = map snd (filter (\<lambda>(i, _). P i) (enumerate n xs))"
proof -
  have "filter (\<lambda>x. x \<notin> S) xs = map snd (filter (\<lambda>(i, x). x \<notin> S) (enumerate n xs))" for S
    by (induction xs arbitrary: n) auto
  moreover have "filter (\<lambda>(i, x). x \<notin> set (map snd (filter (\<lambda>(i, _). \<not> P i) (enumerate n xs)))) (enumerate n xs)
      = filter (\<lambda>(i, _). P i) (enumerate n xs)"
    using assms by (intro filter_cong) (auto simp: in_set_enumerate_eq nth_eq_iff_index_eq image_iff eq_diff_iff)
  ultimately show ?thesis by simp
qed

lemma lTrim_refines:
  assumes "wf_db d"
  shows "listVals (encodeKey key) (lTrim key start stop d) = redis_range start stop (listVals (encodeKey key) d)"
    and "wf_db (lTrim key start stop d)"
proof -
  show "wf_db (lTrim key start stop d)"
    using assms by (auto simp: lTrim_def Let_def wf_db_def lockKey_def deleteListIdx_def)
  let ?k = "encodeKey key"
  define xs where "xs = listVals ?k d"
  define n where "n = int (length xs)"
  define lo hi where "lo = (if start < 0 then n + start else start)" and "hi = (if stop < 0 then n + stop else stop)"
  define lo' hi' where "lo' = (if lo < 0 then 0 else lo)" and "hi' = (if hi \<ge> n then n - 1 else hi)"
  note defs = lo_def hi_def lo'_def hi'_def
  have n: "countRows ?k d = n" by (simp add: n_def xs_def length_listVals)
  have range: "redis_range start stop xs = (if lo' > hi' then [] else take (nat (hi' - lo' + 1)) (drop (nat lo') xs))"
    using redis_range_window [of lo start xs hi stop lo' hi'] defs by (simp add: n_def)
  show "listVals ?k (lTrim key start stop d) = redis_range start stop (listVals ?k d)"
  proof (cases "n = 0")
    case True
    then have "xs = []" by (simp add: n_def)
    with True n show ?thesis unfolding xs_def [symmetric]
      by (simp add: lTrim_def Let_def redis_range_def) (simp add: listVals_def xs_def listRows_def)
  next
    case False
    let ?S = "map snd (filter (\<lambda>(i, _). \<not> (nat lo' \<le> i \<and> i < nat (hi' + 1))) (enumerate 0 (listRows ?k d)))"
    have wf: "wf_db (lockKey ?k d)" and dist: "distinct (listRows ?k d)"
      using assms listRows_props(3) wf_list_ok by (simp, blast)
    have sub: "set ?S \<subseteq> set (listRows ?k (lockKey ?k d))" by (auto simp: in_set_enumerate_eq) (metis nth_mem)+
    have eq: "lTrim key start stop d = (if lo' > hi'
        then (lockKey ?k d)\<lparr>kv_meta := delete_rows (\<lambda>r. fst r = ?k) (kv_meta d),
               kv_lists := delete_rows (\<lambda>r. fst (fst r) = ?k) (kv_lists d)\<rparr>
        else deleteListIdx ?k (map (row_idx \<circ> snd) (filter (\<lambda>(pos, r). int pos < lo' \<or> int pos > hi')
               (enumerate 0 (listRows ?k d)))) (lockKey ?k d))"
      unfolding lTrim_def Let_def using False n by (simp add: defs)
    have idx: "map (row_idx \<circ> snd) (filter (\<lambda>(pos, r). int pos < lo' \<or> int pos > hi') (enumerate 0 (listRows ?k d)))
        = map row_idx ?S" if "lo' \<le> hi'"
      unfolding map_map by (rule arg_cong [of _ _ "map (row_idx \<circ> snd)"], rule filter_cong [OF refl])
        (use that in \<open>auto simp: lo'_def split: if_splits\<close>)
    have "0 \<le> lo'" by (simp add: lo'_def)
    then have "lo' \<le> hi' \<Longrightarrow> nat (hi' + 1) - nat lo' = nat (hi' - lo' + 1)" by arith
    moreover have "listVals ?k (deleteListIdx ?k (map row_idx ?S) (lockKey ?k d))
        = map row_val (take (nat (hi' + 1) - nat lo') (drop (nat lo') (listRows ?k d)))"
      unfolding deleteList_vals [OF wf sub] listRows_lock distinct_enumerate_filter [OF dist]
      by (simp add: filter_enumerate)
    ultimately have keep: "listVals ?k (deleteListIdx ?k (map row_idx ?S) (lockKey ?k d))
        = take (nat (hi' - lo' + 1)) (drop (nat lo') xs)" if "lo' \<le> hi'"
      using that by (simp add: xs_def listVals_def take_map drop_map)
    show ?thesis
      unfolding xs_def [symmetric] range eq using keep idx
      by (auto simp: listVals_def listRows_def table_simps)
  qed
qed

lemma remove_first_0 [simp]: "remove_first 0 x xs = xs"
  by (induction xs) auto

lemma filter_remove_first:
  "distinct zs \<Longrightarrow> map f (filter (\<lambda>r. r \<notin> set (take n (filter (\<lambda>r. f r = x) zs))) zs)
     = remove_first n x (map f zs)"
proof (induction zs arbitrary: n)
  case (Cons r rs)
  have keep: "filter (\<lambda>r'. r' \<notin> insert r S) rs = filter (\<lambda>r'. r' \<notin> S) rs" for S
    using Cons.prems by (intro filter_cong) auto
  show ?case
  proof (cases "f r = x \<and> n > 0")
    case True
    then obtain k where "n = Suc k" by (cases n) auto
    with True Cons keep show ?thesis by simp
  next
    case False
    then have "r \<notin> set (take n (filter (\<lambda>r. f r = x) rs))"
      using Cons.prems by (auto dest: in_set_takeD)
    with False Cons show ?thesis by (cases "f r = x") (auto dest: in_set_takeD)
  qed
qed simp

lemma length_remove_first:
  "length (remove_first n x xs) + length (take n (filter (\<lambda>y. y = x) xs)) = length xs"
proof (induction xs arbitrary: n)
  case (Cons y ys)
  then show ?case by (cases n) auto
qed simp

lemma lRem_refines:
  fixes d :: "'s db" and key el :: string
  assumes "wf_db d" "cnt \<noteq> min_int64" "int64 cnt"
  defines "d' \<equiv> snd (lRem key cnt el d)"
  shows "listVals (encodeKey key) d' = redis_lrem cnt el (listVals (encodeKey key) d)"
    and "\<exists>n. fst (lRem key cnt el d) = Inr n" and "wf_db d'"
proof -
  let ?k = "encodeKey key" and ?m = "filter (\<lambda>r. row_val r = el) (listRows (encodeKey key) d)"
  have dist: "distinct (listRows ?k d)" using assms(1) listRows_props(3) wf_list_ok by blast
  have neg: "cnt < 0 \<Longrightarrow> wrap64 (- cnt) = - cnt"
    using assms(2,3) by (intro wrap64_id) (simp add: int64_bounds min_int64_def)
  show "wf_db d'" using assms(1) by (simp add: d'_def lRem_def Let_def)
  show "\<exists>n. fst (lRem key cnt el d) = Inr n" using neg by (simp add: lRem_def Let_def)
  consider "cnt = 0" | "cnt > 0" | "cnt < 0" by linarith
  then show "listVals ?k d' = redis_lrem cnt el (listVals ?k d)"
  proof cases
    case 1
    have "filter (\<lambda>r. r \<notin> set ?m) (listRows ?k d) = filter (\<lambda>r. row_val r \<noteq> el) (listRows ?k d)"
      by (intro filter_cong) auto
    with 1 show ?thesis
      using deleteList_vals [OF assms(1), of ?m ?k]
      by (simp add: d'_def lRem_def Let_def redis_lrem_def listVals_def map_filter_sub [of row_val "\<lambda>v. v \<noteq> el"])
  next
    case 2
    have "set (take (nat cnt) ?m) \<subseteq> set (listRows ?k d)" by (auto dest: in_set_takeD)
    with 2 show ?thesis
      using deleteList_vals [OF assms(1), of "take (nat cnt) ?m" ?k]
      by (simp add: d'_def lRem_def Let_def redis_lrem_def listVals_def filter_remove_first [OF dist])
  next
    case 3
    let ?T = "take (nat (- cnt)) (rev ?m)"
    have "set ?T \<subseteq> set (listRows ?k d)" by (auto dest: in_set_takeD)
    moreover have "map row_val (filter (\<lambda>r. r \<notin> set ?T) (listRows ?k d))
        = rev (remove_first (nat (- cnt)) el (rev (map row_val (listRows ?k d))))"
      using filter_remove_first [of "rev (listRows ?k d)" row_val "nat (- cnt)" el] dist
      by (simp add: rev_map rev_filter) (metis (no_types, lifting) rev_filter rev_map rev_rev_ident)
    ultimately show ?thesis
      using deleteList_vals [OF assms(1), of ?T ?k] 3 neg
      by (simp add: d'_def lRem_def Let_def redis_lrem_def listVals_def)
  qed
qed

lemma lSet_refines:
  assumes "wf_db d" "i < length (listVals (encodeKey key) d)"
    and "index = int i \<or> index = int i - int (length (listVals (encodeKey key) d))"
  shows "fst (lSet key index el d) = Inr ()"
    and "listVals (encodeKey key) (snd (lSet key index el d)) = (listVals (encodeKey key) d)[i := el]"
    and "wf_db (snd (lSet key index el d))"
proof -
  let ?k = "encodeKey key" and ?rs = "listRows (encodeKey key) d"
  have ok: "list_ok ?k d" using assms(1) by simp
  have len: "i < length ?rs" "countRows ?k d = int (length ?rs)"
    using assms(2) by (simp_all add: listVals_def countRows_listRows)
  have ix: "(if index < 0 then int (length ?rs) + index else index) = int i"
    using assms(2,3) len by (auto simp: listVals_def)
  have eq: "lSet key index el d = (Inr (), updateListVal ?k (row_idx (?rs ! i)) el d)"
    unfolding lSet_def Let_def len(2) ix using len by auto
  show "fst (lSet key index el d) = Inr ()" by (simp add: eq)
  show "wf_db (snd (lSet key index el d))" using assms(1) by (simp add: eq wf_db_def updateListVal_def)
  let ?f = "\<lambda>r. if row_idx r = row_idx (?rs ! i) then (fst r, (el, row_exp r)) else r"
  have "rows_of ?k (kv_lists (updateListVal ?k (row_idx (?rs ! i)) el d)) = map ?f (rows_of ?k (kv_lists d))"
    unfolding updateListVal_def rows_of_def update_rows_def
    by (simp add: filter_map comp_def) (auto intro!: map_cong filter_cong simp: prod_eq_iff split: prod.splits)
  moreover have "sort_key row_idx (map ?f xs) = map ?f (sort_key row_idx xs)" if "distinct (map row_idx xs)" for xs
    using that by (intro sort_key_unique) (simp_all add: comp_def if_distrib cong: if_cong)
  ultimately have "listRows ?k (snd (lSet key index el d)) = map ?f ?rs"
    using ok by (simp add: eq listRows_def list_ok_def)
  moreover have "map row_val (map ?f ?rs) = (map row_val ?rs)[i := el]"
    using listRows_props(2) [OF ok] len
    by (intro nth_equalityI) (auto simp: nth_list_update distinct_conv_nth)
  ultimately show "listVals ?k (snd (lSet key index el d)) = (listVals ?k d)[i := el]"
    by (simp add: listVals_def)
qed

lemma wf_insertMetaIfAbsent [simp]: "wf_db d \<Longrightarrow> wf_db (insertMetaIfAbsent k kt d)"
  by (auto simp: wf_db_def insertMetaIfAbsent_def)

lemma listVals_frame: "touches K d d' \<Longrightarrow> k \<notin> K \<Longrightarrow> listVals k d' = listVals k d"
  by (simp add: touches_def rows_def listVals_def listRows_def)

lemma rPopLPush_refines:
  fixes src dst :: string
  assumes "wf_db d"
  defines "s \<equiv> encodeKey src" and "t \<equiv> encodeKey dst" and "r \<equiv> rPopLPush src dst d"
  shows "listVals s d = [] \<Longrightarrow> fst r = Inr None"
    and "listVals s d \<noteq> [] \<Longrightarrow> fst r = Inr (Some (last (listVals s d)))"
    and "listVals s d \<noteq> [] \<Longrightarrow> listVals t (snd r) =
           last (listVals s d) # (if s = t then butlast (listVals s d) else listVals t d)"
    and "listVals s d \<noteq> [] \<Longrightarrow> s \<noteq> t \<Longrightarrow> listVals s (snd r) = butlast (listVals s d)"
    and "wf_db (snd r)"
proof -
  show "listVals s d = [] \<Longrightarrow> fst r = Inr None"
    by (simp add: r_def rPopLPush_def Let_def s_def listVals_def)
  show "wf_db (snd r)"
    using assms(1)
    by (auto simp: r_def rPopLPush_def Let_def split: list.splits sum.splits
        dest!: wf_insertListRows [rotated])
  assume ne: "listVals s d \<noteq> []"
  define v where "v = last (listVals s d)"
  obtain x xs where x: "rev (listRows s d) = x # xs"
    using ne by (cases "rev (listRows s d)") (auto simp: listVals_def)
  then have lr: "listRows s d = rev xs @ [x]" by (metis rev.simps(2) rev_rev_ident)
  have v: "row_val x = v" by (simp add: v_def listVals_def lr)
  define d1 where "d1 = lockKeys [s, t] d"
  define d3 where "d3 = insertMetaIfAbsent t TypeList (deleteListIdx s [row_idx x] d1)"
  have wf1: "wf_db d1" and wf3: "wf_db d3" using assms(1) by (simp_all add: d1_def d3_def)
  have "listRows s (deleteListIdx s (map row_idx [x]) d1) = filter (\<lambda>r. r \<notin> set [x]) (listRows s d)"
    using listRows_delete_sub [of s d1 "[x]"] wf1 lr by (simp add: d1_def)
  also have "\<dots> = butlast (listRows s d)"
    using listRows_props(3) [of s d] assms(1) lr by (simp add: filter_id_conv) blast
  finally have s3: "listVals s d3 = butlast (listVals s d)" by (simp add: d3_def listVals_def map_butlast)
  have "touches {s} d1 (deleteListIdx s [row_idx x] d1)" by (rule touches_deleteListIdx) simp
  then have t3: "k \<noteq> s \<Longrightarrow> listVals k d3 = listVals k d" for k
    using listVals_frame [of "{s}" d1 _ k] by (simp add: d3_def listVals_def d1_def)
  define new where "new = [(minIdx t d3 - 1, v)]"
  define d4 where "d4 = d3\<lparr>kv_lists := kv_lists d3 @ newRows t new\<rparr>"
  have p: "insertListRows t new d3 = Inr d4" "listRows t d4 = rev (newRows t new) @ listRows t d3"
    using push_head [OF wf3, of new t] by (simp_all add: new_def d4_def)
  have r: "r = (Inr (Some v), d4)"
    using p(1) x by (simp add: r_def rPopLPush_def Let_def flip: s_def t_def d1_def) (simp add: d1_def d3_def new_def v)
  show "fst r = Inr (Some (last (listVals s d)))" by (simp add: r v_def)
  have "listVals t d4 = v # listVals t d3" by (simp add: listVals_def p(2) new_def newRows_def)
  then show "listVals t (snd r) = last (listVals s d) # (if s = t then butlast (listVals s d) else listVals t d)"
    using s3 t3 by (auto simp: r v_def)
  have "touches {t} d3 d4" using p(1) by (rule touches_insertListRows) simp
  then show "s \<noteq> t \<Longrightarrow> listVals s (snd r) = butlast (listVals s d)"
    using s3 listVals_frame [of "{t}" d3 d4 s] by (simp add: r)
qed

section \<open>Properties\<close>

text \<open>
  C19.  Lists are faithful queues and stacks: values pushed with RPUSH come out of
  LPOP in order after everything already stored, values pushed with LPUSH come
  out of RPOP in order after everything already stored, and out of LPOP in
  reverse.
\<close>

theorem list_queue_discipline:
  assumes "wf_db d" and "list_type now key d" and "xs \<noteq> []" and "ys \<noteq> []"
  defines "stored \<equiv> listVals (encodeKey key) d"
  shows "popN (lPop key) (length stored + length xs + length ys)
           (snd (rPush now key ys (snd (rPush now key xs d)))) = stored @ xs @ ys
       \<and> popN (rPop key) (length stored + length xs) (snd (lPush now key xs d)) = rev stored @ xs
       \<and> popN (lPop key) (length xs) (snd (lPush now key xs d)) = rev xs"
  using lq.fifo_right_left [of now key d xs ys] lq.fifo_left_right [of now key d xs]
    lq.lifo_left [of now key d xs] assms by (simp add: list_inv_def)

theorem list_queue_discipline_witness:
  "popN (lPop ''q'') 3 (snd (rPush 0 ''q'' [''c''] (snd (rPush 0 ''q'' [''a'', ''b''] (initSchema :: nat db)))))
     = [''a'', ''b'', ''c'']"
  using list_queue_discipline [of "initSchema :: nat db" 0 "''q''" "[''a'', ''b'']" "[''c'']"]
  by (simp add: numeral_3_eq_3 del: popN.simps)



text \<open>
  C37.  LRANGE returns exactly the elements at the positions of the Redis range, with
  negative positions counted from the end and out-of-range ones clamped, and
  LTRIM keeps exactly that range.
\<close>

theorem lrange_ltrim_reference:
  assumes "wf_db d" and "readTypeCheck now (encodeKey key) TypeList d = None"
  shows "lRange now key start stop d = Inr (redis_range start stop (listVals (encodeKey key) d))
       \<and> listVals (encodeKey key) (lTrim key start stop d) = redis_range start stop (listVals (encodeKey key) d)"
  using lRange_refines [OF assms(2)] lTrim_refines(1) [OF assms(1)] by simp

theorem lrange_ltrim_reference_witness:
  "lRange 0 ''q'' (-2) (-1) (snd (rPush 0 ''q'' [''a'', ''b'', ''c''] (initSchema :: nat db))) = Inr [''b'', ''c'']"
proof -
  let ?d = "snd (rPush 0 ''q'' [''a'', ''b'', ''c''] (initSchema :: nat db))"
  note r = rPush_refines [OF wf_initSchema empty_list(1), of "[''a'', ''b'', ''c'']", where ?'a = nat and now = 0 and key = "''q''"]
  have "readTypeCheck 0 (encodeKey ''q'') TypeList ?d = None"
    using r(5) by (simp add: readTypeCheck_def)
  from lrange_ltrim_reference [OF r(3) this, of "-2" "-1"] r(2) show ?thesis
    by (simp add: redis_range_def)
qed

text \<open>
  LREM removes the first (count positive), last (count negative) or all (count
  zero) occurrences of the element and keeps the order of the rest.
\<close>

theorem lrem_reference:
  assumes "wf_db d" and "cnt \<noteq> min_int64" and "int64 cnt"
  shows "listVals (encodeKey key) (snd (lRem key cnt el d)) = redis_lrem cnt el (listVals (encodeKey key) d)
       \<and> wf_db (snd (lRem key cnt el d)) \<and> (\<exists>n. fst (lRem key cnt el d) = Inr n)"
  using lRem_refines [OF assms] by blast

theorem lrem_reference_witness:
  "listVals (encodeKey ''q'') (snd (lRem ''q'' (-1) ''a'' (snd (rPush 0 ''q'' [''a'', ''b'', ''a''] (initSchema :: nat db)))))
     = [''a'', ''b'']"
proof -
  note r = rPush_refines [OF wf_initSchema empty_list(1), of "[''a'', ''b'', ''a'']", where ?'a = nat and now = 0 and key = "''q''"]
  from lrem_reference [OF r(3), of "-1" "''q''" "''a''"] r(2) show ?thesis
    by (simp add: int64_bounds min_int64_def redis_lrem_def)
qed

text \<open>
  RPOPLPUSH moves the last element of the source to the head of the
  destination (rotating when they are the same list) and returns it; on an
  empty source it returns nothing.
\<close>

theorem rpoplpush_moves:
  fixes src dst :: string
  assumes "wf_db d"
  defines "s \<equiv> encodeKey src" and "t \<equiv> encodeKey dst" and "r \<equiv> rPopLPush src dst d"
  shows "if listVals s d = [] then fst r = Inr None
         else fst r = Inr (Some (last (listVals s d)))
            \<and> listVals t (snd r) = last (listVals s d) # (if s = t then butlast (listVals s d) else listVals t d)
            \<and> listVals s (snd r) = (if s = t then last (listVals s d) # butlast (listVals s d)
                                     else butlast (listVals s d))"
  using rPopLPush_refines [OF assms(1), of src dst] by (auto simp: s_def t_def r_def)

theorem rpoplpush_moves_witness:
  "fst (rPopLPush ''q'' ''p'' (snd (rPush 0 ''q'' [''a'', ''b''] (initSchema :: nat db)))) = Inr (Some ''b'')"
proof -
  note r = rPush_refines [OF wf_initSchema empty_list(1), of "[''a'', ''b'']", where ?'a = nat and now = 0 and key = "''q''"]
  from rpoplpush_moves [OF r(3), of "''q''" "''p''"] r(2) show ?thesis by simp
qed

text \<open>
  LINSERT can fail on an ordinary list: shifting two adjacent rows up by one
  violates the primary key when the lower one is visited first, so inserting
  before the second of three RPUSHed values is a duplicate-key error.
\<close>

theorem linsert_duplicate_key:
  "fst (lInsert ''q'' ''b'' ''x'' True (snd (rPush 0 ''q'' [''a'', ''b'', ''c''] (initSchema :: nat db))))
     = Inl errDuplicate"
proof -
  have "encodeKey ''q'' = ''q''" by (simp add: encodeKey_def in_range_def)
  then show ?thesis
    by (simp add: rPush_def lInsert_def Let_def getKeyType_def initSchema_def maxIdx_def listRows_def rows_of_def
        lockKey_def setMeta_def insertListRows_def newRows_def)
qed

end
