(* ===== verification/Sets.thy ===== *)
theory Sets
  imports Keyspace
begin

text \<open>
  The set commands of \<^verbatim>\<open>queryOps\<close> in \<^verbatim>\<open>src/internal/storage/querier.go\<close>, refined to
  HOL sets by \<open>memberSet\<close> (the live members of a key).  A Go map used as a set is
  the list of its keys, in the order \<^verbatim>\<open>range\<close> visits them.
\<close>

section \<open>Operations\<close>

text \<open>INSERT ... ON CONFLICT DO NOTHING: the members without a row are added and counted.\<close>

definition insertMembers :: "string \<Rightarrow> string list \<Rightarrow> 's db \<Rightarrow> int \<times> 's db" where
  "insertMembers key members d =
     (let new = filter (\<lambda>m. (key, m) \<notin> fst ` set (kv_sets d)) (remdups members)
      in (int (length new), d\<lparr>kv_sets := kv_sets d @ map (\<lambda>m. ((key, m), None)) new\<rparr>))"

definition sAdd :: "time \<Rightarrow> string \<Rightarrow> string list \<Rightarrow> ('s, int) op" where
  "sAdd now key members d =
     (let key = encodeKey key
      in if members = [] then (Inr 0, d)
         else let kt = getKeyType now key d
              in if kt \<noteq> TypeNone \<and> kt \<noteq> TypeSet then (Inl errWrongType, d)
                 else let d = setMeta key TypeSet None d;
                          (added, d) = insertMembers key members d
                      in (Inr added, d))"

definition sRem :: "string \<Rightarrow> string list \<Rightarrow> 's db \<Rightarrow> int \<times> 's db" where
  "sRem key members d =
     (let key = encodeKey key;
          P = (\<lambda>r. fst (fst r) = key \<and> snd (fst r) \<in> set members)
      in (int (length (filter P (kv_sets d))), d\<lparr>kv_sets := delete_rows P (kv_sets d)\<rparr>))"

text \<open>\<^verbatim>\<open>SELECT member FROM kv_sets WHERE key = $1 AND (live)\<close>\<close>

definition liveMembers :: "time \<Rightarrow> string \<Rightarrow> 's db \<Rightarrow> string list" where
  "liveMembers now key d = map (snd \<circ> fst) (filter (\<lambda>r. live now (snd r)) (rows_of key (kv_sets d)))"

definition sMembers :: "time \<Rightarrow> string \<Rightarrow> 's db \<Rightarrow> string + string list" where
  "sMembers now key d =
     (let key = encodeKey key
      in case readTypeCheck now key TypeSet d of
           Some e \<Rightarrow> Inl e
         | None \<Rightarrow> Inr (liveMembers now key d))"

definition sIsMember :: "time \<Rightarrow> string \<Rightarrow> string \<Rightarrow> 's db \<Rightarrow> bool" where
  "sIsMember now key member d =
     (let n = length (filter (\<lambda>r. fst r = (encodeKey key, member) \<and> live now (snd r)) (kv_sets d))
      in n > 0)"

definition sCard :: "time \<Rightarrow> string \<Rightarrow> 's db \<Rightarrow> string + int" where
  "sCard now key d =
     (let key = encodeKey key
      in case readTypeCheck now key TypeSet d of
           Some e \<Rightarrow> Inl e
         | None \<Rightarrow> Inr (int (length (liveMembers now key d))))"

definition sMIsMember :: "time \<Rightarrow> string \<Rightarrow> string list \<Rightarrow> 's db \<Rightarrow> bool list" where
  "sMIsMember now key members d =
     (let existing = remdups (liveMembers now (encodeKey key) d)
      in map (\<lambda>m. m \<in> set existing) members)"

fun sInter_loop :: "time \<Rightarrow> string list \<Rightarrow> string list \<Rightarrow> 's db \<Rightarrow> string + string list" where
  "sInter_loop now [] result d = Inr result"
| "sInter_loop now (key # keys) result d =
     (case sMembers now key d of
        Inl e \<Rightarrow> Inl e
      | Inr members \<Rightarrow>
          let nextResult = remdups (filter (\<lambda>m. m \<in> set result) members)
          in if nextResult = [] then Inr [] else sInter_loop now keys nextResult d)"

definition sInter :: "time \<Rightarrow> string list \<Rightarrow> 's db \<Rightarrow> string + string list" where
  "sInter now keys d =
     (case encodeKeys keys of
        [] \<Rightarrow> Inr []
      | key # rest \<Rightarrow>
          (case sMembers now key d of
             Inl e \<Rightarrow> Inl e
           | Inr first \<Rightarrow>
               if first = [] then Inr [] else sInter_loop now rest (remdups first) d))"

fun sUnion_loop :: "time \<Rightarrow> string list \<Rightarrow> string list \<Rightarrow> 's db \<Rightarrow> string + string list" where
  "sUnion_loop now [] result d = Inr result"
| "sUnion_loop now (key # keys) result d =
     (case sMembers now key d of
        Inl e \<Rightarrow> Inl e
      | Inr members \<Rightarrow> sUnion_loop now keys (remdups (result @ members)) d)"

definition sUnion :: "time \<Rightarrow> string list \<Rightarrow> 's db \<Rightarrow> string + string list" where
  "sUnion now keys d = (if keys = [] then Inr [] else sUnion_loop now (encodeKeys keys) [] d)"

fun sDiff_loop :: "time \<Rightarrow> string list \<Rightarrow> string list \<Rightarrow> 's db \<Rightarrow> string + string list" where
  "sDiff_loop now [] result d = Inr result"
| "sDiff_loop now (key # keys) result d =
     (case sMembers now key d of
        Inl e \<Rightarrow> Inl e
      | Inr members \<Rightarrow> sDiff_loop now keys (filter (\<lambda>m. m \<notin> set members) result) d)"

definition sDiff :: "time \<Rightarrow> string list \<Rightarrow> 's db \<Rightarrow> string + string list" where
  "sDiff now keys d =
     (case encodeKeys keys of
        [] \<Rightarrow> Inr []
      | key # rest \<Rightarrow>
          (case sMembers now key d of
             Inl e \<Rightarrow> Inl e
           | Inr first \<Rightarrow>
               if first = [] then Inr [] else sDiff_loop now rest (remdups first) d))"

text \<open>The three STORE commands share everything but the query.\<close>

definition storeMembers :: "time \<Rightarrow> string \<Rightarrow> string + string list \<Rightarrow> ('s, int) op" where
  "storeMembers now destination result d =
     (case result of
        Inl e \<Rightarrow> (Inl e, d)
      | Inr members \<Rightarrow>
          let d = deleteKeyFromAllTables destination d
          in if members = [] then (Inr 0, d) else sAdd now destination members d)"

definition sInterStore :: "time \<Rightarrow> string \<Rightarrow> string list \<Rightarrow> ('s, int) op" where
  "sInterStore now destination keys d =
     storeMembers now (encodeKey destination) (sInter now (encodeKeys keys) d) d"

definition sUnionStore :: "time \<Rightarrow> string \<Rightarrow> string list \<Rightarrow> ('s, int) op" where
  "sUnionStore now destination keys d =
     storeMembers now (encodeKey destination) (sUnion now (encodeKeys keys) d) d"

definition sDiffStore :: "time \<Rightarrow> string \<Rightarrow> string list \<Rightarrow> ('s, int) op" where
  "sDiffStore now destination keys d =
     storeMembers now (encodeKey destination) (sDiff now (encodeKeys keys) d) d"

definition sInterCard :: "time \<Rightarrow> string list \<Rightarrow> int \<Rightarrow> 's db \<Rightarrow> string + int" where
  "sInterCard now keys limit d =
     (if keys = [] then Inr 0
      else case sInter now keys d of
             Inl e \<Rightarrow> Inl e
           | Inr members \<Rightarrow>
               let cnt = int (length members)
               in Inr (if limit > 0 \<and> cnt > limit then limit else cnt))"

section \<open>Abstraction\<close>

definition memberSet :: "time \<Rightarrow> string \<Rightarrow> 's db \<Rightarrow> string set" where
  "memberSet now key d = set (liveMembers now (encodeKey key) d)"

definition set_type :: "time \<Rightarrow> string \<Rightarrow> 's db \<Rightarrow> bool" where
  "set_type now key d = (readTypeCheck now (encodeKey key) TypeSet d = None)"

text \<open>No member row of the key is left over from an expired set.\<close>

definition set_fresh :: "time \<Rightarrow> string \<Rightarrow> 's db \<Rightarrow> bool" where
  "set_fresh now key d = (\<forall>r \<in> set (kv_sets d). fst (fst r) = encodeKey key \<longrightarrow> live now (snd r))"

section \<open>Lemmas\<close>

lemma in_memberSet: "m \<in> memberSet now key d \<longleftrightarrow> (\<exists>e. ((encodeKey key, m), e) \<in> set (kv_sets d) \<and> live now e)"
  by (force simp: memberSet_def liveMembers_def)

lemma sMembers_iff: "sMembers now key d = (if set_type now key d then Inr (liveMembers now (encodeKey key) d) else Inl errWrongType)"
  by (auto simp: sMembers_def set_type_def readTypeCheck_def Let_def split: option.splits if_splits)

lemma enc_simps [simp]:
  "memberSet now (encodeKey k) d = memberSet now k d" "set_type now (encodeKey k) d = set_type now k d"
  "set_fresh now (encodeKey k) d = set_fresh now k d"
  by (simp_all add: memberSet_def set_type_def set_fresh_def)

lemma set_liveMembers: "set (liveMembers now (encodeKey key) d) = memberSet now key d"
  by (simp add: memberSet_def)

lemma liveMembers_distinct: "wf_db d \<Longrightarrow> distinct (liveMembers now key d)"
  unfolding liveMembers_def by (rule distinct_subkeys) (simp add: wf_db_def)

lemma insertMembers_sets:
  "set (kv_sets (snd (insertMembers key ms d))) = set (kv_sets d)
     \<union> {((key, m), None) | m. m \<in> set ms \<and> (key, m) \<notin> fst ` set (kv_sets d)}"
  by (auto simp: insertMembers_def Let_def)

lemma insertMembers_count:
  "fst (insertMembers key ms d) = int (card {m \<in> set ms. (key, m) \<notin> fst ` set (kv_sets d)})"
proof -
  let ?P = "\<lambda>m. (key, m) \<notin> fst ` set (kv_sets d)"
  have "length (filter ?P (remdups ms)) = card (set (filter ?P (remdups ms)))"
    by (simp only: distinct_card distinct_filter distinct_remdups)
  then show ?thesis by (simp add: insertMembers_def Let_def)
qed

lemma touches_insertMembers: "key \<in> K \<Longrightarrow> touches K d (snd (insertMembers key ms d))"
  by (auto simp: touches_def rows_def insertMembers_def Let_def rows_of_def filter_empty_conv)

lemma wf_insertMembers [simp]: "wf_db d \<Longrightarrow> wf_db (snd (insertMembers key ms d))"
  by (auto simp: wf_db_def insertMembers_def Let_def comp_def distinct_map inj_on_def)

lemma insertMembers_meta [simp]: "kv_meta (snd (insertMembers key ms d)) = kv_meta d"
  by (simp add: insertMembers_def Let_def)

lemma sAdd_unfold:
  assumes "ms \<noteq> []" "set_type now key d"
    and "getKeyType now (encodeKey key) d \<noteq> TypeNone \<Longrightarrow> getKeyType now (encodeKey key) d = TypeSet"
  shows "sAdd now key ms d = (Inr (fst (insertMembers (encodeKey key) ms (setMeta (encodeKey key) TypeSet None d))),
    snd (insertMembers (encodeKey key) ms (setMeta (encodeKey key) TypeSet None d)))"
  using assms by (auto simp: sAdd_def Let_def split_beta)

lemma set_type_getKeyType:
  "set_type now key d \<Longrightarrow> getKeyType now (encodeKey key) d \<noteq> TypeNone \<Longrightarrow> getKeyType now (encodeKey key) d = TypeSet"
  by (auto simp: set_type_def readTypeCheck_def getKeyType_def split: option.splits if_splits)

lemma sAdd_refines:
  assumes "set_type now key d" "set_fresh now key d" "ms \<noteq> []"
  defines "d' \<equiv> snd (sAdd now key ms d)"
  shows "fst (sAdd now key ms d) = Inr (int (card (set ms - memberSet now key d)))"
    and "memberSet now key d' = memberSet now key d \<union> set ms"
    and "set_type now' key d'" and "set_fresh now key d'"
    and "touches {encodeKey key} d d'"
proof -
  let ?k = "encodeKey key" and ?d0 = "setMeta (encodeKey key) TypeSet None d"
  note eq = sAdd_unfold [OF assms(3,1) set_type_getKeyType [OF assms(1)]]
  have mem: "(?k, m) \<in> fst ` set (kv_sets d) \<longleftrightarrow> m \<in> memberSet now key d" for m
    using assms(2) by (force simp: in_memberSet set_fresh_def)
  have "{m \<in> set ms. (?k, m) \<notin> fst ` set (kv_sets ?d0)} = set ms - memberSet now key d"
    using mem by auto
  then show "fst (sAdd now key ms d) = Inr (int (card (set ms - memberSet now key d)))"
    by (simp add: eq insertMembers_count)
  have d': "d' = snd (insertMembers ?k ms ?d0)" by (simp add: d'_def eq)
  have sets: "set (kv_sets d') = set (kv_sets d) \<union> {((?k, m), None) | m. m \<in> set ms \<and> m \<notin> memberSet now key d}"
    unfolding d' insertMembers_sets setMeta_select using mem by simp
  have "m \<in> memberSet now key d' \<longleftrightarrow> m \<in> memberSet now key d \<union> set ms" for m
    unfolding in_memberSet [of m now key d'] sets by (auto simp: in_memberSet) (metis live_None)
  then show "memberSet now key d' = memberSet now key d \<union> set ms" by blast
  show "set_fresh now key d'" using assms(2) by (auto simp: set_fresh_def sets)
  show "set_type now' key d'" by (simp add: d'_def eq set_type_def readTypeCheck_def table_simps)
  show "touches {?k} d d'"
    unfolding d' by (intro touches_trans [OF touches_setMeta touches_insertMembers]) simp_all
qed

lemma wf_sAdd [simp]: "wf_db d \<Longrightarrow> wf_db (snd (sAdd now key ms d))"
  by (simp add: sAdd_def Let_def split_beta)

lemma touches_sAdd [frame_simps]: "touches {encodeKey key} d (snd (sAdd now key ms d))"
  by (auto simp: sAdd_def Let_def split_beta intro: touches_trans [OF touches_setMeta touches_insertMembers])

lemma sRem_refines:
  fixes key :: string and ms :: "string list" and d :: "'s db"
  defines "d' \<equiv> snd (sRem key ms d)"
  shows "memberSet now key d' = memberSet now key d - set ms" and "touches {encodeKey key} d d'"
    and "wf_db d \<Longrightarrow> wf_db d'"
    and "wf_db d \<Longrightarrow> set_fresh now key d \<Longrightarrow> fst (sRem key ms d) = int (card (memberSet now key d \<inter> set ms))"
proof -
  let ?k = "encodeKey key"
  have sets: "set (kv_sets d') = {r \<in> set (kv_sets d). \<not> (fst (fst r) = ?k \<and> snd (fst r) \<in> set ms)}"
    by (auto simp: d'_def sRem_def Let_def delete_rows_def)
  have "m \<in> memberSet now key d' \<longleftrightarrow> m \<in> memberSet now key d - set ms" for m
    unfolding in_memberSet [of m now key d'] sets by (auto simp: in_memberSet)
  then show "memberSet now key d' = memberSet now key d - set ms" by blast
  show "touches {?k} d d'"
    by (auto simp: d'_def sRem_def Let_def touches_def rows_def intro!: rows_of_delete_rows)
  show "wf_db d \<Longrightarrow> wf_db d'" by (simp add: d'_def sRem_def Let_def wf_db_def)
  assume wf: "wf_db d" and fresh: "set_fresh now key d"
  let ?P = "\<lambda>r. fst (fst r) = ?k \<and> snd (fst r) \<in> set ms"
  have "filter ?P (kv_sets d) = filter (\<lambda>r. snd (fst r) \<in> set ms) (rows_of ?k (kv_sets d))"
    by (simp add: rows_of_def conj_commute)
  moreover have "distinct (map (snd \<circ> fst) (filter (\<lambda>r. snd (fst r) \<in> set ms) (rows_of ?k (kv_sets d))))"
    using wf by (intro distinct_subkeys) (simp add: wf_db_def)
  ultimately have "length (filter ?P (kv_sets d)) = card (set (map (snd \<circ> fst) (filter ?P (kv_sets d))))"
    by (simp only: distinct_card length_map)
  also have "set (map (snd \<circ> fst) (filter ?P (kv_sets d))) = memberSet now key d \<inter> set ms"
  proof (rule set_eqI)
    fix m
    show "m \<in> set (map (snd \<circ> fst) (filter ?P (kv_sets d))) \<longleftrightarrow> m \<in> memberSet now key d \<inter> set ms"
      using fresh unfolding in_memberSet set_fresh_def Int_iff by (fastforce simp: image_iff)
  qed
  finally show "fst (sRem key ms d) = int (card (memberSet now key d \<inter> set ms))"
    by (simp add: sRem_def Let_def)
qed

subsection \<open>Set algebra\<close>

lemma sInter_loop_refines:
  "\<forall>k \<in> set keys. set_type now k d \<Longrightarrow>
     \<exists>out. sInter_loop now keys result d = Inr out \<and> set out = set result \<inter> (\<Inter>k \<in> set keys. memberSet now k d)
       \<and> (distinct result \<longrightarrow> distinct out)"
proof (induction keys arbitrary: result)
  case (Cons k keys)
  let ?next = "remdups (filter (\<lambda>m. m \<in> set result) (liveMembers now (encodeKey k) d))"
  have ok: "sMembers now k d = Inr (liveMembers now (encodeKey k) d)" using Cons.prems by (simp add: sMembers_iff)
  have nx: "set ?next = set result \<inter> memberSet now k d" by (auto simp: memberSet_def)
  show ?case
  proof (cases "?next = []")
    case True
    then have "set result \<inter> memberSet now k d = {}" using nx by (metis set_empty)
    with True ok show ?thesis by auto
  next
    case False
    with ok Cons.IH [of ?next] Cons.prems nx show ?thesis by auto
  qed
qed auto

lemma sInter_refines:
  assumes "keys \<noteq> []" "\<forall>k \<in> set keys. set_type now k d"
  shows "\<exists>out. sInter now keys d = Inr out \<and> set out = (\<Inter>k \<in> set keys. memberSet now k d) \<and> distinct out"
proof -
  obtain k ks where keys: "keys = k # ks" using assms(1) by (cases keys) auto
  have ok: "sMembers now (encodeKey k) d = Inr (liveMembers now (encodeKey k) d)"
    using assms(2) keys by (simp add: sMembers_iff)
  show ?thesis
  proof (cases "liveMembers now (encodeKey k) d = []")
    case True
    then have "memberSet now k d = {}" by (simp add: memberSet_def)
    with True ok show ?thesis by (auto simp: sInter_def keys encodeKeys_def)
  next
    case False
    have "\<forall>k' \<in> set (map encodeKey ks). set_type now k' d" using assms(2) keys by simp
    from sInter_loop_refines [OF this, of "remdups (liveMembers now (encodeKey k) d)"] False ok
    show ?thesis by (auto simp: sInter_def keys encodeKeys_def set_liveMembers)
  qed
qed

lemma sUnion_loop_refines:
  "\<forall>k \<in> set keys. set_type now k d \<Longrightarrow>
     \<exists>out. sUnion_loop now keys result d = Inr out \<and> set out = set result \<union> (\<Union>k \<in> set keys. memberSet now k d)
       \<and> (distinct result \<longrightarrow> distinct out)"
proof (induction keys arbitrary: result)
  case (Cons k keys)
  have ok: "sMembers now k d = Inr (liveMembers now (encodeKey k) d)" using Cons.prems by (simp add: sMembers_iff)
  from Cons.IH [of "remdups (result @ liveMembers now (encodeKey k) d)"] Cons.prems ok show ?case
    by (auto simp: set_liveMembers)
qed auto

lemma sUnion_refines:
  assumes "keys \<noteq> []" "\<forall>k \<in> set keys. set_type now k d"
  shows "\<exists>out. sUnion now keys d = Inr out \<and> set out = (\<Union>k \<in> set keys. memberSet now k d) \<and> distinct out"
  using sUnion_loop_refines [of "encodeKeys keys" now d "[]"] assms by (auto simp: sUnion_def encodeKeys_def)

lemma sDiff_loop_refines:
  "\<forall>k \<in> set keys. set_type now k d \<Longrightarrow>
     \<exists>out. sDiff_loop now keys result d = Inr out \<and> set out = set result - (\<Union>k \<in> set keys. memberSet now k d)
       \<and> (distinct result \<longrightarrow> distinct out)"
proof (induction keys arbitrary: result)
  case (Cons k keys)
  have ok: "sMembers now k d = Inr (liveMembers now (encodeKey k) d)" using Cons.prems by (simp add: sMembers_iff)
  from Cons.IH [of "filter (\<lambda>m. m \<notin> set (liveMembers now (encodeKey k) d)) result"] Cons.prems ok show ?case
    by (auto simp: set_liveMembers)
qed auto

lemma sDiff_refines:
  assumes "\<forall>k \<in> set (k0 # keys). set_type now k d"
  shows "\<exists>out. sDiff now (k0 # keys) d = Inr out \<and> distinct out
    \<and> set out = memberSet now k0 d - (\<Union>k \<in> set keys. memberSet now k d)"
proof -
  have ok: "sMembers now (encodeKey k0) d = Inr (liveMembers now (encodeKey k0) d)"
    using assms by (simp add: sMembers_iff)
  show ?thesis
  proof (cases "liveMembers now (encodeKey k0) d = []")
    case True
    then have "memberSet now k0 d = {}" by (simp add: memberSet_def)
    with True ok show ?thesis by (auto simp: sDiff_def encodeKeys_def)
  next
    case False
    have "\<forall>k' \<in> set (map encodeKey keys). set_type now k' d" using assms by simp
    from sDiff_loop_refines [OF this, of "remdups (liveMembers now (encodeKey k0) d)"] False ok
    show ?thesis by (auto simp: sDiff_def encodeKeys_def set_liveMembers)
  qed
qed

lemma storeMembers_refines:
  fixes d :: "'s db" and dst :: string and now :: time
  assumes "distinct out"
  defines "d' \<equiv> snd (storeMembers now (encodeKey dst) (Inr out) d)"
  shows "fst (storeMembers now (encodeKey dst) (Inr out) d) = Inr (int (length out))"
    and "memberSet now dst d' = set out" and "touches {encodeKey dst} d d'"
proof -
  define d0 where "d0 = deleteKeyFromAllTables (encodeKey dst) d"
  have r0: "rows (encodeKey dst) d0 = (None, None, [], [], [], [], None)" by (simp add: d0_def rows_deleteKeys)
  have m0: "memberSet now dst d0 = {}" using r0 by (simp add: rows_def memberSet_def liveMembers_def)
  have t0: "touches {encodeKey dst} d d0" by (simp add: d0_def touches_deleteKeys)
  have st: "set_type now dst d0" using r0 by (simp add: set_type_def readTypeCheck_def rows_def)
  have "rows_of (encodeKey dst) (kv_sets d0) = []" using r0 by (simp add: rows_def)
  then have sf: "set_fresh now dst d0" by (auto simp: set_fresh_def rows_of_def filter_empty_conv)
  have "fst (storeMembers now (encodeKey dst) (Inr out) d) = Inr (int (length out))
      \<and> memberSet now dst d' = set out \<and> touches {encodeKey dst} d d'"
  proof (cases "out = []")
    case True
    then show ?thesis using m0 t0 by (simp add: d'_def storeMembers_def flip: d0_def)
  next
    case False
    have same: "sAdd now (encodeKey dst) out d0 = sAdd now dst out d0" by (simp add: sAdd_def)
    from sAdd_refines(1,2,5) [OF st sf False] False m0 t0 distinct_card [OF assms(1)] show ?thesis
      by (auto simp: d'_def storeMembers_def same simp flip: d0_def intro: touches_trans)
  qed
  then show "fst (storeMembers now (encodeKey dst) (Inr out) d) = Inr (int (length out))"
    and "memberSet now dst d' = set out" and "touches {encodeKey dst} d d'" by blast+
qed

section \<open>Properties\<close>

text \<open>
  SADD and SREM refine union and difference on the set of live members, report
  how many members they added or removed, and touch no other key.
\<close>

theorem sadd_srem_refine:
  assumes "wf_db d" and "set_type now key d" and "set_fresh now key d" and "ms \<noteq> []"
  shows "fst (sAdd now key ms d) = Inr (int (card (set ms - memberSet now key d)))
       \<and> memberSet now key (snd (sAdd now key ms d)) = memberSet now key d \<union> set ms
       \<and> fst (sRem key ms d) = int (card (memberSet now key d \<inter> set ms))
       \<and> memberSet now key (snd (sRem key ms d)) = memberSet now key d - set ms
       \<and> touches {encodeKey key} d (snd (sAdd now key ms d)) \<and> touches {encodeKey key} d (snd (sRem key ms d))"
  using sAdd_refines(1,2,5) [OF assms(2-4)] sRem_refines(1,4) [where now = now and key = key and ms = ms and d = d]
    sRem_refines(2) [where key = key and ms = ms and d = d] assms by simp

theorem sadd_srem_refine_witness:
  "memberSet 0 ''s'' (snd (sAdd 0 ''s'' [''a'', ''b''] (initSchema :: nat db))) = {''a'', ''b''}"
proof -
  have "set_type 0 ''s'' (initSchema :: nat db)" "set_fresh 0 ''s'' (initSchema :: nat db)"
    "memberSet 0 ''s'' (initSchema :: nat db) = {}"
    by (simp_all add: set_type_def readTypeCheck_def set_fresh_def initSchema_def memberSet_def
        liveMembers_def rows_of_def)
  then show ?thesis
    using sadd_srem_refine [of "initSchema :: nat db" 0 "''s''" "[''a'', ''b'']"] by auto
qed

text \<open>
  C22.  SINTER, SUNION and SDIFF return exactly the intersection, union and
  difference of the member sets, without repetitions, and the STORE form
  replaces the destination by that set, whatever type it had.
\<close>

theorem set_algebra:
  assumes "\<forall>k \<in> set (k0 # keys). set_type now k d"
  shows "(\<exists>out. sInter now (k0 # keys) d = Inr out \<and> distinct out \<and> set out = (\<Inter>k \<in> set (k0 # keys). memberSet now k d)
            \<and> memberSet now dst (snd (sInterStore now dst (k0 # keys) d)) = set out
            \<and> fst (sInterStore now dst (k0 # keys) d) = Inr (int (length out)))
       \<and> (\<exists>out. sUnion now (k0 # keys) d = Inr out \<and> distinct out \<and> set out = (\<Union>k \<in> set (k0 # keys). memberSet now k d)
            \<and> memberSet now dst (snd (sUnionStore now dst (k0 # keys) d)) = set out
            \<and> fst (sUnionStore now dst (k0 # keys) d) = Inr (int (length out)))
       \<and> (\<exists>out. sDiff now (k0 # keys) d = Inr out \<and> distinct out
            \<and> set out = memberSet now k0 d - (\<Union>k \<in> set keys. memberSet now k d)
            \<and> memberSet now dst (snd (sDiffStore now dst (k0 # keys) d)) = set out
            \<and> fst (sDiffStore now dst (k0 # keys) d) = Inr (int (length out)))"
proof -
  have enc: "sInter now (encodeKeys ks) d = sInter now ks d" "sDiff now (encodeKeys ks) d = sDiff now ks d"
    "sUnion now (encodeKeys ks) d = sUnion now ks d" for ks
    by (simp_all add: sInter_def sDiff_def sUnion_def encodeKeys_def comp_def)
  obtain i where i: "sInter now (k0 # keys) d = Inr i" "distinct i" "set i = (\<Inter>k \<in> set (k0 # keys). memberSet now k d)"
    using sInter_refines [OF _ assms] by blast
  obtain u where u: "sUnion now (k0 # keys) d = Inr u" "distinct u" "set u = (\<Union>k \<in> set (k0 # keys). memberSet now k d)"
    using sUnion_refines [OF _ assms] by blast
  obtain m where m: "sDiff now (k0 # keys) d = Inr m" "distinct m" "set m = memberSet now k0 d - (\<Union>k \<in> set keys. memberSet now k d)"
    using sDiff_refines [OF assms] by blast
  note store = storeMembers_refines(1,2) [where now = now and dst = dst and d = d]
  show ?thesis
    unfolding sInterStore_def sUnionStore_def sDiffStore_def enc i(1) u(1) m(1)
    using i(2,3) u(2,3) m(2,3) store [OF i(2)] store [OF u(2)] store [OF m(2)] by blast
qed

theorem set_algebra_witness:
  "\<exists>out. sUnion 0 [''s'', ''s''] (snd (sAdd 0 ''s'' [''a''] (initSchema :: nat db))) = Inr out \<and> set out = {''a''}"
proof -
  let ?d = "snd (sAdd 0 ''s'' [''a''] (initSchema :: nat db))"
  have i: "set_type 0 ''s'' (initSchema :: nat db)" "set_fresh 0 ''s'' (initSchema :: nat db)"
    "memberSet 0 ''s'' (initSchema :: nat db) = {}"
    by (simp_all add: set_type_def readTypeCheck_def set_fresh_def initSchema_def memberSet_def
        liveMembers_def rows_of_def)
  have st: "set_type 0 ''s'' ?d" and ms: "memberSet 0 ''s'' ?d = {''a''}"
    using sAdd_refines(2,3) [OF i(1,2), of "[''a'']"] i(3) by simp_all
  then have "\<forall>k \<in> set (''s'' # [''s'']). set_type 0 k ?d" by simp
  from set_algebra [OF this, of "''x''", THEN conjunct2, THEN conjunct1]
  obtain out where "sUnion 0 [''s'', ''s''] ?d = Inr out"
    "set out = (\<Union>k \<in> set (''s'' # [''s'']). memberSet 0 k ?d)" by (elim exE conjE)
  then show ?thesis using ms by simp
qed

text \<open>
  Adding a member back to a set that has expired but has not been swept is
  lost: the stale row makes the insert a no-op, SADD reports 0 and the member
  is not visible afterwards.
\<close>

theorem sadd_lost_on_expired:
  assumes "((encodeKey key, m), Some t) \<in> set (kv_sets d)" and "t \<le> now" and "wf_db d"
    and "getKeyType now (encodeKey key) d = TypeNone"
  shows "fst (sAdd now key [m] d) = Inr 0 \<and> m \<notin> memberSet now key (snd (sAdd now key [m] d))"
proof -
  let ?k = "encodeKey key"
  have in': "(?k, m) \<in> fst ` set (kv_sets d)" using assms(1) by force
  have eq: "sAdd now key [m] d = (Inr 0, setMeta ?k TypeSet None d)"
    using assms(4) in' by (simp add: sAdd_def Let_def insertMembers_def)
  have "e = Some t" if "((?k, m), e) \<in> set (kv_sets d)" for e
    using that assms(1,3) by (auto simp: wf_db_def dest: eq_key_imp_eq_value)
  then have "\<not> live now e" if "((?k, m), e) \<in> set (kv_sets d)" for e
    using that assms(2) by fastforce
  then show ?thesis unfolding eq by (auto simp: in_memberSet)
qed

theorem sadd_lost_on_expired_witness:
  "fst (sAdd 10 ''s'' [''a''] ((initSchema :: nat db)\<lparr>kv_sets := [((encodeKey ''s'', ''a''), Some 5)],
      kv_meta := [(encodeKey ''s'', (TypeSet, Some 5))]\<rparr>)) = Inr 0"
proof -
  let ?d = "(initSchema :: nat db)\<lparr>kv_sets := [((encodeKey ''s'', ''a''), Some 5)],
      kv_meta := [(encodeKey ''s'', (TypeSet, Some 5))]\<rparr>"
  have "wf_db ?d" "getKeyType 10 (encodeKey ''s'') ?d = TypeNone"
    by (simp_all add: wf_db_def initSchema_def getKeyType_def)
  then show ?thesis using sadd_lost_on_expired [of "''s''" "''a''" 5 ?d 10] by simp
qed

end
