(* ===== verification/Hashes.thy ===== *)
theory Hashes
  imports Keyspace
begin

text \<open>
  The hash commands of \<^verbatim>\<open>queryOps\<close> in \<^verbatim>\<open>src/internal/storage/querier.go\<close>.  A Go
  \<^verbatim>\<open>map[string]string\<close> of fields is an association list with distinct keys, in
  the order \<^verbatim>\<open>range\<close> visits it.
\<close>

section \<open>Operations\<close>

text \<open>\<^verbatim>\<open>SELECT value FROM kv_hashes WHERE key = $1 AND field = $2 AND (live)\<close>\<close>

definition selectField :: "time \<Rightarrow> string \<Rightarrow> string \<Rightarrow> 's db \<Rightarrow> string option" where
  "selectField now key field d =
     (case map_of (kv_hashes d) (key, field) of
        Some (v, e) \<Rightarrow> if live now e then Some v else None
      | None \<Rightarrow> None)"

definition hGet :: "time \<Rightarrow> string \<Rightarrow> string \<Rightarrow> 's db \<Rightarrow> string option" where
  "hGet now key field d = selectField now (encodeKey key) (encodeField field) d"

text \<open>INSERT INTO kv_hashes, the conflict branch writing the value only.\<close>

definition upsertField :: "string \<Rightarrow> string \<Rightarrow> string \<Rightarrow> 's db \<Rightarrow> 's db" where
  "upsertField key field v d =
     d\<lparr>kv_hashes := (case map_of (kv_hashes d) (key, field) of
         Some (_, e) \<Rightarrow> AList.update (key, field) (v, e) (kv_hashes d)
       | None \<Rightarrow> AList.update (key, field) (v, None) (kv_hashes d))\<rparr>"

definition hSet :: "time \<Rightarrow> string \<Rightarrow> (string \<times> string) list \<Rightarrow> ('s, int) op" where
  "hSet now key flds d =
     (let key = encodeKey key
      in if flds = [] then (Inr 0, d)
         else let kt = getKeyType now key d
              in if kt \<noteq> TypeNone \<and> kt \<noteq> TypeHash then (Inl errWrongType, d)
                 else let new = map (\<lambda>(f, v). (encodeField f, v)) flds;
                          existing = length (filter (\<lambda>r. fst (fst r) = key \<and> snd (fst r) \<in> set (map fst new))
                                       (kv_hashes d));
                          d = setMeta key TypeHash None d
                      in if distinct (map fst new)
                         then (Inr (int (length flds) - int existing),
                               fold (\<lambda>(f, v). upsertField key f v) new d)
                         else (Inl errSecondTime, d))"

definition hDel :: "string \<Rightarrow> string list \<Rightarrow> 's db \<Rightarrow> int \<times> 's db" where
  "hDel key flds d =
     (let key = encodeKey key; enc = map encodeField flds;
          P = (\<lambda>r. fst (fst r) = key \<and> snd (fst r) \<in> set enc)
      in (int (length (filter P (kv_hashes d))), d\<lparr>kv_hashes := delete_rows P (kv_hashes d)\<rparr>))"

definition liveFields :: "time \<Rightarrow> string \<Rightarrow> 's db \<Rightarrow> (string \<times> string) list" where
  "liveFields now key d =
     map (\<lambda>r. (snd (fst r), fst (snd r))) (filter (\<lambda>r. live now (snd (snd r))) (rows_of key (kv_hashes d)))"

definition hGetAll :: "time \<Rightarrow> string \<Rightarrow> 's db \<Rightarrow> string + (string \<times> string) list" where
  "hGetAll now key d =
     (let key = encodeKey key
      in case readTypeCheck now key TypeHash d of
           Some e \<Rightarrow> Inl e
         | None \<Rightarrow> Inr (fold (\<lambda>(f, v) m. AList.update (decodeField f) v m) (liveFields now key d) []))"

definition hMGet :: "time \<Rightarrow> string \<Rightarrow> string list \<Rightarrow> 's db \<Rightarrow> string option list" where
  "hMGet now key flds d =
     (let enc = map encodeField flds;
          fieldValues = fold (\<lambda>(f, v) m. AList.update f v m)
            (filter (\<lambda>(f, v). f \<in> set enc) (liveFields now (encodeKey key) d)) []
      in map (\<lambda>f. map_of fieldValues (encodeField f)) flds)"

definition hExists :: "time \<Rightarrow> string \<Rightarrow> string \<Rightarrow> 's db \<Rightarrow> bool" where
  "hExists now key field d =
     (let n = length (filter (\<lambda>r. fst r = (encodeKey key, encodeField field) \<and> live now (snd (snd r))) (kv_hashes d))
      in n > 0)"

definition hKeys :: "time \<Rightarrow> string \<Rightarrow> 's db \<Rightarrow> string list" where
  "hKeys now key d = map (decodeField \<circ> fst) (liveFields now (encodeKey key) d)"

definition hVals :: "time \<Rightarrow> string \<Rightarrow> 's db \<Rightarrow> string list" where
  "hVals now key d = map snd (liveFields now (encodeKey key) d)"

definition hLen :: "time \<Rightarrow> string \<Rightarrow> 's db \<Rightarrow> int" where
  "hLen now key d = int (length (liveFields now (encodeKey key) d))"

definition hIncrBy :: "time \<Rightarrow> string \<Rightarrow> string \<Rightarrow> int \<Rightarrow> ('s, int) op" where
  "hIncrBy now key field increment d =
     (let key = encodeKey key; kt = getKeyType now key d
      in if kt \<noteq> TypeNone \<and> kt \<noteq> TypeHash then (Inl errWrongType, d)
         else let enc = encodeField field;
                  current = (case selectField now key enc d of None \<Rightarrow> Inr 0 | Some v \<Rightarrow> ParseInt v)
              in case current of
                   Inl _ \<Rightarrow> (Inl ''ERR hash value is not an integer'', d)
                 | Inr currentValue \<Rightarrow>
                     let newValue = wrap64 (currentValue + increment);
                         d = setMeta key TypeHash None d
                     in (Inr newValue, upsertField key enc (FormatInt newValue) d))"

definition hSetNX :: "time \<Rightarrow> string \<Rightarrow> string \<Rightarrow> string \<Rightarrow> ('s, bool) op" where
  "hSetNX now key field v d =
     (let key = encodeKey key; kt = getKeyType now key d
      in if kt \<noteq> TypeNone \<and> kt \<noteq> TypeHash then (Inl errWrongType, d)
         else let enc = encodeField field; d = setMeta key TypeHash None d
              in if (key, enc) \<in> fst ` set (kv_hashes d) then (Inr False, d)
                 else (Inr True, d\<lparr>kv_hashes := kv_hashes d @ [((key, enc), (v, None))]\<rparr>))"

section \<open>Lemmas\<close>

definition hash_type :: "time \<Rightarrow> string \<Rightarrow> 's db \<Rightarrow> bool" where
  "hash_type now key d =
     (getKeyType now (encodeKey key) d = TypeNone \<or> getKeyType now (encodeKey key) d = TypeHash)"

text \<open>No field row of the key is left over from an expired hash.\<close>

definition hash_fresh :: "time \<Rightarrow> string \<Rightarrow> 's db \<Rightarrow> bool" where
  "hash_fresh now key d = (\<forall>r \<in> set (kv_hashes d). fst (fst r) = encodeKey key \<longrightarrow> live now (snd (snd r)))"

lemma hash_fresh_map_of:
  "hash_fresh now key d \<Longrightarrow> map_of (kv_hashes d) (encodeKey key, f) = Some (v, e) \<Longrightarrow> live now e"
  by (fastforce simp: hash_fresh_def dest: map_of_SomeD)

lemma map_of_upsertField [table_simps]:
  "map_of (kv_hashes (upsertField key f v d)) p =
     (if p = (key, f) then Some (v, case map_of (kv_hashes d) (key, f) of Some (_, e) \<Rightarrow> e | None \<Rightarrow> None)
      else map_of (kv_hashes d) p)"
  by (auto simp: upsertField_def table_simps split: option.splits)

lemma touches_upsertField: "key \<in> K \<Longrightarrow> touches K d (upsertField key f v d)"
  by (auto simp: touches_def rows_def upsertField_def split: option.splits intro!: rows_of_update)

lemma wf_upsertField [simp]: "wf_db d \<Longrightarrow> wf_db (upsertField key f v d)"
  by (auto simp: wf_db_def upsertField_def split: option.splits)

lemma upsertField_meta [simp]: "kv_meta (upsertField key f v d) = kv_meta d"
  by (simp add: upsertField_def)

lemma fold_upsertField_map_of:
  "distinct (map fst new) \<Longrightarrow> map_of (kv_hashes (fold (\<lambda>(f, v). upsertField key f v) new d)) p =
     (case (if fst p = key then map_of new (snd p) else None) of
        Some v \<Rightarrow> Some (v, case map_of (kv_hashes d) p of Some (_, e) \<Rightarrow> e | None \<Rightarrow> None)
      | None \<Rightarrow> map_of (kv_hashes d) p)"
proof (induction new arbitrary: d)
  case (Cons fv new)
  obtain f v where fv: "fv = (f, v)" by fastforce
  have "f \<notin> fst ` set new" using Cons.prems fv by simp
  then have "map_of new f = None" by (simp add: map_of_eq_None_iff)
  moreover obtain k g where "p = (k, g)" by fastforce
  ultimately show ?case
    using Cons.IH [of "upsertField key f v d"] Cons.prems
    by (simp add: fv map_of_upsertField cong: option.case_cong)
qed (simp split: option.splits)

lemma fold_upsertField_props:
  "touches {key} d (fold (\<lambda>(f, v). upsertField key f v) new d)"
  "wf_db d \<Longrightarrow> wf_db (fold (\<lambda>(f, v). upsertField key f v) new d)"
  "kv_meta (fold (\<lambda>(f, v). upsertField key f v) new d) = kv_meta d"
  by (induction new arbitrary: d)
    (auto intro: touches_trans [OF touches_upsertField] simp: split_beta)

lemma touches_hSet [frame_simps]: "touches {encodeKey key} d (snd (hSet now key fs d))"
  by (auto simp: hSet_def Let_def touches_setMeta intro: touches_trans [OF touches_setMeta fold_upsertField_props(1)])

lemma wf_hSet [simp]: "wf_db d \<Longrightarrow> wf_db (snd (hSet now key fs d))"
  by (simp add: hSet_def Let_def fold_upsertField_props)

lemma hGet_frame:
  assumes "touches K d d'" "encodeKey k \<notin> K"
  shows "hGet now k f d' = hGet now k f d"
proof -
  have "rows_of (encodeKey k) (kv_hashes d') = rows_of (encodeKey k) (kv_hashes d)"
    using assms by (simp add: touches_def rows_def)
  then have "map_of (kv_hashes d') (encodeKey k, x) = map_of (kv_hashes d) (encodeKey k, x)" for x
    by (metis map_of_rows_of)
  then show ?thesis by (simp add: hGet_def selectField_def)
qed

text \<open>Fields outside the marker prefix are stored injectively.\<close>

lemma encodeField_inj:
  "\<not> HasPrefix f binaryPrefix \<Longrightarrow> \<not> HasPrefix g binaryPrefix \<Longrightarrow> encodeField f = encodeField g \<longleftrightarrow> f = g"
  by (metis decodeKey_encodeKey encodeField_encodeKey(1))

lemma hGet_iff:
  "hash_fresh now key d \<Longrightarrow> hGet now key f d = map_option fst (map_of (kv_hashes d) (encodeKey key, encodeField f))"
  by (auto simp: hGet_def selectField_def dest: hash_fresh_map_of split: option.splits)

lemma hGet_stored:
  "hash_fresh now key d \<Longrightarrow> hGet now key f d = None \<longleftrightarrow> (encodeKey key, encodeField f) \<notin> fst ` set (kv_hashes d)"
  by (simp add: hGet_iff map_of_eq_None_iff)

lemma field_rows_count:
  assumes "wf_db d"
  shows "length (filter (\<lambda>r. fst (fst r) = key \<and> snd (fst r) \<in> F) (kv_hashes d)) =
    card {f \<in> F. (key, f) \<in> fst ` set (kv_hashes d)}"
proof -
  let ?P = "\<lambda>r. fst (fst r) = key \<and> snd (fst r) \<in> F"
  have "filter ?P (kv_hashes d) = filter (\<lambda>r. snd (fst r) \<in> F) (rows_of key (kv_hashes d))"
    by (simp add: rows_of_def conj_commute)
  moreover have "distinct (map (snd \<circ> fst) (filter (\<lambda>r. snd (fst r) \<in> F) (rows_of key (kv_hashes d))))"
    using assms by (intro distinct_subkeys) (simp add: wf_db_def)
  ultimately have "length (filter ?P (kv_hashes d)) = card (set (map (snd \<circ> fst) (filter ?P (kv_hashes d))))"
    by (simp only: distinct_card length_map)
  also have "set (map (snd \<circ> fst) (filter ?P (kv_hashes d))) = {f \<in> F. (key, f) \<in> fst ` set (kv_hashes d)}"
    by force
  finally show ?thesis .
qed

lemma card_encodeField:
  assumes "\<forall>f \<in> F. \<not> HasPrefix f binaryPrefix"
  shows "card {e \<in> encodeField ` F. Q e} = card {f \<in> F. Q (encodeField f)}"
proof -
  have "{e \<in> encodeField ` F. Q e} = encodeField ` {f \<in> F. Q (encodeField f)}" by auto
  moreover have "inj_on encodeField {f \<in> F. Q (encodeField f)}"
    using assms encodeField_inj by (auto simp: inj_on_def)
  ultimately show ?thesis by (simp add: card_image)
qed

lemma map_of_encodeField:
  "\<forall>f \<in> insert g (fst ` set fs). \<not> HasPrefix f binaryPrefix \<Longrightarrow>
     map_of (map (\<lambda>(f, v). (encodeField f, v)) fs) (encodeField g) = map_of fs g"
  by (induction fs) (auto simp: encodeField_inj)

text \<open>HSET on a hash-typed (or absent) key with unambiguous field names, unfolded.\<close>

lemma hSet_unfold:
  assumes "hash_type now key d" "fs \<noteq> []" "distinct (map fst fs)"
    and "\<forall>f \<in> fst ` set fs. \<not> HasPrefix f binaryPrefix"
  defines "new \<equiv> map (\<lambda>(f, v). (encodeField f, v)) fs"
  shows "hSet now key fs d =
    (Inr (int (length fs) - int (length (filter (\<lambda>r. fst (fst r) = encodeKey key
         \<and> snd (fst r) \<in> encodeField ` fst ` set fs) (kv_hashes d)))),
     fold (\<lambda>(f, v). upsertField (encodeKey key) f v) new (setMeta (encodeKey key) TypeHash None d))"
    and "distinct (map fst new)"
proof -
  have fst_new: "map fst new = map encodeField (map fst fs)" by (simp add: new_def split_beta)
  have "inj_on encodeField (fst ` set fs)" using assms(4) encodeField_inj by (auto simp: inj_on_def)
  then show dist: "distinct (map fst new)" unfolding fst_new using assms(3) by (simp add: distinct_map comp_inj_on)
  have "set (map fst new) = encodeField ` fst ` set fs" unfolding fst_new by (simp add: image_image)
  then show "hSet now key fs d =
    (Inr (int (length fs) - int (length (filter (\<lambda>r. fst (fst r) = encodeKey key
         \<and> snd (fst r) \<in> encodeField ` fst ` set fs) (kv_hashes d)))),
     fold (\<lambda>(f, v). upsertField (encodeKey key) f v) new (setMeta (encodeKey key) TypeHash None d))"
    using assms(1,2) dist unfolding hSet_def Let_def new_def [symmetric] by (auto simp: hash_type_def)
qed

lemma hSet_refines:
  assumes "wf_db d" "hash_type now key d" "hash_fresh now key d" "fs \<noteq> []" "distinct (map fst fs)"
    and "\<forall>f \<in> fst ` set fs. \<not> HasPrefix f binaryPrefix"
  defines "d' \<equiv> snd (hSet now key fs d)"
  shows "fst (hSet now key fs d) = Inr (int (card {f \<in> fst ` set fs. hGet now key f d = None}))"
    and "\<not> HasPrefix g binaryPrefix \<Longrightarrow>
      hGet now key g d' = (case map_of fs g of Some v \<Rightarrow> Some v | None \<Rightarrow> hGet now key g d)"
    and "hash_fresh now key d'" and "hash_type now' key d'"
proof -
  note unf = hSet_unfold [OF assms(2,4-6)]
  let ?F = "fst ` set fs" and ?k = "encodeKey key"
  let ?S = "{f \<in> ?F. (?k, encodeField f) \<in> fst ` set (kv_hashes d)}"
  have cnt: "length (filter (\<lambda>r. fst (fst r) = ?k \<and> snd (fst r) \<in> encodeField ` ?F) (kv_hashes d)) = card ?S"
    using field_rows_count [OF assms(1)] card_encodeField [OF assms(6)] by simp
  have "?F - ?S = {f \<in> ?F. hGet now key f d = None}" using hGet_stored [OF assms(3)] by auto
  moreover have "card ?F = length fs" using assms(5) distinct_card [of "map fst fs"] by simp
  moreover have "finite ?F" "?S \<subseteq> ?F" by auto
  ultimately have "int (length fs) - int (card ?S) = int (card {f \<in> ?F. hGet now key f d = None})"
    using card_Diff_subset [of ?S ?F] card_mono [of ?F ?S] finite_subset [of ?S ?F] by (simp add: of_nat_diff)
  then show "fst (hSet now key fs d) = Inr (int (card {f \<in> ?F. hGet now key f d = None}))"
    unfolding unf(1) cnt by simp
  have tab: "map_of (kv_hashes d') (?k, e) = (case map_of (map (\<lambda>(f, v). (encodeField f, v)) fs) e of
      Some v \<Rightarrow> Some (v, case map_of (kv_hashes d) (?k, e) of Some (_, e) \<Rightarrow> e | None \<Rightarrow> None)
    | None \<Rightarrow> map_of (kv_hashes d) (?k, e))" for e
    unfolding d'_def unf(1) snd_conv fold_upsertField_map_of [OF unf(2)] setMeta_select by simp
  have "pk_distinct (kv_hashes d')" using wf_hSet [OF assms(1)] unfolding d'_def wf_db_def by blast
  note pk = this
  show fresh: "hash_fresh now key d'"
    unfolding hash_fresh_def
  proof (intro ballI impI)
    fix r assume r: "r \<in> set (kv_hashes d')" "fst (fst r) = ?k"
    then obtain f v e where req: "r = ((?k, f), (v, e))" by (metis prod.collapse)
    then have "map_of (kv_hashes d') (?k, f) = Some (v, e)" using pk r by simp
    then show "live now (snd (snd r))"
      using tab [of f] hash_fresh_map_of [OF assms(3)] by (auto simp: req split: option.splits)
  qed
  show "hGet now key g d' = (case map_of fs g of Some v \<Rightarrow> Some v | None \<Rightarrow> hGet now key g d)"
    if "\<not> HasPrefix g binaryPrefix"
    using map_of_encodeField [of g fs] assms(6) that
    by (simp add: hGet_iff [OF fresh] hGet_iff [OF assms(3)] tab split: option.splits)
  show "hash_type now' key d'"
    by (simp add: d'_def unf(1) hash_type_def getKeyType_def fold_upsertField_props table_simps)
qed

lemma hDel_refines:
  assumes "wf_db d" "hash_fresh now key d" "\<forall>f \<in> set fs. \<not> HasPrefix f binaryPrefix"
  defines "d' \<equiv> snd (hDel key fs d)"
  shows "fst (hDel key fs d) = int (card {f \<in> set fs. hGet now key f d \<noteq> None})"
    and "\<not> HasPrefix g binaryPrefix \<Longrightarrow> hGet now key g d' = (if g \<in> set fs then None else hGet now key g d)"
    and "touches {encodeKey key} d d'" and "wf_db d'"
proof -
  let ?P = "\<lambda>r. fst (fst r) = encodeKey key \<and> snd (fst r) \<in> encodeField ` set fs"
  show "fst (hDel key fs d) = int (card {f \<in> set fs. hGet now key f d \<noteq> None})"
    using field_rows_count [OF assms(1)] card_encodeField [OF assms(3)] hGet_stored [OF assms(2)]
    by (simp add: hDel_def Let_def)
  have d': "d' = d\<lparr>kv_hashes := delete_rows ?P (kv_hashes d)\<rparr>" by (simp add: d'_def hDel_def Let_def)
  have tab: "map_of (delete_rows ?P (kv_hashes d)) (encodeKey key, e) =
      (if e \<in> encodeField ` set fs then None else map_of (kv_hashes d) (encodeKey key, e))" for e
    using map_of_delete_rows_key [of "\<lambda>p. fst p = encodeKey key \<and> snd p \<in> encodeField ` set fs"
      "kv_hashes d" "(encodeKey key, e)"] by simp
  show "hGet now key g d' = (if g \<in> set fs then None else hGet now key g d)" if "\<not> HasPrefix g binaryPrefix"
    using that assms(3) encodeField_inj by (auto simp: hGet_def selectField_def d' tab)
  show "touches {encodeKey key} d d'"
    by (auto simp: d' touches_def rows_def intro!: rows_of_delete_rows)
  show "wf_db d'" using assms(1) by (simp add: d' wf_db_def)
qed

lemma hIncrBy_refines:
  fixes inc :: int
  assumes "hash_type now key d" "hash_fresh now key d"
    and "(case hGet now key f d of Some v \<Rightarrow> ParseInt v | None \<Rightarrow> Inr 0) = Inr n"
  defines "d' \<equiv> snd (hIncrBy now key f inc d)"
  shows "fst (hIncrBy now key f inc d) = Inr (wrap64 (n + inc))"
    and "hGet now key f d' = Some (FormatInt (wrap64 (n + inc)))"
    and "\<not> HasPrefix f binaryPrefix \<Longrightarrow> \<not> HasPrefix g binaryPrefix \<Longrightarrow> g \<noteq> f \<Longrightarrow> hGet now key g d' = hGet now key g d"
    and "touches {encodeKey key} d d'"
proof -
  let ?k = "encodeKey key" and ?f = "encodeField f"
  let ?d = "upsertField ?k ?f (FormatInt (wrap64 (n + inc))) (setMeta ?k TypeHash None d)"
  have "(case selectField now ?k ?f d of None \<Rightarrow> Inr 0 | Some v \<Rightarrow> ParseInt v) = Inr n"
    using assms(3) by (simp add: hGet_def split: option.splits)
  then have eq: "hIncrBy now key f inc d = (Inr (wrap64 (n + inc)), ?d)"
    using assms(1) by (auto simp: hIncrBy_def Let_def hash_type_def)
  then show "fst (hIncrBy now key f inc d) = Inr (wrap64 (n + inc))" by simp
  have d': "d' = ?d" by (simp add: d'_def eq)
  show "hGet now key f d' = Some (FormatInt (wrap64 (n + inc)))"
    using hash_fresh_map_of [OF assms(2)]
    by (auto simp: hGet_def selectField_def d' map_of_upsertField split: option.splits)
  show "hGet now key g d' = hGet now key g d"
    if "\<not> HasPrefix f binaryPrefix" "\<not> HasPrefix g binaryPrefix" "g \<noteq> f"
    using encodeField_inj [OF that(1,2)] that(3)
    by (auto simp: hGet_def selectField_def d' map_of_upsertField)
  show "touches {?k} d d'" unfolding d' by (intro touches_trans [OF touches_setMeta touches_upsertField]) simp_all
qed

subsection \<open>Whole-hash reads\<close>

lemma fold_update_map_of:
  "distinct (map (g \<circ> fst) xs) \<Longrightarrow>
     map_of (fold (\<lambda>(f, v) m. AList.update (g f) v m) xs acc) x =
       (case map_of (map (\<lambda>(f, v). (g f, v)) xs) x of Some v \<Rightarrow> Some v | None \<Rightarrow> map_of acc x)"
proof (induction xs arbitrary: acc)
  case (Cons fv xs)
  obtain f v where fv: "fv = (f, v)" by fastforce
  have "g f \<notin> fst ` set (map (\<lambda>(f, v). (g f, v)) xs)" using Cons.prems by (force simp: fv)
  then have "map_of (map (\<lambda>(f, v). (g f, v)) xs) (g f) = None" by (simp only: map_of_eq_None_iff not_False_eq_True)
  with Cons show ?case by (auto simp: fv table_simps split: option.splits)
qed simp

lemma liveFields_distinct: "wf_db d \<Longrightarrow> distinct (map fst (liveFields now key d))"
  using distinct_subkeys [of "kv_hashes d" "\<lambda>r. live now (snd (snd r))" key]
  by (simp add: liveFields_def wf_db_def comp_def)

lemma liveFields_selectField:
  assumes "wf_db d"
  shows "map_of (liveFields now key d) f = selectField now key f d"
proof -
  have pk: "pk_distinct (kv_hashes d)" using assms by (simp add: wf_db_def)
  have "map_of (liveFields now key d) f = Some v \<longleftrightarrow> selectField now key f d = Some v" for v
  proof -
    have "map_of (liveFields now key d) f = Some v \<longleftrightarrow> (f, v) \<in> set (liveFields now key d)"
      using liveFields_distinct [OF assms] by simp
    also have "\<dots> \<longleftrightarrow> (\<exists>e. ((key, f), (v, e)) \<in> set (kv_hashes d) \<and> live now e)"
      by (force simp: liveFields_def)
    also have "\<dots> \<longleftrightarrow> (\<exists>e. map_of (kv_hashes d) (key, f) = Some (v, e) \<and> live now e)"
      using pk by simp
    also have "\<dots> \<longleftrightarrow> selectField now key f d = Some v"
      by (auto simp: selectField_def split: option.splits)
    finally show ?thesis .
  qed
  then show ?thesis by (metis not_None_eq)
qed

lemma map_of_filter_fst: "map_of (filter (\<lambda>(f, v). f \<in> F) xs) x = (if x \<in> F then map_of xs x else None)"
  by (induction xs) auto

text \<open>Every stored field of the key was written through encodeField from a field without the marker prefix.\<close>

definition fields_decodable :: "string \<Rightarrow> 's db \<Rightarrow> bool" where
  "fields_decodable key d =
     (\<forall>r \<in> set (kv_hashes d). fst (fst r) = encodeKey key \<longrightarrow> encodeField (decodeField (snd (fst r))) = snd (fst r))"

lemma hGetAll_refines:
  assumes "wf_db d" "readTypeCheck now (encodeKey key) TypeHash d = None" "fields_decodable key d"
  shows "\<exists>m. hGetAll now key d = Inr m \<and> (\<forall>f. \<not> HasPrefix f binaryPrefix \<longrightarrow> map_of m f = hGet now key f d)"
proof -
  let ?L = "liveFields now (encodeKey key) d"
  have enc: "encodeField (decodeField e) = e" if "(e, v) \<in> set ?L" for e v
    using assms(3) that by (fastforce simp: fields_decodable_def liveFields_def)
  then have "inj_on decodeField (set (map fst ?L))" by (intro inj_on_inverseI [of _ encodeField]) auto
  then have dist: "distinct (map (decodeField \<circ> fst) ?L)"
    using liveFields_distinct [OF assms(1)] by (simp add: distinct_map comp_inj_on)
  have "map_of (map (\<lambda>(e, v). (decodeField e, v)) L) f = map_of L (encodeField f)"
    if "set L \<subseteq> set ?L" "\<not> HasPrefix f binaryPrefix" for L f
    using that
  proof (induction L)
    case (Cons ev L)
    obtain e v where ev: "ev = (e, v)" by fastforce
    have "decodeField e = f \<longleftrightarrow> e = encodeField f"
      using enc [of e v] Cons.prems decodeKey_encodeKey [of f] by (auto simp: ev encodeField_encodeKey)
    with Cons show ?case by (auto simp: ev)
  qed simp
  then have "map_of (fold (\<lambda>(f, v) m. AList.update (decodeField f) v m) ?L []) f = hGet now key f d"
    if "\<not> HasPrefix f binaryPrefix" for f
    using that liveFields_selectField [OF assms(1)]
    by (simp add: fold_update_map_of [OF dist] hGet_def split: option.splits)
  then show ?thesis using assms(2) by (simp add: hGetAll_def Let_def)
qed

lemma hMGet_refines: "wf_db d \<Longrightarrow> hMGet now key fs d = map (\<lambda>f. hGet now key f d) fs"
proof -
  assume wf: "wf_db d"
  let ?L = "filter (\<lambda>(f, v). f \<in> set (map encodeField fs)) (liveFields now (encodeKey key) d)"
  have "distinct (map ((\<lambda>f. f) \<circ> fst) ?L)"
    using liveFields_distinct [OF wf, of now "encodeKey key"] by (simp add: comp_def distinct_map_filter)
  from fold_update_map_of [OF this, of "[]"]
  have "map_of (fold (\<lambda>(f, v) m. AList.update f v m) ?L []) x = map_of ?L x" for x
    by (simp split: option.splits)
  then show ?thesis
    by (simp add: hMGet_def Let_def map_of_filter_fst liveFields_selectField [OF wf] hGet_def)
qed

lemma hExists_refines: "wf_db d \<Longrightarrow> hExists now key f d = (hGet now key f d \<noteq> None)"
proof -
  assume "wf_db d"
  then have pk: "pk_distinct (kv_hashes d)" by (simp add: wf_db_def)
  have "hExists now key f d \<longleftrightarrow> (\<exists>v e. ((encodeKey key, encodeField f), (v, e)) \<in> set (kv_hashes d) \<and> live now e)"
    by (force simp: hExists_def filter_empty_conv)
  also have "\<dots> \<longleftrightarrow> (\<exists>v e. map_of (kv_hashes d) (encodeKey key, encodeField f) = Some (v, e) \<and> live now e)"
    unfolding map_of_eq_Some_iff [OF pk] ..
  also have "\<dots> \<longleftrightarrow> hGet now key f d \<noteq> None"
    by (auto simp: hGet_def selectField_def split: option.splits)
  finally show ?thesis .
qed

lemma hLen_hVals:
  "hLen now key d = int (length (hKeys now key d))" "length (hVals now key d) = length (hKeys now key d)"
  by (simp_all add: hLen_def hKeys_def hVals_def)

section \<open>Properties\<close>



text \<open>
  HINCRBY adds to the integer stored in the field (0 when absent) with 64-bit
  wrap-around, stores the decimal of what it answers, and leaves the other fields
  and keys alone; a value that is not an integer is refused without a write.
\<close>

theorem hincrby_correct:
  assumes "hash_type now key d" "hash_fresh now key d"
  shows "(\<forall>n. (case hGet now key f d of Some v \<Rightarrow> ParseInt v | None \<Rightarrow> Inr 0) = Inr n \<longrightarrow>
      fst (hIncrBy now key f inc d) = Inr (wrap64 (n + inc))
      \<and> hGet now key f (snd (hIncrBy now key f inc d)) = Some (FormatInt (wrap64 (n + inc)))
      \<and> (\<not> HasPrefix f binaryPrefix \<and> \<not> HasPrefix g binaryPrefix \<and> g \<noteq> f \<longrightarrow>
           hGet now key g (snd (hIncrBy now key f inc d)) = hGet now key g d)
      \<and> touches {encodeKey key} d (snd (hIncrBy now key f inc d)))
    \<and> (\<forall>v e. hGet now key f d = Some v \<and> ParseInt v = Inl e \<longrightarrow>
      hIncrBy now key f inc d = (Inl ''ERR hash value is not an integer'', d))"
proof (intro conjI allI impI)
  fix v e assume "hGet now key f d = Some v \<and> ParseInt v = Inl e"
  then show "hIncrBy now key f inc d = (Inl ''ERR hash value is not an integer'', d)"
    using assms(1) by (auto simp: hIncrBy_def Let_def hash_type_def hGet_def)
qed (simp_all add: hIncrBy_refines [OF assms])

theorem hincrby_correct_witness:
  "fst (hIncrBy 0 ''h'' ''n'' 7 (initSchema :: nat db)) = Inr 7
   \<and> hGet 0 ''h'' ''n'' (snd (hIncrBy 0 ''h'' ''n'' 7 (initSchema :: nat db))) = Some (FormatInt 7)"
proof -
  have "hash_type 0 ''h'' (initSchema :: nat db)" "hash_fresh 0 ''h'' (initSchema :: nat db)"
    "hGet 0 ''h'' ''n'' (initSchema :: nat db) = None"
    by (simp_all add: hash_type_def hash_fresh_def getKeyType_def initSchema_def hGet_def selectField_def)
  with hincrby_correct [OF this(1,2), of "''n''" 7 "''m''"] show ?thesis by (simp add: wrap64_def)
qed

text \<open>
  The read commands agree: HMGET is HGET of each field, HEXISTS tells whether
  HGET finds the field, HLEN counts what HKEYS and HVALS list, and the map HGETALL
  answers maps each field to what HGET reads.
\<close>

theorem hash_reads_agree:
  assumes "wf_db d" "readTypeCheck now (encodeKey key) TypeHash d = None" "fields_decodable key d"
  shows "hMGet now key fs d = map (\<lambda>f. hGet now key f d) fs
    \<and> hExists now key f d = (hGet now key f d \<noteq> None)
    \<and> hLen now key d = int (length (hKeys now key d)) \<and> length (hVals now key d) = length (hKeys now key d)
    \<and> (\<exists>m. hGetAll now key d = Inr m \<and> (\<forall>f. \<not> HasPrefix f binaryPrefix \<longrightarrow> map_of m f = hGet now key f d))"
  using hMGet_refines [OF assms(1)] hExists_refines [OF assms(1)] hLen_hVals hGetAll_refines [OF assms]
  by blast

theorem hash_reads_agree_witness:
  "let d = (initSchema :: nat db)\<lparr>kv_hashes := [((''h'', ''a''), (''1'', None)), ((''h'', ''b''), (''2'', Some 5))]\<rparr>
   in hMGet 9 ''h'' [''a'', ''b''] d = [Some ''1'', None] \<and> (\<exists>m. hGetAll 9 ''h'' d = Inr m \<and> map_of m ''a'' = Some ''1'')"
proof -
  let ?d = "(initSchema :: nat db)\<lparr>kv_hashes := [((''h'', ''a''), (''1'', None)), ((''h'', ''b''), (''2'', Some 5))]\<rparr>"
  have enc: "encodeKey ''h'' = ''h''" "encodeField ''a'' = ''a''" "encodeField ''b'' = ''b''"
    "decodeField ''a'' = ''a''" "decodeField ''b'' = ''b''"
    by (simp_all add: encodeKey_def encodeField_def decodeField_def binaryPrefix_def ValidString_ascii in_range_def)
  have "hGet 9 ''h'' ''a'' ?d = Some ''1''" "hGet 9 ''h'' ''b'' ?d = None"
    by (simp_all add: hGet_def selectField_def enc)
  moreover have "wf_db ?d" "readTypeCheck 9 (encodeKey ''h'') TypeHash ?d = None" "fields_decodable ''h'' ?d"
    by (simp_all add: wf_db_def initSchema_def readTypeCheck_def fields_decodable_def enc)
  note hash_reads_agree [OF this, of "[''a'', ''b'']" "''a''"]
  ultimately show ?thesis by (auto simp: Let_def binaryPrefix_def)
qed

end
