(* ===== verification/ZSets.thy ===== *)
theory ZSets
  imports Keyspace Glob "HOL-Library.Product_Lexorder" "HOL-Library.Multiset"
begin

text \<open>
  The sorted-set commands of \<^verbatim>\<open>queryOps\<close> in \<^verbatim>\<open>src/internal/storage/querier.go\<close>.
  A \<^verbatim>\<open>ZMember\<close> is the pair of its member and its score.  Scores are values of a
  linearly ordered type with the operations the code applies to them (the double
  precision order of PostgreSQL is total); nothing is assumed about the
  arithmetic.  Members are compared byte-wise, as bytea is.
\<close>

section \<open>Data\<close>

type_synonym 's ZMember = "string \<times> 's"

record ZAddOptions =
  zNX :: bool
  zXX :: bool
  zGT :: bool
  zLT :: bool
  zCH :: bool

record LexBound =
  lexValue :: string
  lexInclusive :: bool
  lexInfinity :: int

datatype ZRangeStoreBy = ZRangeByIndex | ZRangeByScore | ZRangeByLex

record 's ZRangeStoreSpec =
  sBy :: ZRangeStoreBy
  sRev :: bool
  sStart :: int
  sStop :: int
  sMinScore :: 's
  sMaxScore :: 's
  sMinLex :: LexBound
  sMaxLex :: LexBound
  sOffset :: int
  sCount :: int

type_synonym 's zset_row = "(string \<times> string) \<times> ('s \<times> time option)"

definition zmember :: "'s zset_row \<Rightarrow> 's ZMember" where
  "zmember r = (snd (fst r), fst (snd r))"

text \<open>
  The live rows of a key in \<^verbatim>\<open>ORDER BY score ASC, member ASC\<close>; members are unique
  within a key, so the descending order is the reverse.
\<close>

definition zLive :: "time \<Rightarrow> string \<Rightarrow> 's db \<Rightarrow> 's ZMember list" where
  "zLive now key d = map zmember (filter (\<lambda>r. live now (snd (snd r))) (rows_of key (kv_zsets d)))"

definition zSorted :: "time \<Rightarrow> string \<Rightarrow> ('s :: linorder) db \<Rightarrow> 's ZMember list" where
  "zSorted now key d = sort_key (\<lambda>(m, s). (s, m)) (zLive now key d)"

definition zOrdered :: "bool \<Rightarrow> time \<Rightarrow> string \<Rightarrow> ('s :: linorder) db \<Rightarrow> 's ZMember list" where
  "zOrdered desc now key d = (if desc then rev (zSorted now key d) else zSorted now key d)"

text \<open>LIMIT and OFFSET: PostgreSQL refuses a negative count in either.\<close>

definition errNegLimit :: string where
  "errNegLimit = ''ERROR: LIMIT must not be negative (SQLSTATE 2201W)''"

definition errNegOffset :: string where
  "errNegOffset = ''ERROR: OFFSET must not be negative (SQLSTATE 2201X)''"

definition sqlLimit :: "int \<Rightarrow> int \<Rightarrow> 'a list \<Rightarrow> string + 'a list" where
  "sqlLimit limit offset xs =
     (if offset < 0 then Inl errNegOffset
      else if limit < 0 then Inl errNegLimit
      else Inr (take (nat limit) (drop (nat offset) xs)))"

section \<open>Operations\<close>

text \<open>The per-member loop of \<^verbatim>\<open>zAdd\<close>; the state is (added, changed, database).\<close>

definition zAdd_step :: "ZAddOptions \<Rightarrow> string \<Rightarrow> ('s :: linorder) ZMember \<Rightarrow> int \<times> int \<times> 's db \<Rightarrow> int \<times> int \<times> 's db" where
  "zAdd_step opts key = (\<lambda>(m, score) (added, changed, d).
     case map_of (kv_zsets d) (key, m) of
       Some (oldScore, e) \<Rightarrow>
         if zNX opts then (added, changed, d)
         else if zGT opts \<and> score \<le> oldScore then (added, changed, d)
         else if zLT opts \<and> score \<ge> oldScore then (added, changed, d)
         else if score = oldScore then (added, changed, d)
         else (added, changed + 1,
               d\<lparr>kv_zsets := update_rows (\<lambda>r. fst r = (key, m)) (\<lambda>(_, e). (score, e)) (kv_zsets d)\<rparr>)
     | None \<Rightarrow>
         if zXX opts then (added, changed, d)
         else (added + 1, changed, d\<lparr>kv_zsets := kv_zsets d @ [((key, m), (score, None))]\<rparr>))"

definition zAdd :: "time \<Rightarrow> string \<Rightarrow> ('s :: linorder) ZMember list \<Rightarrow> ZAddOptions \<Rightarrow> ('s, int) op" where
  "zAdd now key members opts d =
     (let key = encodeKey key; kt = getKeyType now key d
      in if kt \<noteq> TypeNone \<and> kt \<noteq> TypeZSet then (Inl errWrongType, d)
         else if kt = TypeNone \<and> zXX opts then (Inr 0, d)
         else let d = setMeta key TypeZSet None d;
                  (added, changed, d) = fold (zAdd_step opts key) members (0, 0, d)
              in (Inr (if zCH opts then added + changed else added), d))"

definition zBounds :: "int \<Rightarrow> int \<Rightarrow> int \<Rightarrow> int \<times> int" where
  "zBounds tot start stop =
     (max (if start < 0 then tot + start else start) 0,
      min (if stop < 0 then tot + stop else stop) (tot - 1))"

text \<open>The bounds expression shared by \<^verbatim>\<open>zRange\<close>, \<^verbatim>\<open>zRevRange\<close> and \<^verbatim>\<open>zRangeStore\<close>.\<close>

definition zIndexRange :: "bool \<Rightarrow> time \<Rightarrow> string \<Rightarrow> int \<Rightarrow> int \<Rightarrow> ('s :: linorder) db \<Rightarrow> 's ZMember list" where
  "zIndexRange desc now key start stop d =
     (let tot = int (length (zLive now key d)); (start_pos, stop_pos) = zBounds tot start stop
      in if tot > 0 \<and> start_pos \<le> stop_pos
         then take (nat (max (stop_pos - start_pos + 1) 0)) (drop (nat start_pos) (zOrdered desc now key d))
         else [])"

definition zRange :: "time \<Rightarrow> string \<Rightarrow> int \<Rightarrow> int \<Rightarrow> ('s :: linorder) db \<Rightarrow> 's ZMember list" where
  "zRange now key start stop d = zIndexRange False now (encodeKey key) start stop d"

definition zRevRange :: "time \<Rightarrow> string \<Rightarrow> int \<Rightarrow> int \<Rightarrow> ('s :: linorder) db \<Rightarrow> 's ZMember list" where
  "zRevRange now key start stop d = zIndexRange True now (encodeKey key) start stop d"

definition zScore :: "time \<Rightarrow> string \<Rightarrow> string \<Rightarrow> 's db \<Rightarrow> 's option" where
  "zScore now key member d =
     (case map_of (kv_zsets d) (encodeKey key, member) of
        Some (s, e) \<Rightarrow> if live now e then Some s else None
      | None \<Rightarrow> None)"

definition deleteZMembers :: "string \<Rightarrow> string list \<Rightarrow> 's db \<Rightarrow> 's db" where
  "deleteZMembers key members d =
     d\<lparr>kv_zsets := delete_rows (\<lambda>r. fst (fst r) = key \<and> snd (fst r) \<in> set members) (kv_zsets d)\<rparr>"

definition zRem :: "string \<Rightarrow> string list \<Rightarrow> 's db \<Rightarrow> int \<times> 's db" where
  "zRem key members d =
     (let key = encodeKey key
      in (int (length (filter (\<lambda>r. fst (fst r) = key \<and> snd (fst r) \<in> set members) (kv_zsets d))),
          deleteZMembers key members d))"

definition zCard :: "time \<Rightarrow> string \<Rightarrow> 's db \<Rightarrow> int" where
  "zCard now key d = int (length (zLive now (encodeKey key) d))"

definition zScoreRange :: "bool \<Rightarrow> time \<Rightarrow> string \<Rightarrow> 's \<Rightarrow> 's \<Rightarrow> int \<Rightarrow> int \<Rightarrow> ('s :: linorder) db \<Rightarrow> string + 's ZMember list" where
  "zScoreRange desc now key minS maxS offset cnt d =
     (let rs = filter (\<lambda>(m, s). s \<ge> minS \<and> s \<le> maxS) (zOrdered desc now key d)
      in if cnt > 0 then sqlLimit cnt offset rs else Inr rs)"

definition zRangeByScore :: "time \<Rightarrow> string \<Rightarrow> 's \<Rightarrow> 's \<Rightarrow> int \<Rightarrow> int \<Rightarrow> ('s :: linorder) db \<Rightarrow> string + 's ZMember list" where
  "zRangeByScore now key minS maxS offset cnt d = zScoreRange False now (encodeKey key) minS maxS offset cnt d"

definition zRevRangeByScore :: "time \<Rightarrow> string \<Rightarrow> 's \<Rightarrow> 's \<Rightarrow> int \<Rightarrow> int \<Rightarrow> ('s :: linorder) db \<Rightarrow> string + 's ZMember list" where
  "zRevRangeByScore now key minS maxS offset cnt d = zScoreRange True now (encodeKey key) minS maxS offset cnt d"

text \<open>The condition \<^verbatim>\<open>lexBoundClause\<close> writes into the WHERE clause.\<close>

definition lexBoundClause :: "LexBound \<Rightarrow> bool \<Rightarrow> string \<Rightarrow> bool" where
  "lexBoundClause b isLower member =
     (if isLower \<and> lexInfinity b = -1 then True
      else if isLower \<and> lexInfinity b = 1 then False
      else if \<not> isLower \<and> lexInfinity b = 1 then True
      else if \<not> isLower \<and> lexInfinity b = -1 then False
      else if isLower then (if lexInclusive b then member \<ge> lexValue b else member > lexValue b)
      else (if lexInclusive b then member \<le> lexValue b else member < lexValue b))"

definition buildLexWhere :: "LexBound \<Rightarrow> LexBound \<Rightarrow> string \<Rightarrow> bool" where
  "buildLexWhere minL maxL member = (lexBoundClause minL True member \<and> lexBoundClause maxL False member)"

definition zLexMembers :: "bool \<Rightarrow> time \<Rightarrow> string \<Rightarrow> LexBound \<Rightarrow> LexBound \<Rightarrow> 's db \<Rightarrow> 's ZMember list" where
  "zLexMembers desc now key minL maxL d =
     (let rs = sort_key fst (filter (\<lambda>(m, s). buildLexWhere minL maxL m) (zLive now key d))
      in if desc then rev rs else rs)"

definition zLexRange :: "bool \<Rightarrow> time \<Rightarrow> string \<Rightarrow> LexBound \<Rightarrow> LexBound \<Rightarrow> int \<Rightarrow> int \<Rightarrow> 's db \<Rightarrow> string + string list" where
  "zLexRange desc now key minL maxL offset cnt d =
     (let ms = map fst (zLexMembers desc now key minL maxL d)
      in if cnt > 0 then sqlLimit cnt offset ms
         else if offset > 0 then Inr (drop (nat offset) ms)
         else Inr ms)"

definition zRangeByLex :: "time \<Rightarrow> string \<Rightarrow> LexBound \<Rightarrow> LexBound \<Rightarrow> int \<Rightarrow> int \<Rightarrow> 's db \<Rightarrow> string + string list" where
  "zRangeByLex now key minL maxL offset cnt d = zLexRange False now (encodeKey key) minL maxL offset cnt d"

definition zRevRangeByLex :: "time \<Rightarrow> string \<Rightarrow> LexBound \<Rightarrow> LexBound \<Rightarrow> int \<Rightarrow> int \<Rightarrow> 's db \<Rightarrow> string + string list" where
  "zRevRangeByLex now key minL maxL offset cnt d = zLexRange True now (encodeKey key) minL maxL offset cnt d"

definition zLexCount :: "time \<Rightarrow> string \<Rightarrow> LexBound \<Rightarrow> LexBound \<Rightarrow> 's db \<Rightarrow> int" where
  "zLexCount now key minL maxL d =
     int (length (filter (\<lambda>(m, s). buildLexWhere minL maxL m) (zLive now (encodeKey key) d)))"

text \<open>The source SELECT of \<^verbatim>\<open>zRangeStore\<close>.\<close>

definition zStoreQuery :: "time \<Rightarrow> string \<Rightarrow> ('s :: linorder) ZRangeStoreSpec \<Rightarrow> 's db \<Rightarrow> string + 's ZMember list" where
  "zStoreQuery now src spec d =
     (case sBy spec of
        ZRangeByIndex \<Rightarrow> Inr (zIndexRange (sRev spec) now src (sStart spec) (sStop spec) d)
      | ZRangeByScore \<Rightarrow>
          zScoreRange (sRev spec) now src (sMinScore spec) (sMaxScore spec) (sOffset spec) (sCount spec) d
      | ZRangeByLex \<Rightarrow>
          (let rs = zLexMembers (sRev spec) now src (sMinLex spec) (sMaxLex spec) d
           in if sCount spec > 0 then sqlLimit (sCount spec) (sOffset spec) rs else Inr rs))"

text \<open>The destination is dropped before the query of the source runs.\<close>

definition zRangeStore :: "time \<Rightarrow> string \<Rightarrow> string \<Rightarrow> ('s :: linorder) ZRangeStoreSpec \<Rightarrow> ('s, int) op" where
  "zRangeStore now dst src spec d =
     (let srcEnc = encodeKey src; dstEnc = encodeKey dst;
          d = deleteKeyFromAllTables dstEnc d
      in case zStoreQuery now srcEnc spec d of
           Inl e \<Rightarrow> (Inl e, d)
         | Inr ms \<Rightarrow>
             let d = d\<lparr>kv_zsets := kv_zsets d @ map (\<lambda>(m, s). ((dstEnc, m), (s, None))) ms\<rparr>;
                 n = int (length ms)
             in (Inr n, if n > 0 then setMeta dstEnc TypeZSet None d else d))"

definition zRemRangeByScore :: "string \<Rightarrow> 's \<Rightarrow> 's \<Rightarrow> ('s :: linorder) db \<Rightarrow> int \<times> 's db" where
  "zRemRangeByScore key minS maxS d =
     (let key = encodeKey key;
          P = (\<lambda>r. fst (fst r) = key \<and> fst (snd r) \<ge> minS \<and> fst (snd r) \<le> maxS)
      in (int (length (filter P (kv_zsets d))), d\<lparr>kv_zsets := delete_rows P (kv_zsets d)\<rparr>))"

definition zRemRangeByRank :: "time \<Rightarrow> string \<Rightarrow> int \<Rightarrow> int \<Rightarrow> ('s :: linorder) db \<Rightarrow> int \<times> 's db" where
  "zRemRangeByRank now key start stop d =
     (let key = encodeKey key; d = lockKey key d;
          cnt = int (length (zLive now key d));
          start = (if start < 0 then cnt + start else start);
          stop = (if stop < 0 then cnt + stop else stop);
          start = (if start < 0 then 0 else start);
          stop = (if stop \<ge> cnt then cnt - 1 else stop)
      in if start > stop \<or> start \<ge> cnt then (0, d)
         else let ms = map fst (take (nat (stop - start + 1)) (drop (nat start) (zSorted now key d)))
              in (int (length (filter (\<lambda>r. fst (fst r) = key \<and> snd (fst r) \<in> set ms) (kv_zsets d))),
                  deleteZMembers key ms d))"

definition zIncrBy :: "string \<Rightarrow> 's \<Rightarrow> string \<Rightarrow> ('s :: plus) db \<Rightarrow> 's \<times> 's db" where
  "zIncrBy key increment member d =
     (let key = encodeKey key; d = lockKey key d;
          d = (if map_of (kv_meta d) key = None
               then d\<lparr>kv_meta := kv_meta d @ [(key, (TypeZSet, None))]\<rparr> else d)
      in case map_of (kv_zsets d) (key, member) of
           Some (score, e) \<Rightarrow>
             (score + increment, d\<lparr>kv_zsets := AList.update (key, member) (score + increment, e) (kv_zsets d)\<rparr>)
         | None \<Rightarrow>
             (increment, d\<lparr>kv_zsets := AList.update (key, member) (increment, None) (kv_zsets d)\<rparr>))"

text \<open>\<^verbatim>\<open>zPopMin\<close> and \<^verbatim>\<open>zPopMax\<close> differ in the direction only.\<close>

definition zPop :: "bool \<Rightarrow> time \<Rightarrow> string \<Rightarrow> int \<Rightarrow> (('s :: linorder), 's ZMember list) op" where
  "zPop desc now key cnt d =
     (case sqlLimit cnt 0 (zOrdered desc now key d) of
        Inl e \<Rightarrow> (Inl e, d)
      | Inr ms \<Rightarrow> (Inr ms, if ms \<noteq> [] then deleteZMembers key (map fst ms) d else d))"

definition zPopMin :: "time \<Rightarrow> string \<Rightarrow> int \<Rightarrow> (('s :: linorder), 's ZMember list) op" where
  "zPopMin now key cnt d = zPop False now (encodeKey key) cnt d"

definition zPopMax :: "time \<Rightarrow> string \<Rightarrow> int \<Rightarrow> (('s :: linorder), 's ZMember list) op" where
  "zPopMax now key cnt d = zPop True now (encodeKey key) cnt d"

definition zMPop :: "time \<Rightarrow> string list \<Rightarrow> bool \<Rightarrow> int \<Rightarrow> ('s :: linorder) db \<Rightarrow> (string \<times> 's ZMember list) option \<times> 's db" where
  "zMPop now keys desc cnt d =
     (if keys = [] \<or> cnt \<le> 0 then (None, d)
      else case find (\<lambda>k. zLive now k d \<noteq> []) (encodeKeys keys) of
             None \<Rightarrow> (None, d)
           | Some k \<Rightarrow>
               let ms = take (nat cnt) (zOrdered desc now k d)
               in (Some (decodeKey k, ms), deleteZMembers k (map fst ms) d))"

definition zMPopMin :: "time \<Rightarrow> string list \<Rightarrow> int \<Rightarrow> ('s :: linorder) db \<Rightarrow> (string \<times> 's ZMember list) option \<times> 's db" where
  "zMPopMin now keys cnt d = zMPop now keys False cnt d"

definition zMPopMax :: "time \<Rightarrow> string list \<Rightarrow> int \<Rightarrow> ('s :: linorder) db \<Rightarrow> (string \<times> 's ZMember list) option \<times> 's db" where
  "zMPopMax now keys cnt d = zMPop now keys True cnt d"

text \<open>\<^verbatim>\<open>ROW_NUMBER() OVER (ORDER BY ...) - 1\<close> of the row of a member.\<close>

definition zRankIn :: "string \<Rightarrow> 's ZMember list \<Rightarrow> int option" where
  "zRankIn member ms =
     (let before = takeWhile (\<lambda>(m, s). m \<noteq> member) ms
      in if length before < length ms then Some (int (length before)) else None)"

definition zRank :: "time \<Rightarrow> string \<Rightarrow> string \<Rightarrow> ('s :: linorder) db \<Rightarrow> int option" where
  "zRank now key member d = zRankIn member (zOrdered False now (encodeKey key) d)"

definition zRevRank :: "time \<Rightarrow> string \<Rightarrow> string \<Rightarrow> ('s :: linorder) db \<Rightarrow> int option" where
  "zRevRank now key member d = zRankIn member (zOrdered True now (encodeKey key) d)"

definition zCount :: "time \<Rightarrow> string \<Rightarrow> 's \<Rightarrow> 's \<Rightarrow> ('s :: linorder) db \<Rightarrow> int" where
  "zCount now key minS maxS d =
     int (length (filter (\<lambda>(m, s). s \<ge> minS \<and> s \<le> maxS) (zLive now (encodeKey key) d)))"

definition errSliceBounds :: string where
  "errSliceBounds = ''runtime error: slice bounds out of range''"

text \<open>The page \<^verbatim>\<open>allMembers[start:end]\<close> of \<^verbatim>\<open>zScan\<close>; bad bounds panic.\<close>

definition scanPage :: "int \<Rightarrow> int \<Rightarrow> 'a list \<Rightarrow> string + (int \<times> 'a list)" where
  "scanPage cursor cnt allMembers =
     (let start = cursor; len = int (length allMembers)
      in if start \<ge> len then Inr (0, [])
         else let stop = wrap64 (start + cnt);
                  stop = (if stop > len then len else stop)
              in if start < 0 \<or> stop < start then Inl errSliceBounds
                 else Inr (if stop \<ge> len then 0 else stop, slice start stop allMembers))"

definition zScan :: "time \<Rightarrow> string \<Rightarrow> int \<Rightarrow> string \<Rightarrow> int \<Rightarrow> ('s :: linorder) db \<Rightarrow> string + (int \<times> 's ZMember list)" where
  "zScan now key cursor pattern cnt d =
     scanPage cursor cnt
       (filter (\<lambda>(m, s). pattern \<noteq> [] \<and> pattern \<noteq> ''*'' \<longrightarrow> fst (matchGlob pattern m))
         (zSorted now (encodeKey key) d))"

text \<open>
  \<^verbatim>\<open>memberScores\<close> of the two STORE commands is an association list in the order
  its keys were created; the order in which Go ranges over a map is unspecified.
\<close>

definition addScore :: "'s \<Rightarrow> string \<Rightarrow> (string \<times> 's list) list \<Rightarrow> (string \<times> 's list) list" where
  "addScore s m ms = AList.update m ((case map_of ms m of Some ss \<Rightarrow> ss | None \<Rightarrow> []) @ [s]) ms"

definition aggregateScores :: "string \<Rightarrow> ('s :: {linorder, plus, zero}) list \<Rightarrow> 's" where
  "aggregateScores aggregate scores =
     (let a = ToUpper aggregate
      in if a = ''MIN'' then foldl (\<lambda>f s. if s < f then s else f) (hd scores) (tl scores)
         else if a = ''MAX'' then foldl (\<lambda>f s. if s > f then s else f) (hd scores) (tl scores)
         else foldl (+) 0 scores)"

definition noZAddOptions :: ZAddOptions where
  "noZAddOptions = \<lparr>zNX = False, zXX = False, zGT = False, zLT = False, zCH = False\<rparr>"

text \<open>The common tail: drop the destination, aggregate and add.\<close>

definition zStoreScores ::
  "time \<Rightarrow> string \<Rightarrow> string \<Rightarrow> (string \<times> 's list) list \<Rightarrow> (('s :: {linorder, plus, zero}), int) op" where
  "zStoreScores now destination aggregate memberScores d =
     (let d = deleteKeyFromAllTables destination d
      in if memberScores = [] then (Inr 0, d)
         else zAdd now destination (map (\<lambda>(m, ss). (m, aggregateScores aggregate ss)) memberScores) noZAddOptions d)"

definition errIndex :: string where
  "errIndex = ''runtime error: index out of range''"

definition zWeights :: "('s :: one) list \<Rightarrow> 'a list \<Rightarrow> 's list" where
  "zWeights weights keys = (if weights = [] then replicate (length keys) 1 else weights)"

definition zUnion_scores ::
  "time \<Rightarrow> (string \<times> 's) list \<Rightarrow> ('s :: {linorder, times}) db \<Rightarrow> (string \<times> 's list) list" where
  "zUnion_scores now kws d =
     fold (\<lambda>(key, weight). fold (\<lambda>(m, s). addScore (s * weight) m) (zRange now key 0 (-1) d)) kws []"

definition zUnionStore ::
  "time \<Rightarrow> string \<Rightarrow> string list \<Rightarrow> 's list \<Rightarrow> string \<Rightarrow> (('s :: {linorder, plus, times, zero, one}), int) op" where
  "zUnionStore now destination keys weights aggregate d =
     (let destination = encodeKey destination; keys = encodeKeys keys; weights = zWeights weights keys
      in if length weights < length keys then (Inl errIndex, d)
         else zStoreScores now destination aggregate (zUnion_scores now (zip keys weights) d) d)"

text \<open>
  One further source of \<^verbatim>\<open>zInterStore\<close>: members it lacks are deleted.  Its weight
  is read for the members that stay, so a missing one panics then only.
\<close>

definition zInter_step ::
  "('s :: {linorder, times}) ZMember list \<Rightarrow> 's option \<Rightarrow> (string \<times> 's list) list \<Rightarrow> (string \<times> 's list) list option" where
  "zInter_step members weight memberScores =
     (let kept = filter (\<lambda>(m, ss). map_of members m \<noteq> None) memberScores
      in if kept = [] then Some []
         else case weight of
                None \<Rightarrow> None
              | Some w \<Rightarrow> Some (map (\<lambda>(m, ss). (m, ss @ [the (map_of members m) * w])) kept))"

fun zInter_loop ::
  "time \<Rightarrow> string list \<Rightarrow> 's list \<Rightarrow> (string \<times> 's list) list \<Rightarrow> ('s :: {linorder, times}) db
     \<Rightarrow> (string \<times> 's list) list option" where
  "zInter_loop now [] ws ms d = Some ms"
| "zInter_loop now (key # keys) ws ms d =
     (case zInter_step (zRange now key 0 (-1) d) (case ws of [] \<Rightarrow> None | w # _ \<Rightarrow> Some w) ms of
        None \<Rightarrow> None
      | Some ms \<Rightarrow> zInter_loop now keys (tl ws) ms d)"

definition zInterStore ::
  "time \<Rightarrow> string \<Rightarrow> string list \<Rightarrow> 's list \<Rightarrow> string \<Rightarrow> (('s :: {linorder, plus, times, zero, one}), int) op" where
  "zInterStore now destination keys weights aggregate d =
     (let destination = encodeKey destination
      in case encodeKeys keys of
           [] \<Rightarrow> (Inr 0, d)
         | key # rest \<Rightarrow>
             let weights = zWeights weights (key # rest);
                 first = map (\<lambda>(m, s). (m, [s * hd weights])) (zRange now key 0 (-1) d)
             in case zInter_loop now rest (tl weights) first d of
                  None \<Rightarrow> (Inl errIndex, d)
                | Some ms \<Rightarrow> zStoreScores now destination aggregate ms d)"

section \<open>Lemmas\<close>

definition zset_type :: "time \<Rightarrow> string \<Rightarrow> 's db \<Rightarrow> bool" where
  "zset_type now key d =
     (getKeyType now (encodeKey key) d = TypeZSet
      \<or> getKeyType now (encodeKey key) d = TypeNone \<and> rows_of (encodeKey key) (kv_zsets d) = [])"

text \<open>No member row of the key is left over from an expired sorted set.\<close>

definition zset_fresh :: "time \<Rightarrow> string \<Rightarrow> 's db \<Rightarrow> bool" where
  "zset_fresh now key d = (\<forall>r \<in> set (kv_zsets d). fst (fst r) = encodeKey key \<longrightarrow> live now (snd (snd r)))"

lemma pk_zsets: "wf_db d \<Longrightarrow> pk_distinct (kv_zsets d)"
  by (simp add: wf_db_def)

lemma zLive_distinct: "wf_db d \<Longrightarrow> distinct (map fst (zLive now key d))"
  using distinct_subkeys [OF pk_zsets, of d "\<lambda>r. live now (snd (snd r))" key]
  by (simp add: zLive_def zmember_def comp_def)

lemma in_zLive: "(m, s) \<in> set (zLive now key d) \<longleftrightarrow> (\<exists>e. ((key, m), (s, e)) \<in> set (kv_zsets d) \<and> live now e)"
  by (force simp: zLive_def zmember_def)

lemma zLive_zScore:
  assumes "wf_db d"
  shows "(m, s) \<in> set (zLive now (encodeKey key) d) \<longleftrightarrow> zScore now key m d = Some s"
  unfolding in_zLive zScore_def map_of_eq_Some_iff [OF pk_zsets [OF assms], symmetric]
  by (auto split: option.splits)

lemma set_zSorted [simp]: "set (zSorted now key d) = set (zLive now key d)"
  by (simp add: zSorted_def)

lemma length_zSorted [simp]: "length (zSorted now key d) = length (zLive now key d)"
  by (simp add: zSorted_def)

lemma zSorted_distinct: "wf_db d \<Longrightarrow> distinct (map fst (zSorted now key d))"
proof -
  assume "wf_db d"
  then have "distinct (map fst (zLive now key d))" by (rule zLive_distinct)
  moreover have "mset (map fst (zSorted now key d)) = mset (map fst (zLive now key d))"
    by (simp add: zSorted_def)
  ultimately show ?thesis by (metis mset_eq_imp_distinct_iff)
qed

lemma zSorted_sorted: "sorted (map (\<lambda>(m, s). (s, m)) (zSorted now key d))"
  by (simp add: zSorted_def)

lemma zSorted_strict: "wf_db d \<Longrightarrow> sorted_wrt (<) (map (\<lambda>(m, s). (s, m)) (zSorted now key d))"
proof -
  assume "wf_db d"
  then have "distinct (zSorted now key d)" using zSorted_distinct distinct_map by blast
  then have "distinct (map (\<lambda>(m, s). (s, m)) (zSorted now key d))"
    by (auto simp: distinct_map inj_on_def)
  then show ?thesis using zSorted_sorted by (simp add: strict_sorted_iff)
qed

lemma zRange_all: "zRange now key 0 (-1) d = zSorted now (encodeKey key) d"
  by (cases "zLive now (encodeKey key) d = []")
    (simp_all add: zRange_def zIndexRange_def zBounds_def zOrdered_def zSorted_def)

lemma zRevRange_all: "zRevRange now key 0 (-1) d = rev (zSorted now (encodeKey key) d)"
  by (cases "zLive now (encodeKey key) d = []")
    (simp_all add: zRevRange_def zIndexRange_def zBounds_def zOrdered_def zSorted_def)

subsection \<open>Removal\<close>

lemma zLive_deleteZMembers:
  "zLive now k (deleteZMembers key ms d) = filter (\<lambda>(m, s). \<not> (k = key \<and> m \<in> set ms)) (zLive now k d)"
  by (induction "kv_zsets d")
    (simp_all add: zLive_def deleteZMembers_def delete_rows_def rows_of_def zmember_def filter_map comp_def conj_commute
      cong: conj_cong filter_cong)

lemma zSorted_deleteZMembers:
  "zSorted now k (deleteZMembers key ms d) = filter (\<lambda>(m, s). \<not> (k = key \<and> m \<in> set ms)) (zSorted now k d)"
  by (simp add: zSorted_def zLive_deleteZMembers filter_sort)

lemma filter_drop_prefix:
  "distinct (map f xs) \<Longrightarrow> filter (\<lambda>x. f x \<notin> f ` set (take n xs)) xs = drop n xs"
proof (induction xs arbitrary: n)
  case (Cons x xs)
  show ?case
  proof (cases n)
    case (Suc n')
    have "filter (\<lambda>y. f y \<notin> insert (f x) (f ` set (take n' xs))) xs = filter (\<lambda>y. f y \<notin> f ` set (take n' xs)) xs"
      using Cons.prems by (intro filter_cong) (auto intro: rev_image_eqI)
    with Cons Suc show ?thesis by simp
  qed simp
qed simp

lemma touches_deleteZMembers: "key \<in> K \<Longrightarrow> touches K d (deleteZMembers key ms d)"
  by (auto simp: touches_def rows_def deleteZMembers_def intro!: rows_of_delete_rows)

lemma wf_deleteZMembers [simp]: "wf_db d \<Longrightarrow> wf_db (deleteZMembers key ms d)"
  by (simp add: wf_db_def deleteZMembers_def)

lemma deleteZMembers_select [simp]:
  "kv_strings (deleteZMembers key ms d) = kv_strings d" "kv_meta (deleteZMembers key ms d) = kv_meta d"
  by (simp_all add: deleteZMembers_def)

text \<open>Popping splits the ordered members into what is answered and what stays.\<close>

lemma zPop_split:
  assumes "wf_db d" "0 \<le> cnt"
  shows "\<exists>ms d'. zPop desc now key cnt d = (Inr ms, d') \<and> ms = take (nat cnt) (zOrdered desc now key d)
    \<and> zOrdered desc now key d' = drop (nat cnt) (zOrdered desc now key d)
    \<and> touches {key} d d' \<and> wf_db d' \<and> kv_strings d' = kv_strings d"
proof -
  let ?L = "zOrdered desc now key d" and ?ms = "take (nat cnt) (zOrdered desc now key d)"
  have dist: "distinct (map fst ?L)"
    using zSorted_distinct [OF assms(1), of now key] by (simp add: zOrdered_def flip: rev_map)
  have "zOrdered desc now key (deleteZMembers key (map fst ?ms) d) = filter (\<lambda>x. fst x \<notin> fst ` set ?ms) ?L"
    by (simp add: zOrdered_def zSorted_deleteZMembers rev_filter case_prod_unfold)
  also have "\<dots> = drop (nat cnt) ?L" by (rule filter_drop_prefix [OF dist])
  finally have rest: "zOrdered desc now key (deleteZMembers key (map fst ?ms) d) = drop (nat cnt) ?L" .
  show ?thesis
  proof (cases "?ms = []")
    case True
    then have "drop (nat cnt) ?L = ?L" by auto
    with True assms show ?thesis by (simp add: zPop_def sqlLimit_def)
  next
    case False
    with assms rest show ?thesis by (simp add: zPop_def sqlLimit_def touches_deleteZMembers)
  qed
qed

subsection \<open>Ranks\<close>

lemma zRankIn_Some:
  assumes "distinct (map fst ms)"
  shows "zRankIn m ms = Some i \<longleftrightarrow> 0 \<le> i \<and> nat i < length ms \<and> fst (ms ! nat i) = m"
proof -
  let ?b = "takeWhile (\<lambda>(x, s). x \<noteq> m) ms"
  have hit: "fst (ms ! length ?b) = m" if "length ?b < length ms"
    using nth_length_takeWhile [OF that] by (auto simp: split_beta)
  have uniq: "j = length ?b" if "j < length ms" "fst (ms ! j) = m" for j
  proof -
    have "length ?b \<le> j"
    proof (rule ccontr)
      assume "\<not> length ?b \<le> j"
      then have "ms ! j \<in> set ?b" by (metis linorder_not_le nth_mem takeWhile_nth)
      then show False using that(2) by (auto dest: set_takeWhileD)
    qed
    then have "length ?b < length ms" using that(1) by simp
    with hit that assms show ?thesis by (metis distinct_conv_nth length_map nth_map)
  qed
  have "zRankIn m ms = Some i \<longleftrightarrow> length ?b < length ms \<and> i = int (length ?b)"
    by (auto simp: zRankIn_def Let_def)
  also have "\<dots> \<longleftrightarrow> 0 \<le> i \<and> nat i < length ms \<and> fst (ms ! nat i) = m"
    using hit uniq [of "nat i"] by auto
  finally show ?thesis .
qed

subsection \<open>ZADD\<close>

text \<open>What one (member, score) pair of ZADD does to a map from members to scores.\<close>

definition zadd_spec :: "ZAddOptions \<Rightarrow> ('s :: linorder) option \<Rightarrow> 's \<Rightarrow> 's option" where
  "zadd_spec opts old s =
     (case old of
        Some x \<Rightarrow> if zNX opts \<or> zGT opts \<and> s \<le> x \<or> zLT opts \<and> s \<ge> x then Some x else Some s
      | None \<Rightarrow> if zXX opts then None else Some s)"

definition redis_zadd :: "ZAddOptions \<Rightarrow> ('s :: linorder) ZMember list \<Rightarrow> (string \<Rightarrow> 's option) \<Rightarrow> string \<Rightarrow> 's option" where
  "redis_zadd opts ms M = fold (\<lambda>(m, s) M. M(m := zadd_spec opts (M m) s)) ms M"

definition zraw :: "string \<Rightarrow> 's db \<Rightarrow> string \<Rightarrow> 's option" where
  "zraw key d m = map_option fst (map_of (kv_zsets d) (key, m))"

lemma zadd_spec_None: "zadd_spec opts None s = None \<longleftrightarrow> zXX opts" "zadd_spec opts (Some x) s \<noteq> None"
  by (simp_all add: zadd_spec_def)

lemma zAdd_step_raw:
  assumes "zAdd_step opts key (m, s) (a, c, d) = (a', c', d')"
  shows "zraw key d' = (zraw key d)(m := zadd_spec opts (zraw key d m) s)"
    and "a' = a + (if zraw key d m = None \<and> zadd_spec opts (zraw key d m) s \<noteq> None then 1 else 0)"
    and "c' = c + (if zraw key d m \<noteq> None \<and> zadd_spec opts (zraw key d m) s \<noteq> zraw key d m then 1 else 0)"
  using assms
  by (auto simp: zAdd_step_def zraw_def zadd_spec_def fun_eq_iff table_simps map_add_Some_iff map_add_def
      split: option.splits if_splits prod.splits)

lemma zAdd_step_cases:
  assumes "zAdd_step opts key (m, s) (a, c, d) = (a', c', d')"
  obtains "d' = d"
    | "d' = d\<lparr>kv_zsets := update_rows (\<lambda>r. fst r = (key, m)) (\<lambda>(_, e). (s, e)) (kv_zsets d)\<rparr>"
    | "d' = d\<lparr>kv_zsets := kv_zsets d @ [((key, m), (s, None))]\<rparr>" "(key, m) \<notin> fst ` set (kv_zsets d)"
  using assms by (auto simp: zAdd_step_def map_of_eq_None_iff split: option.splits if_splits)

lemma zAdd_step_frame:
  assumes "zAdd_step opts key ms (a, c, d) = (a', c', d')"
  shows "touches {key} d d' \<and> (wf_db d \<longrightarrow> wf_db d') \<and> kv_meta d' = kv_meta d \<and> kv_strings d' = kv_strings d"
proof -
  obtain m s where ms: "ms = (m, s)" by fastforce
  show ?thesis
  proof (rule zAdd_step_cases [OF assms [unfolded ms]])
    assume "d' = d\<lparr>kv_zsets := update_rows (\<lambda>r. fst r = (key, m)) (\<lambda>(_, e). (s, e)) (kv_zsets d)\<rparr>"
    then show ?thesis by (auto simp: touches_def rows_def wf_db_def intro!: rows_of_update_rows)
  next
    assume "d' = d\<lparr>kv_zsets := kv_zsets d @ [((key, m), (s, None))]\<rparr>" "(key, m) \<notin> fst ` set (kv_zsets d)"
    then show ?thesis by (auto simp: touches_def rows_def wf_db_def rows_of_def)
  qed auto
qed

lemma zAdd_step_live:
  assumes "zAdd_step opts key ms (a, c, d) = (a', c', d')"
    and "\<forall>r \<in> set (kv_zsets d). fst (fst r) = key \<longrightarrow> live now (snd (snd r))"
  shows "\<forall>r \<in> set (kv_zsets d'). fst (fst r) = key \<longrightarrow> live now (snd (snd r))"
proof -
  obtain m s where ms: "ms = (m, s)" by fastforce
  show ?thesis
    using assms(2) by (rule_tac zAdd_step_cases [OF assms(1) [unfolded ms]]) (auto simp: update_rows_def)
qed

lemma zAdd_fold:
  assumes "fold (zAdd_step opts key) ms (a, c, d) = (a', c', d')"
  shows "zraw key d' = redis_zadd opts ms (zraw key d)
    \<and> touches {key} d d' \<and> (wf_db d \<longrightarrow> wf_db d') \<and> kv_meta d' = kv_meta d \<and> kv_strings d' = kv_strings d
    \<and> ((\<forall>r \<in> set (kv_zsets d). fst (fst r) = key \<longrightarrow> live now (snd (snd r))) \<longrightarrow>
        (\<forall>r \<in> set (kv_zsets d'). fst (fst r) = key \<longrightarrow> live now (snd (snd r))))"
  using assms
proof (induction ms arbitrary: a c d)
  case (Cons x ms)
  obtain m s where x: "x = (m, s)" by fastforce
  obtain a1 c1 d1 where st: "zAdd_step opts key x (a, c, d) = (a1, c1, d1)" by (metis prod_cases3)
  with Cons.prems have rest: "fold (zAdd_step opts key) ms (a1, c1, d1) = (a', c', d')" by simp
  note IH = Cons.IH [OF rest]
  have "zraw key d' = redis_zadd opts (x # ms) (zraw key d)"
    using IH unfolding zAdd_step_raw(1) [OF st [unfolded x]] redis_zadd_def x by simp
  moreover have "touches {key} d d'" using IH zAdd_step_frame [OF st] touches_trans by blast
  ultimately show ?case using IH zAdd_step_frame [OF st] zAdd_step_live [OF st] by simp
qed (auto simp: redis_zadd_def)

lemma zAdd_counts:
  assumes "fold (zAdd_step opts key) ms (a, c, d) = (a', c', d')" "distinct (map fst ms)"
  shows "a' = a + int (length (filter (\<lambda>(m, s). zraw key d m = None \<and> zadd_spec opts (zraw key d m) s \<noteq> None) ms))
    \<and> c' = c + int (length (filter (\<lambda>(m, s). zraw key d m \<noteq> None \<and> zadd_spec opts (zraw key d m) s \<noteq> zraw key d m) ms))"
  using assms
proof (induction ms arbitrary: a c d)
  case (Cons x ms)
  obtain m s where x: "x = (m, s)" by fastforce
  obtain a1 c1 d1 where st: "zAdd_step opts key x (a, c, d) = (a1, c1, d1)" by (metis prod_cases3)
  with Cons.prems have rest: "fold (zAdd_step opts key) ms (a1, c1, d1) = (a', c', d')" by simp
  note step = zAdd_step_raw [OF st [unfolded x]]
  have same: "zraw key d1 m' = zraw key d m'" if "(m', s') \<in> set ms" for m' s'
    using that Cons.prems(2) by (force simp: step(1) x)
  have "filter (\<lambda>(m, s). zraw key d1 m = None \<and> zadd_spec opts (zraw key d1 m) s \<noteq> None) ms =
      filter (\<lambda>(m, s). zraw key d m = None \<and> zadd_spec opts (zraw key d m) s \<noteq> None) ms"
    "filter (\<lambda>(m, s). zraw key d1 m \<noteq> None \<and> zadd_spec opts (zraw key d1 m) s \<noteq> zraw key d1 m) ms =
      filter (\<lambda>(m, s). zraw key d m \<noteq> None \<and> zadd_spec opts (zraw key d m) s \<noteq> zraw key d m) ms"
    using same by (auto intro!: filter_cong)
  then show ?case using Cons.IH [OF rest] Cons.prems(2) step(2,3) by (simp add: x)
qed simp

lemma zScore_fresh: "zset_fresh now key d \<Longrightarrow> zScore now key m d = zraw (encodeKey key) d m"
  by (fastforce simp: zScore_def zraw_def zset_fresh_def dest: map_of_SomeD split: option.splits)

lemma redis_zadd_XX: "zXX opts \<Longrightarrow> redis_zadd opts ms (\<lambda>_. None) = (\<lambda>_. None)"
  by (induction ms) (auto simp: redis_zadd_def zadd_spec_def fun_upd_idem)

lemma redis_zadd_at:
  "distinct (map fst ms) \<Longrightarrow> redis_zadd opts ms M m =
     (case map_of ms m of Some s \<Rightarrow> zadd_spec opts (M m) s | None \<Rightarrow> M m)"
proof (induction ms arbitrary: M)
  case (Cons x ms)
  obtain m' s where x: "x = (m', s)" by fastforce
  have "map_of ms m' = None" using Cons.prems by (simp add: x map_of_eq_None_iff)
  with Cons show ?case by (simp add: redis_zadd_def x split: option.splits)
qed (simp add: redis_zadd_def)

lemma zraw_empty: "rows_of key (kv_zsets d) = [] \<Longrightarrow> zraw key d = (\<lambda>_. None)"
  by (auto simp: zraw_def fun_eq_iff map_of_eq_None_iff rows_of_def filter_empty_conv)

lemma zAdd_refines:
  assumes "zset_type now key d" "zset_fresh now key d"
  shows "\<exists>n d'. zAdd now key ms opts d = (Inr n, d')
    \<and> (\<lambda>m. zScore now key m d') = redis_zadd opts ms (\<lambda>m. zScore now key m d)
    \<and> zset_fresh now key d' \<and> touches {encodeKey key} d d' \<and> (wf_db d \<longrightarrow> wf_db d') \<and> kv_strings d' = kv_strings d
    \<and> (distinct (map fst ms) \<longrightarrow> n =
         int (length (filter (\<lambda>(m, s). zScore now key m d = None \<and> zadd_spec opts None s \<noteq> None) ms))
         + (if zCH opts then int (length (filter (\<lambda>(m, s). zScore now key m d \<noteq> None
              \<and> zadd_spec opts (zScore now key m d) s \<noteq> zScore now key m d) ms)) else 0))"
proof -
  let ?k = "encodeKey key"
  have raw: "zScore now key m d = zraw ?k d m" for m by (rule zScore_fresh [OF assms(2)])
  show ?thesis
  proof (cases "getKeyType now ?k d = TypeNone \<and> zXX opts")
    case True
    then have "zraw ?k d = (\<lambda>_. None)" using assms(1) zraw_empty by (auto simp: zset_type_def)
    with True assms(2) show ?thesis
      by (auto simp: zAdd_def Let_def raw redis_zadd_XX zadd_spec_None(1) filter_empty_conv)
  next
    case False
    let ?d0 = "setMeta ?k TypeZSet None d"
    obtain a c d' where f: "fold (zAdd_step opts ?k) ms (0, 0, ?d0) = (a, c, d')" by (metis prod_cases3)
    have raw0: "zraw ?k ?d0 = zraw ?k d" by (simp add: zraw_def fun_eq_iff)
    have eq: "zAdd now key ms opts d = (Inr (if zCH opts then a + c else a), d')"
      using False assms(1) f by (auto simp: zAdd_def Let_def zset_type_def)
    note F = zAdd_fold [OF f, of now, unfolded raw0]
    have fresh: "zset_fresh now key d'" using F assms(2) by (simp add: zset_fresh_def)
    have "(\<lambda>m. zScore now key m d') = zraw ?k d'" using zScore_fresh [OF fresh] by auto
    moreover have "touches {?k} d d'" using F touches_trans [OF touches_setMeta, of ?k] by blast
    ultimately show ?thesis
      using F fresh zAdd_counts [OF f, unfolded raw0] unfolding eq raw
      by (auto simp: raw [abs_def] cong: conj_cong)
  qed
qed

end
