(* ===== verification/ZSetStores.thy ===== *)
theory ZSetStores
  imports ZSets
begin

text \<open>
  Correctness of the sorted-set commands that write a destination key
  (ZRANGESTORE, ZUNIONSTORE, ZINTERSTORE), and the properties of sorted sets.
\<close>

section \<open>Lemmas on the score tables\<close>

lemma map_of_zRange: "wf_db d \<Longrightarrow> map_of (zRange now key 0 (-1) d) m = zScore now key m d"
proof -
  assume wf: "wf_db d"
  have "map_of (zSorted now (encodeKey key) d) m = Some s \<longleftrightarrow> zScore now key m d = Some s" for s
    using zSorted_distinct [OF wf, of now "encodeKey key"] zLive_zScore [OF wf] by simp
  then show ?thesis unfolding zRange_all by (metis not_None_eq)
qed

lemma zRange_distinct: "wf_db d \<Longrightarrow> distinct (map fst (zRange now key 0 (-1) d))"
  unfolding zRange_all by (rule zSorted_distinct)

text \<open>The weighted scores of a member, in the order of the source keys.\<close>

definition scoresFor :: "time \<Rightarrow> (string \<times> 's) list \<Rightarrow> string \<Rightarrow> ('s :: times) db \<Rightarrow> 's list" where
  "scoresFor now kws m d =
     concat (map (\<lambda>(k, w). case zScore now k m d of Some s \<Rightarrow> [s * w] | None \<Rightarrow> []) kws)"

lemma zScore_encodeKey [simp]: "zScore now (encodeKey k) m d = zScore now k m d"
  by (simp add: zScore_def)

lemma scoresFor_encodeKeys:
  "scoresFor now (zip (encodeKeys keys) ws) m d = scoresFor now (zip keys ws) m d"
proof (induction keys arbitrary: ws)
  case (Cons k keys)
  then show ?case by (cases ws) (simp_all add: scoresFor_def encodeKeys_def)
qed (simp add: encodeKeys_def)

lemma map_of_addScore:
  "map_of (addScore s m ms) x =
     (if x = m then Some ((case map_of ms m of Some ss \<Rightarrow> ss | None \<Rightarrow> []) @ [s]) else map_of ms x)"
  by (simp add: addScore_def table_simps)

lemma distinct_addScore: "pk_distinct ms \<Longrightarrow> pk_distinct (addScore s m ms)"
  by (simp add: addScore_def)

lemma fold_addScore:
  "distinct (map fst L) \<Longrightarrow> map_of (fold (\<lambda>(m, s). addScore (s * w) m) L ms) x =
     (case map_of L x of
        None \<Rightarrow> map_of ms x
      | Some s \<Rightarrow> Some ((case map_of ms x of Some ss \<Rightarrow> ss | None \<Rightarrow> []) @ [s * w]))"
proof (induction L arbitrary: ms)
  case (Cons y L)
  obtain m s where y: "y = (m, s)" by fastforce
  have "map_of L m = None" using Cons.prems by (simp add: y map_of_eq_None_iff)
  with Cons show ?case by (simp add: y map_of_addScore cong: option.case_cong)
qed simp

lemma fold_addScore_distinct:
  "pk_distinct ms \<Longrightarrow> pk_distinct (fold (\<lambda>(m, s). addScore (s * w) m) L ms)"
  by (induction L arbitrary: ms) (simp_all add: distinct_addScore split_beta)

lemma zUnion_scores_fold:
  assumes "wf_db d"
  shows "map_of (fold (\<lambda>(key, weight). fold (\<lambda>(m, s). addScore (s * weight) m) (zRange now key 0 (-1) d)) kws ms) x =
      (let ss = (case map_of ms x of Some ss \<Rightarrow> ss | None \<Rightarrow> []) @ scoresFor now kws x d
       in if map_of ms x = None \<and> ss = [] then None else Some ss)
    \<and> (pk_distinct ms \<longrightarrow>
         pk_distinct (fold (\<lambda>(key, weight). fold (\<lambda>(m, s). addScore (s * weight) m) (zRange now key 0 (-1) d)) kws ms))"
proof (induction kws arbitrary: ms)
  case Nil
  then show ?case by (simp add: scoresFor_def Let_def split: option.splits)
next
  case (Cons y kws)
  obtain k w where y: "y = (k, w)" by fastforce
  let ?ms = "fold (\<lambda>(m, s). addScore (s * w) m) (zRange now k 0 (-1) d) ms"
  have "map_of ?ms x = (case zScore now k x d of None \<Rightarrow> map_of ms x
      | Some s \<Rightarrow> Some ((case map_of ms x of Some ss \<Rightarrow> ss | None \<Rightarrow> []) @ [s * w]))"
    using fold_addScore [OF zRange_distinct [OF assms]] map_of_zRange [OF assms] by simp
  then show ?case
    using Cons [of ?ms] fold_addScore_distinct [of ms w "zRange now k 0 (-1) d"]
    by (auto simp: y scoresFor_def Let_def split: option.splits)
qed

lemma map_of_zUnion_scores:
  "wf_db d \<Longrightarrow> map_of (zUnion_scores now kws d) x =
     (if scoresFor now kws x d = [] then None else Some (scoresFor now kws x d))"
  "wf_db d \<Longrightarrow> pk_distinct (zUnion_scores now kws d)"
  using zUnion_scores_fold [of d now kws "[]" x] zUnion_scores_fold [of d now kws "[]"]
  by (simp_all add: zUnion_scores_def Let_def)

lemma filter_map_of:
  "map_of (filter (\<lambda>(m, ss). P m) ms) x = (if P x then map_of ms x else None)"
  by (induction ms) auto

lemma zInter_step_map_of:
  assumes "zInter_step L (Some w) ms = Some ms'"
  shows "map_of ms' x = (case (map_of ms x, map_of L x) of
      (Some ss, Some s) \<Rightarrow> Some (ss @ [s * w]) | _ \<Rightarrow> None)"
proof -
  let ?kept = "filter (\<lambda>(m, ss). map_of L m \<noteq> None) ms"
  have "ms' = map (\<lambda>(m, ss). (m, ss @ [the (map_of L m) * w])) ?kept"
    using assms by (simp add: zInter_step_def Let_def split: if_splits)
  moreover have "map_of (map (\<lambda>(m, ss). (m, ss @ [the (map_of L m) * w])) xs) x =
      map_option (\<lambda>ss. ss @ [the (map_of L x) * w]) (map_of xs x)" for xs :: "(string \<times> 'a list) list"
    by (induction xs) auto
  ultimately show ?thesis by (auto simp: filter_map_of split: option.splits)
qed

lemma zInter_step_distinct:
  "zInter_step L w ms = Some ms' \<Longrightarrow> pk_distinct ms \<Longrightarrow> pk_distinct ms'"
  by (auto simp: zInter_step_def Let_def split_beta comp_def distinct_map_filter split: if_splits option.splits)

lemma zInter_loop_map_of:
  assumes "wf_db d" "length keys \<le> length ws" "pk_distinct ms"
  shows "\<exists>ms'. zInter_loop now keys ws ms d = Some ms' \<and> pk_distinct ms' \<and>
    (\<forall>x. map_of ms' x = (if \<forall>k \<in> set keys. zScore now k x d \<noteq> None
      then map_option (\<lambda>ss. ss @ scoresFor now (zip keys ws) x d) (map_of ms x) else None))"
  using assms(2,3)
proof (induction keys arbitrary: ws ms)
  case Nil
  have "map_option (\<lambda>ss. ss) o' = o'" for o' :: "'a list option" by (cases o') auto
  with Nil show ?case by (auto simp: scoresFor_def)
next
  case (Cons k keys)
  obtain w ws' where ws: "ws = w # ws'" using Cons.prems(1) by (cases ws) auto
  have "zInter_step (zRange now k 0 (-1) d) (Some w) ms \<noteq> None" by (simp add: zInter_step_def Let_def)
  then obtain ms1 where st: "zInter_step (zRange now k 0 (-1) d) (Some w) ms = Some ms1" by blast
  note dist = zInter_step_distinct [OF st Cons.prems(2)]
  obtain ms' where IH: "zInter_loop now keys ws' ms1 d = Some ms'" "pk_distinct ms'"
    "\<forall>x. map_of ms' x = (if \<forall>k \<in> set keys. zScore now k x d \<noteq> None
      then map_option (\<lambda>ss. ss @ scoresFor now (zip keys ws') x d) (map_of ms1 x) else None)"
    using Cons.IH [of ws' ms1, OF _ dist] Cons.prems(1) ws by auto
  have "map_of ms' x = (if \<forall>k' \<in> set (k # keys). zScore now k' x d \<noteq> None
      then map_option (\<lambda>ss. ss @ scoresFor now (zip (k # keys) ws) x d) (map_of ms x) else None)" for x
    using zInter_step_map_of [OF st, of x] IH(3)
    by (auto simp: map_of_zRange [OF assms(1)] scoresFor_def ws split: option.splits)
  then show ?case using IH(1,2) st ws by simp
qed

section \<open>The STORE commands\<close>

lemma purge_fresh:
  fixes d :: "'s db" and key :: string
  defines "d0 \<equiv> deleteKeyFromAllTables (encodeKey key) d"
  shows "zset_type now key d0" "zset_fresh now key d0" "zScore now key m d0 = None"
proof -
  have r: "rows (encodeKey key) d0 = (None, None, [], [], [], [], None)"
    by (simp add: d0_def rows_deleteKeys)
  then have meta: "map_of (kv_meta d0) (encodeKey key) = None" and z: "rows_of (encodeKey key) (kv_zsets d0) = []"
    by (simp_all add: rows_def)
  show "zset_type now key d0" using meta z by (simp add: zset_type_def getKeyType_def)
  show fresh: "zset_fresh now key d0" using z by (force simp: zset_fresh_def rows_of_def filter_empty_conv)
  show "zScore now key m d0 = None" using zScore_fresh [OF fresh] zraw_empty [OF z] by simp
qed

lemma zStoreScores_refines:
  assumes "wf_db d" "pk_distinct ms"
  shows "\<exists>d'. zStoreScores now (encodeKey dst) agg ms d = (Inr (int (length ms)), d')
    \<and> (\<forall>m. zScore now dst m d' = map_option (aggregateScores agg) (map_of ms m))
    \<and> touches {encodeKey dst} d d' \<and> wf_db d' \<and> map_of (kv_strings d') (encodeKey dst) = None"
proof -
  let ?d0 = "deleteKeyFromAllTables (encodeKey dst) d"
  note fresh = purge_fresh [where now = now and key = dst and d = d]
  have wf0: "wf_db ?d0" and t0: "touches {encodeKey dst} d ?d0"
    using assms(1) by (simp_all add: touches_deleteKeys)
  have s0: "map_of (kv_strings ?d0) (encodeKey dst) = None"
    using rows_deleteKeys(1) [of "encodeKey dst" "encodeKey dst" d] by (simp add: rows_def)
  show ?thesis
  proof (cases "ms = []")
    case True
    with fresh(3) wf0 t0 s0 show ?thesis by (simp add: zStoreScores_def Let_def)
  next
    case False
    let ?L = "map (\<lambda>(m, ss). (m, aggregateScores agg ss)) ms"
    have keys: "map fst ?L = map fst ms" by (simp add: split_beta)
    have dist: "distinct (map fst ?L)" unfolding keys by (rule assms(2))
    from zAdd_refines [OF fresh(1,2), of ?L noZAddOptions] obtain n d' where
      z: "zAdd now dst ?L noZAddOptions ?d0 = (Inr n, d')"
        "(\<lambda>m. zScore now dst m d') = redis_zadd noZAddOptions ?L (\<lambda>m. zScore now dst m ?d0)"
        "touches {encodeKey dst} ?d0 d'" "wf_db d'" "kv_strings d' = kv_strings ?d0"
      and n: "distinct (map fst ?L) \<longrightarrow> n = int (length (filter (\<lambda>(m, s). True) ?L))"
      using wf0 by (auto simp: fresh(3) zadd_spec_def noZAddOptions_def)
    have "zScore now dst m d' = map_option (aggregateScores agg) (map_of ms m)" for m
    proof -
      have "map_of ?L m = map_option (aggregateScores agg) (map_of ms m)" by (induction ms) auto
      then show ?thesis
        unfolding fun_cong [OF z(2), of m] redis_zadd_at [OF dist]
        by (simp add: fresh(3) zadd_spec_def noZAddOptions_def split: option.splits)
    qed
    moreover have "n = int (length ms)" using mp [OF n dist] by simp
    moreover have "zAdd now (encodeKey dst) ?L noZAddOptions ?d0 = zAdd now dst ?L noZAddOptions ?d0"
      by (simp add: zAdd_def)
    ultimately show ?thesis
      using False z s0 touches_trans [OF t0] by (auto simp: zStoreScores_def Let_def)
  qed
qed

lemma zUnionStore_refines:
  assumes "wf_db d" "weights = [] \<or> length keys \<le> length weights"
  shows "\<exists>n d'. zUnionStore now dst keys weights agg d = (Inr n, d')
    \<and> (\<forall>m. zScore now dst m d' =
        (let ss = scoresFor now (zip keys (zWeights weights keys)) m d
         in if ss = [] then None else Some (aggregateScores agg ss)))
    \<and> touches {encodeKey dst} d d' \<and> wf_db d' \<and> map_of (kv_strings d') (encodeKey dst) = None"
proof -
  let ?w = "zWeights weights keys"
  have len: "length keys \<le> length ?w" using assms(2) by (auto simp: zWeights_def)
  have enc: "zWeights weights (encodeKeys keys) = ?w" by (simp add: zWeights_def encodeKeys_def)
  have eq: "zUnionStore now dst keys weights agg d =
      zStoreScores now (encodeKey dst) agg (zUnion_scores now (zip (encodeKeys keys) ?w) d) d"
    using len by (simp add: zUnionStore_def Let_def enc) (simp add: encodeKeys_def)
  note tab = map_of_zUnion_scores [OF assms(1), of now "zip (encodeKeys keys) ?w", unfolded scoresFor_encodeKeys]
  show ?thesis
    unfolding eq using zStoreScores_refines [OF assms(1) tab(2), of now dst agg] tab(1)
    by (auto simp: Let_def)
qed

lemma zInterStore_refines:
  assumes "wf_db d" "weights = [] \<or> length keys \<le> length weights" "keys \<noteq> []"
  shows "\<exists>n d'. zInterStore now dst keys weights agg d = (Inr n, d')
    \<and> (\<forall>m. zScore now dst m d' =
        (if \<forall>k \<in> set keys. zScore now k m d \<noteq> None
         then Some (aggregateScores agg (scoresFor now (zip keys (zWeights weights keys)) m d)) else None))
    \<and> touches {encodeKey dst} d d' \<and> wf_db d' \<and> map_of (kv_strings d') (encodeKey dst) = None"
proof -
  obtain k ks where keys: "keys = k # ks" using assms(3) by (cases keys) auto
  let ?w = "zWeights weights keys" and ?ks = "encodeKeys ks"
  have "length keys \<le> length ?w" using assms(2) by (auto simp: zWeights_def)
  then obtain w ws where w: "?w = w # ws" and len: "length ?ks \<le> length ws"
    by (cases ?w) (auto simp: keys encodeKeys_def)
  have enc: "zWeights weights (encodeKey k # ?ks) = w # ws"
    using w by (auto simp: zWeights_def keys encodeKeys_def split: if_splits)
  let ?first = "map (\<lambda>(m, s). (m, [s * w])) (zRange now (encodeKey k) 0 (-1) d)"
  have "map_of (map (\<lambda>(m, s). (m, [s * w])) L) m = map_option (\<lambda>s. [s * w]) (map_of L m)"
    for L :: "'a ZMember list" and m by (induction L) auto
  then have first: "map_of ?first m = map_option (\<lambda>s. [s * w]) (zScore now k m d)" for m
    by (simp add: map_of_zRange [OF assms(1)])
  have fsts: "map fst ?first = map fst (zRange now (encodeKey k) 0 (-1) d)" by (simp add: split_beta)
  have "pk_distinct ?first" unfolding fsts by (rule zRange_distinct [OF assms(1)])
  from zInter_loop_map_of [OF assms(1) len this, of now] obtain ms where
    ms: "zInter_loop now ?ks ws ?first d = Some ms" "pk_distinct ms" "\<forall>x. map_of ms x =
      (if \<forall>k \<in> set ?ks. zScore now k x d \<noteq> None
       then map_option (\<lambda>ss. ss @ scoresFor now (zip ?ks ws) x d) (map_of ?first x) else None)" by blast
  note sc = scoresFor_encodeKeys [of now ks ws _ d]
  have "map_of ms m = (if \<forall>k \<in> set keys. zScore now k m d \<noteq> None
      then Some (scoresFor now (zip keys ?w) m d) else None)" for m
    unfolding ms(3) [rule_format] first sc keys w [unfolded keys]
    by (auto simp: encodeKeys_def scoresFor_def)
  with zStoreScores_refines [OF assms(1) ms(2), of now dst agg]
  show ?thesis using ms(1) by (auto simp: zInterStore_def keys encodeKeys_def enc [unfolded encodeKeys_def] Let_def)
qed

text \<open>A list of live members of a key, each at most once.\<close>

definition zsub :: "time \<Rightarrow> string \<Rightarrow> 's db \<Rightarrow> 's ZMember list \<Rightarrow> bool" where
  "zsub now key d ms = (set ms \<subseteq> set (zLive now key d) \<and> (wf_db d \<longrightarrow> distinct (map fst ms)))"

lemma zsub_closed:
  "zsub now key d ms \<Longrightarrow> zsub now key d (take n ms)"
  "zsub now key d ms \<Longrightarrow> zsub now key d (drop n ms)"
  "zsub now key d ms \<Longrightarrow> zsub now key d (filter P ms)"
  "zsub now key d ms \<Longrightarrow> zsub now key d (rev ms)"
  by (auto simp: zsub_def distinct_map_filter take_map [symmetric] drop_map [symmetric] rev_map [symmetric]
      dest: in_set_takeD in_set_dropD)

lemma zsub_live: "zsub now key d (zLive now key d)"
  by (simp add: zsub_def zLive_distinct)

lemma zsub_base: "zsub now key d (zSorted now key d)" "zsub now key d []"
  by (simp_all add: zsub_def zSorted_distinct)

lemma zsub_ordered: "zsub now key d (zOrdered desc now key d)"
  by (simp add: zOrdered_def zsub_base zsub_closed)

lemma zsub_lex: "zsub now key d (zLexMembers desc now key minL maxL d)"
proof -
  let ?F = "filter (\<lambda>(m, s). buildLexWhere minL maxL m) (zLive now key d)"
  have F: "zsub now key d ?F" by (rule zsub_closed(3) [OF zsub_live])
  have "mset (map fst (sort_key fst ?F)) = mset (map fst ?F)" by simp
  then have "distinct (map fst (sort_key fst ?F)) = distinct (map fst ?F)" by (rule mset_eq_imp_distinct_iff)
  with F have "zsub now key d (sort_key fst ?F)" by (simp add: zsub_def)
  then show ?thesis by (simp add: zLexMembers_def Let_def zsub_closed)
qed

lemma zsub_sqlLimit: "sqlLimit n i xs = Inr ms \<Longrightarrow> zsub now key d xs \<Longrightarrow> zsub now key d ms"
  by (auto simp: sqlLimit_def zsub_closed split: if_splits)

lemma zsub_query: "zStoreQuery now src spec d = Inr ms \<Longrightarrow> zsub now src d ms"
  by (auto simp: zStoreQuery_def zIndexRange_def zScoreRange_def Let_def split_beta
      intro: zsub_closed zsub_base zsub_ordered zsub_lex zsub_sqlLimit
      split: ZRangeStoreBy.splits if_splits)

text \<open>ZRANGESTORE replaces the destination by the result of the query on the emptied database.\<close>

lemma zRangeStore_refines:
  fixes dst :: string
  assumes "wf_db d"
  defines "d0 \<equiv> deleteKeyFromAllTables (encodeKey dst) d"
  assumes q: "zStoreQuery now (encodeKey src) spec d0 = Inr ms"
  shows "\<exists>d'. zRangeStore now dst src spec d = (Inr (int (length ms)), d')
    \<and> (\<forall>m. zScore now dst m d' = map_of ms m)
    \<and> touches {encodeKey dst} d d' \<and> wf_db d' \<and> map_of (kv_strings d') (encodeKey dst) = None"
proof -
  let ?k = "encodeKey dst" and ?new = "map (\<lambda>(m, s). ((encodeKey dst, m), (s, None :: time option))) ms"
  let ?d1 = "d0\<lparr>kv_zsets := kv_zsets d0 @ ?new\<rparr>"
  let ?d' = "if ms \<noteq> [] then setMeta ?k TypeZSet None ?d1 else ?d1"
  have wf0: "wf_db d0" using assms(1) by (simp add: d0_def)
  have r: "rows ?k d0 = (None, None, [], [], [], [], None)" by (simp add: d0_def rows_deleteKeys)
  then have none: "rows_of ?k (kv_zsets d0) = []" "map_of (kv_strings d0) ?k = None" by (simp_all add: rows_def)
  have dist: "distinct (map fst ms)" using zsub_query [OF q] wf0 by (simp add: zsub_def)
  have eq: "zRangeStore now dst src spec d = (Inr (int (length ms)), ?d')"
    using q by (simp add: zRangeStore_def Let_def d0_def)
  have z: "kv_zsets ?d' = kv_zsets d0 @ ?new" by simp
  have old: "map_of (kv_zsets d0) (?k, m) = None" for m
    using none(1) by (auto simp: map_of_eq_None_iff rows_of_def filter_empty_conv)
  have "map_of ?new (?k, m) = map_option (\<lambda>s. (s, None)) (map_of ms m)" for m by (induction ms) auto
  then have sc: "zScore now dst m ?d' = map_of ms m" for m
    unfolding zScore_def z using old by (auto simp: map_add_def split: option.splits)
  have "rows j ?d1 = rows j d0" if "j \<noteq> ?k" for j
    using that by (simp add: rows_def rows_of_def filter_map comp_def split_beta)
  then have "touches {?k} d0 ?d1" by (simp add: touches_def)
  then have "touches {?k} d0 ?d'" by (auto intro!: touches_trans [OF _ touches_setMeta])
  moreover have "touches {?k} d d0" by (simp add: d0_def touches_deleteKeys)
  ultimately have t: "touches {?k} d ?d'" using touches_trans by blast
  have "map fst ?new = map (Pair ?k) (map fst ms)" by (simp add: split_beta)
  moreover have "distinct (map (Pair ?k) (map fst ms))" using dist by (subst distinct_map) (simp add: inj_on_def)
  ultimately have "distinct (map fst ?new)" by metis
  then have "pk_distinct (kv_zsets ?d')"
    unfolding z using wf0 none(1) by (auto simp: wf_db_def rows_of_def filter_empty_conv)
  then have "wf_db ?d'" using wf0 unfolding z by (auto simp: wf_db_def)
  moreover have "map_of (kv_strings ?d') ?k = None" using none(2) by simp
  ultimately show ?thesis using eq sc t by blast
qed

section \<open>Properties\<close>







text \<open>
  ZRANGESTORE with a destination other than the source stores the members
  the range query selects; with the source as destination the key is dropped
  before it is read, so the command answers 0 and the sorted set is lost.
\<close>

theorem zrangestore_replaces:
  assumes "wf_db d"
  shows "(encodeKey dst \<noteq> encodeKey src \<longrightarrow> (\<forall>ms. zStoreQuery now (encodeKey src) spec d = Inr ms \<longrightarrow>
      (\<exists>d'. zRangeStore now dst src spec d = (Inr (int (length ms)), d')
        \<and> (\<forall>m. zScore now dst m d' = map_of ms m) \<and> touches {encodeKey dst} d d')))
    \<and> (sBy spec = ZRangeByIndex \<longrightarrow>
      (\<exists>d'. zRangeStore now src src spec d = (Inr 0, d') \<and> (\<forall>m. zScore now src m d' = None)))"
proof (intro conjI impI allI)
  fix ms assume ne: "encodeKey dst \<noteq> encodeKey src" and q: "zStoreQuery now (encodeKey src) spec d = Inr ms"
  let ?d0 = "deleteKeyFromAllTables (encodeKey dst) d"
  have "rows_of (encodeKey src) (kv_zsets ?d0) = rows_of (encodeKey src) (kv_zsets d)"
    using rows_deleteKeys(1) [of "encodeKey src" "encodeKey dst" d] ne by (simp add: rows_def)
  then have liv: "zLive now (encodeKey src) ?d0 = zLive now (encodeKey src) d" by (simp add: zLive_def)
  have "zStoreQuery now (encodeKey src) spec ?d0 = Inr ms"
    using q unfolding zStoreQuery_def zIndexRange_def zScoreRange_def zLexMembers_def zOrdered_def zSorted_def liv .
  from zRangeStore_refines [OF assms this]
  show "\<exists>d'. zRangeStore now dst src spec d = (Inr (int (length ms)), d')
      \<and> (\<forall>m. zScore now dst m d' = map_of ms m) \<and> touches {encodeKey dst} d d'" by blast
next
  assume "sBy spec = ZRangeByIndex"
  moreover have "zLive now (encodeKey src) (deleteKeyFromAllTables (encodeKey src) d) = []"
    using rows_deleteKeys(1) [of "encodeKey src" "encodeKey src" d] by (simp add: rows_def zLive_def)
  ultimately have "zStoreQuery now (encodeKey src) spec (deleteKeyFromAllTables (encodeKey src) d) = Inr []"
    by (simp add: zStoreQuery_def zIndexRange_def Let_def split_beta)
  from zRangeStore_refines [OF assms this]
  show "\<exists>d'. zRangeStore now src src spec d = (Inr 0, d') \<and> (\<forall>m. zScore now src m d' = None)" by auto
qed

theorem zrangestore_replaces_witness:
  "let d = (initSchema :: nat db)\<lparr>kv_zsets := [((''z'', ''a''), (1, None))]\<rparr>;
       spec = \<lparr>sBy = ZRangeByIndex, sRev = False, sStart = 0, sStop = -1, sMinScore = 0, sMaxScore = 0,
         sMinLex = \<lparr>lexValue = [], lexInclusive = True, lexInfinity = -1\<rparr>,
         sMaxLex = \<lparr>lexValue = [], lexInclusive = True, lexInfinity = 1\<rparr>, sOffset = 0, sCount = 0\<rparr>
   in zScore 0 ''z'' ''a'' d = Some 1
      \<and> (\<exists>d'. zRangeStore 0 ''z'' ''z'' spec d = (Inr 0, d') \<and> zScore 0 ''z'' ''a'' d' = None)"
proof -
  let ?d = "(initSchema :: nat db)\<lparr>kv_zsets := [((''z'', ''a''), (1, None))]\<rparr>"
  let ?spec = "\<lparr>sBy = ZRangeByIndex, sRev = False, sStart = 0, sStop = -1, sMinScore = 0, sMaxScore = 0 :: nat,
    sMinLex = \<lparr>lexValue = [], lexInclusive = True, lexInfinity = -1\<rparr>,
         sMaxLex = \<lparr>lexValue = [], lexInclusive = True, lexInfinity = 1\<rparr>, sOffset = 0, sCount = 0\<rparr>"
  have "wf_db ?d" by (simp add: wf_db_def initSchema_def)
  moreover have "encodeKey ''z'' = ''z''" by (simp add: encodeKey_def ValidString_ascii in_range_def)
  then have "zScore 0 ''z'' ''a'' ?d = Some 1" by (simp add: zScore_def)
  ultimately show ?thesis
    using zrangestore_replaces [of ?d "''y''" "''z''" 0 ?spec] by (simp add: Let_def) blast
qed

end
