(* ===== verification/Bitmaps.thy ===== *)
theory Bitmaps
  imports Keyspace "HOL-Library.Signed_Division"
begin

text \<open>
  The bitmap commands and BITFIELD of \<^verbatim>\<open>queryOps\<close> in
  \<^verbatim>\<open>src/internal/storage/querier.go\<close>, on the bytes of a string value.  Bit offsets
  are 64-bit integers and may be negative; Go's division truncates towards
  zero.  An index out of range panics in Go and is Inl (or None in a helper)
  here.  Exhaustion of memory by a huge offset is not modelled.
\<close>

unbundle bit_operations_syntax

section \<open>Single bits\<close>

text \<open>\<^verbatim>\<open>1 << n\<close> in an int64, and \<^verbatim>\<open>b & (1 << n)\<close> in a byte, where a shift of 8 or more is 0.\<close>

definition shl1 :: "nat \<Rightarrow> int" where
  "shl1 n = wrap64 (2 ^ n)"

definition byteBit :: "char \<Rightarrow> int \<Rightarrow> bool" where
  "byteBit c n = (0 \<le> n \<and> n < 8 \<and> bit (of_char c :: nat) (nat n))"

definition setByteBit :: "int \<Rightarrow> bool \<Rightarrow> char \<Rightarrow> char" where
  "setByteBit n b c =
     (if 0 \<le> n \<and> n < 8
      then char_of (if b then set_bit (nat n) (of_char c :: nat) else unset_bit (nat n) (of_char c :: nat))
      else c)"

definition errPanicIndex :: string where
  "errPanicIndex = ''runtime error: index out of range''"

section \<open>BITFIELD helpers\<close>

record BitFieldOp =
  OpType :: string
  Encoding :: string
  Offset :: int
  OpValue :: int
  Overflow :: string

definition bitfieldBounds :: "nat \<Rightarrow> bool \<Rightarrow> int \<times> int" where
  "bitfieldBounds bitWidth signed =
     (if signed
      then (wrap64 (- shl1 (bitWidth - 1)), wrap64 (shl1 (bitWidth - 1) - 1))
      else (0, wrap64 (shl1 bitWidth - 1)))"

text \<open>The two loops of \<^verbatim>\<open>wrapBitfield\<close>; not returning is None.\<close>

partial_function (option) wrapDown :: "int \<Rightarrow> int \<Rightarrow> int option" where
  "wrapDown m v = (if v \<ge> m then wrapDown m (wrap64 (v - wrap64 (m * 2))) else Some v)"

partial_function (option) wrapUp :: "int \<Rightarrow> int \<Rightarrow> int option" where
  "wrapUp m v = (if v < wrap64 (- m) then wrapUp m (wrap64 (v + wrap64 (m * 2))) else Some v)"

definition wrapBitfield :: "int \<Rightarrow> nat \<Rightarrow> bool \<Rightarrow> int option" where
  "wrapBitfield v bitWidth signed =
     (if bitWidth \<ge> 64 then Some v
      else if signed
      then let m = shl1 (bitWidth - 1)
           in case wrapDown m v of None \<Rightarrow> None | Some v \<Rightarrow> wrapUp m v
      else Some (v AND wrap64 (shl1 bitWidth - 1)))"

definition bitfieldResolveOverflow :: "string \<Rightarrow> bool \<Rightarrow> bool \<Rightarrow> int \<Rightarrow> int \<Rightarrow> int \<Rightarrow> int option" where
  "bitfieldResolveOverflow mode high low wrapped lo hi =
     (if \<not> high \<and> \<not> low then Some wrapped
      else if mode = ''SAT'' then (if high then Some hi else Some lo)
      else if mode = ''FAIL'' then None
      else Some wrapped)"

text \<open>The bit a field reads at an absolute position: None is a negative byte index.\<close>

definition readBit :: "string \<Rightarrow> int \<Rightarrow> bool option" where
  "readBit data pos =
     (let byteIdx = pos sdiv 8; bitIdx = 7 - pos smod 8
      in if byteIdx < int (length data)
         then (if byteIdx < 0 then None else Some (byteBit (data ! nat byteIdx) bitIdx))
         else Some False)"

definition writeBit :: "int \<Rightarrow> bool \<Rightarrow> string \<Rightarrow> string option" where
  "writeBit pos b data =
     (let byteIdx = pos sdiv 8; bitIdx = 7 - pos smod 8
      in if byteIdx < int (length data)
         then (if byteIdx < 0 then None
               else Some (data[nat byteIdx := setByteBit bitIdx b (data ! nat byteIdx)]))
         else Some data)"

fun getBits :: "string \<Rightarrow> int \<Rightarrow> nat \<Rightarrow> nat list \<Rightarrow> int \<Rightarrow> int option" where
  "getBits data bitOffset bitWidth [] acc = Some acc"
| "getBits data bitOffset bitWidth (i # is) acc =
     (case readBit data (bitOffset + int i) of
        None \<Rightarrow> None
      | Some b \<Rightarrow> getBits data bitOffset bitWidth is (if b then acc OR shl1 (bitWidth - 1 - i) else acc))"

definition getBitField :: "string \<Rightarrow> int \<Rightarrow> nat \<Rightarrow> bool \<Rightarrow> int option" where
  "getBitField data bitOffset bitWidth signed =
     (case getBits data bitOffset bitWidth [0..<bitWidth] 0 of
        None \<Rightarrow> None
      | Some r \<Rightarrow>
          Some (if signed \<and> bitWidth > 0 \<and> r AND shl1 (bitWidth - 1) \<noteq> 0
                then r OR NOT (wrap64 (shl1 bitWidth - 1)) else r))"

fun setBits :: "int \<Rightarrow> nat \<Rightarrow> int \<Rightarrow> nat list \<Rightarrow> string \<Rightarrow> string option" where
  "setBits bitOffset bitWidth v [] data = Some data"
| "setBits bitOffset bitWidth v (i # is) data =
     (case writeBit (bitOffset + int i) (bit v (bitWidth - 1 - i)) data of
        None \<Rightarrow> None
      | Some data \<Rightarrow> setBits bitOffset bitWidth v is data)"

definition setBitField :: "int \<Rightarrow> nat \<Rightarrow> int \<Rightarrow> string \<Rightarrow> string option" where
  "setBitField bitOffset bitWidth v data = setBits bitOffset bitWidth v [0..<bitWidth] data"

section \<open>BITFIELD\<close>

text \<open>The state of the operation loop: the buffer, the results so far, and \<^verbatim>\<open>modified\<close>.\<close>

type_synonym bf_state = "string \<times> int option list \<times> bool"

definition opWidth :: "string \<Rightarrow> nat" where
  "opWidth enc =
     (let w = (if length enc > 1 then (case ParseInt (tl enc) of Inr n \<Rightarrow> n | Inl _ \<Rightarrow> 0) else 0)
      in if w \<le> 0 \<or> w > 64 then 8 else nat w)"

definition opSigned :: "string \<Rightarrow> bool" where
  "opSigned enc = (enc \<noteq> [] \<and> hd enc = CHR ''i'')"

text \<open>
  One iteration: the outer option is non-termination, Inl a panic.  An \<^verbatim>\<open>OpType\<close>
  other than the three matches no case and only grows the buffer.
\<close>

definition bitFieldStep :: "BitFieldOp \<Rightarrow> bf_state \<Rightarrow> (string + bf_state) option" where
  "bitFieldStep bf = (\<lambda>(data, results, modified).
     let signed = opSigned (Encoding bf); bitWidth = opWidth (Encoding bf);
         bitOffset = Offset bf; byteOffset = bitOffset sdiv 8; bitInByte = bitOffset smod 8;
         neededBytes = byteOffset + (int bitWidth + bitInByte + 7) sdiv 8;
         data = growBuf data neededBytes;
         (lo, hi) = bitfieldBounds bitWidth signed
     in if OpType bf = ''GET'' then
          (case getBitField data bitOffset bitWidth signed of
             None \<Rightarrow> Some (Inl errPanicIndex)
           | Some v \<Rightarrow> Some (Inr (data, results @ [Some v], modified)))
        else if OpType bf = ''SET'' then
          (case getBitField data bitOffset bitWidth signed of
             None \<Rightarrow> Some (Inl errPanicIndex)
           | Some oldValue \<Rightarrow>
               (case bitfieldResolveOverflow (Overflow bf) (OpValue bf > hi) (OpValue bf < lo) (OpValue bf) lo hi of
                  None \<Rightarrow> Some (Inr (data, results @ [None], modified))
                | Some stored \<Rightarrow>
                    (case setBitField bitOffset bitWidth stored data of
                       None \<Rightarrow> Some (Inl errPanicIndex)
                     | Some data \<Rightarrow> Some (Inr (data, results @ [Some oldValue], True)))))
        else if OpType bf = ''INCRBY'' then
          (case getBitField data bitOffset bitWidth signed of
             None \<Rightarrow> Some (Inl errPanicIndex)
           | Some oldValue \<Rightarrow>
               let sum' = wrap64 (oldValue + OpValue bf);
                   addOverflow = (OpValue bf > 0 \<and> sum' < oldValue \<or> OpValue bf < 0 \<and> sum' > oldValue);
                   high = (addOverflow \<and> OpValue bf > 0 \<or> \<not> addOverflow \<and> sum' > hi);
                   low = (addOverflow \<and> OpValue bf < 0 \<or> \<not> addOverflow \<and> sum' < lo)
               in case wrapBitfield sum' bitWidth signed of
                    None \<Rightarrow> None
                  | Some wrapped \<Rightarrow>
                      (case bitfieldResolveOverflow (Overflow bf) high low wrapped lo hi of
                         None \<Rightarrow> Some (Inr (data, results @ [None], modified))
                       | Some newValue \<Rightarrow>
                           (case setBitField bitOffset bitWidth newValue data of
                              None \<Rightarrow> Some (Inl errPanicIndex)
                            | Some data \<Rightarrow> Some (Inr (data, results @ [Some newValue], True)))))
        else Some (Inr (data, results, modified)))"

fun bitFieldLoop :: "BitFieldOp list \<Rightarrow> bf_state \<Rightarrow> (string + bf_state) option" where
  "bitFieldLoop [] st = Some (Inr st)"
| "bitFieldLoop (bf # ops) st =
     (case bitFieldStep bf st of
        None \<Rightarrow> None
      | Some (Inl e) \<Rightarrow> Some (Inl e)
      | Some (Inr st) \<Rightarrow> bitFieldLoop ops st)"

definition bitField :: "time \<Rightarrow> string \<Rightarrow> BitFieldOp list \<Rightarrow> 's db \<Rightarrow> ((string + int option list) \<times> 's db) option" where
  "bitField now key ops d =
     (let key = encodeKey key; current = selectString now key d
      in case bitFieldLoop ops (case current of None \<Rightarrow> [] | Some v \<Rightarrow> v, [], False) of
           None \<Rightarrow> None
         | Some (Inl e) \<Rightarrow> Some (Inl e, d)
         | Some (Inr (data, results, modified)) \<Rightarrow>
             Some (Inr results,
               if modified
               then let d = (if current = None then setMeta key TypeString None d else lockKey key d)
                    in upsertStringValue key data d
               else d))"

section \<open>Bitmap commands\<close>

definition setBit :: "time \<Rightarrow> string \<Rightarrow> int \<Rightarrow> int \<Rightarrow> ('s, int) op" where
  "setBit now key offset v d =
     (let key = encodeKey key;
          data = (case selectString now key d of None \<Rightarrow> [] | Some v \<Rightarrow> v);
          byteOffset = offset sdiv 8;
          data = growBuf data (byteOffset + 1);
          bitOffset = 7 - offset smod 8
      in if byteOffset < 0 \<or> int (length data) \<le> byteOffset then (Inl errPanicIndex, d)
         else let c = data ! nat byteOffset;
                  oldBit = (if byteBit c bitOffset then 1 else 0);
                  data = data[nat byteOffset := setByteBit bitOffset (v = 1) c];
                  d = setMeta key TypeString None d
              in (Inr oldBit, upsertStringValue key data d))"

definition getBit :: "time \<Rightarrow> string \<Rightarrow> int \<Rightarrow> 's db \<Rightarrow> string + int" where
  "getBit now key offset d =
     (case selectString now (encodeKey key) d of
        None \<Rightarrow> Inr 0
      | Some data \<Rightarrow>
          let byteOffset = offset sdiv 8
          in if int (length data) \<le> byteOffset then Inr 0
             else if byteOffset < 0 then Inl errPanicIndex
             else Inr (if byteBit (data ! nat byteOffset) (7 - offset smod 8) then 1 else 0))"

text \<open>The clamping of \<^verbatim>\<open>start\<close> and \<^verbatim>\<open>end\<close> shared by BITCOUNT and BITPOS, against a length.\<close>

definition clampRange :: "int \<Rightarrow> int \<Rightarrow> int \<Rightarrow> int \<times> int" where
  "clampRange len start stop =
     (let start = (if start < 0 then len + start else start);
          stop = (if stop < 0 then len + stop else stop)
      in (if start < 0 then 0 else start, if stop \<ge> len then len - 1 else stop))"

fun popcount :: "nat \<Rightarrow> int" where
  "popcount b = (if b = 0 then 0 else int (b mod 2) + popcount (b div 2))"

declare popcount.simps [simp del]

text \<open>Bit \<open>i\<close> of a byte string, most significant bit of each byte first.\<close>

definition dataBit :: "string \<Rightarrow> nat \<Rightarrow> bool" where
  "dataBit data i = byteBit (data ! (i div 8)) (7 - int (i mod 8))"

definition bitCount :: "time \<Rightarrow> string \<Rightarrow> int \<Rightarrow> int \<Rightarrow> bool \<Rightarrow> 's db \<Rightarrow> int" where
  "bitCount now key start stop useBit d =
     (case selectString now (encodeKey key) d of
        None \<Rightarrow> 0
      | Some data \<Rightarrow>
          if data = [] then 0
          else if useBit then
            let (start, stop) = clampRange (int (length data) * 8) start stop
            in if start > stop then 0
               else int (length (filter (\<lambda>i. dataBit data (nat i)) [start..stop]))
          else
            let (start, stop) = clampRange (int (length data)) start stop
            in if start > stop then 0
               else sum_list (map (\<lambda>i. popcount (of_char (data ! nat i))) [start..stop]))"

definition bitPos :: "time \<Rightarrow> string \<Rightarrow> int \<Rightarrow> int \<Rightarrow> int \<Rightarrow> bool \<Rightarrow> 's db \<Rightarrow> int" where
  "bitPos now key b start stop useBit d =
     (case selectString now (encodeKey key) d of
        None \<Rightarrow> (if b = 0 then 0 else -1)
      | Some data \<Rightarrow>
          if data = [] then (if b = 0 then 0 else -1)
          else if useBit then
            let (start, stop) = clampRange (int (length data) * 8) start stop
            in case find (\<lambda>i. (if dataBit data (nat i) then 1 else 0) = b) [start..stop] of
                 Some i \<Rightarrow> i
               | None \<Rightarrow> -1
          else
            let len = int (length data); (start, stop) = clampRange len start stop
            in case find (\<lambda>p. (if byteBit (data ! nat (fst p)) (snd p) then 1 else 0) = b)
                     (concat (map (\<lambda>i. map (\<lambda>j. (i, j)) [7, 6, 5, 4, 3, 2, 1, 0]) [start..stop])) of
                 Some (i, j) \<Rightarrow> i * 8 + (7 - j)
               | None \<Rightarrow> if b = 0 \<and> stop < len - 1 then (stop + 1) * 8 else -1)"

definition byteOp :: "(nat \<Rightarrow> nat \<Rightarrow> nat) \<Rightarrow> char \<Rightarrow> char \<Rightarrow> char" where
  "byteOp f a b = char_of (f (of_char a) (of_char b))"

definition padTo :: "nat \<Rightarrow> string \<Rightarrow> string" where
  "padTo n v = v @ replicate (n - length v) NUL"

definition bitOpResult :: "string \<Rightarrow> string list \<Rightarrow> nat \<Rightarrow> string option" where
  "bitOpResult operation vals maxLen =
     (let op = ToUpper operation; zeros = replicate maxLen NUL
      in if op = ''AND'' then
           Some (case vals of [] \<Rightarrow> zeros | v # vs \<Rightarrow> foldl (map2 (byteOp (AND))) v vs)
         else if op = ''OR'' then Some (foldl (map2 (byteOp (OR))) zeros vals)
         else if op = ''XOR'' then Some (foldl (map2 (byteOp (XOR))) zeros vals)
         else if op = ''NOT'' then
           Some (case vals of [] \<Rightarrow> zeros | v # vs \<Rightarrow> map (\<lambda>c. char_of (255 - of_char c :: nat)) v)
         else None)"

definition bitOp :: "time \<Rightarrow> string \<Rightarrow> string \<Rightarrow> string list \<Rightarrow> ('s, int) op" where
  "bitOp now operation destKey keys d =
     (let destKey = encodeKey destKey; keys = encodeKeys keys
      in if keys = [] then (Inr 0, d)
         else let vals = map (\<lambda>key. case selectString now key d of None \<Rightarrow> [] | Some v \<Rightarrow> v) keys;
                  maxLen = foldl max 0 (map length vals)
              in case bitOpResult operation (map (padTo maxLen) vals) maxLen of
                   None \<Rightarrow> (Inl (''ERR BITOP: unsupported operation '' @ [CHR 0x27] @ operation @ [CHR 0x27]), d)
                 | Some result \<Rightarrow>
                     let d = deleteKeyFromAllTables destKey d; d = setMeta destKey TypeString None d
                     in (Inr (int maxLen), upsertStringValue destKey result d))"

section \<open>Lemmas\<close>

subsection \<open>Bits of byte strings\<close>

lemma smod_sdiv_nonneg: "0 \<le> p \<Longrightarrow> p sdiv 8 = p div 8" "0 \<le> p \<Longrightarrow> p smod 8 = p mod (8 :: int)"
  by (cases "p = 0"; simp add: signed_divide_int_def signed_modulo_int_def)+

lemma byteBit_char_of: "byteBit (char_of x) n = (0 \<le> n \<and> n < 8 \<and> bit (x :: nat) (nat n))"
proof -
  have "(of_char (char_of x :: char) :: nat) = take_bit 8 x" by (simp add: take_bit_eq_mod)
  then show ?thesis by (auto simp: byteBit_def bit_take_bit_iff)
qed

lemma byteBit_setByteBit:
  assumes "0 \<le> n" "n < 8"
  shows "byteBit (setByteBit n b c) m = (if m = n then b else byteBit c m)"
proof -
  have "byteBit (setByteBit n b c) m = (0 \<le> m \<and> m < 8 \<and> (if m = n then b else bit (of_char c :: nat) (nat m)))"
    using assms by (auto simp: setByteBit_def byteBit_char_of bit_simps nat_eq_iff)
  then show ?thesis using assms by (simp add: byteBit_def [of c])
qed

lemma byteBit_ext: "(\<And>n. 0 \<le> n \<Longrightarrow> n < 8 \<Longrightarrow> byteBit c n = byteBit c' n) \<Longrightarrow> c = c'"
proof -
  assume eq: "\<And>n. 0 \<le> n \<Longrightarrow> n < 8 \<Longrightarrow> byteBit c n = byteBit c' n"
  have "bit (of_char c :: nat) n = bit (of_char c' :: nat) n" for n
  proof (cases "n < 8")
    case True
    then show ?thesis using eq [of "int n"] by (simp add: byteBit_def)
  next
    case False
    have "take_bit 8 (of_char x :: nat) = of_char x" for x :: char by (simp add: take_bit_eq_mod)
    then have "\<not> bit (of_char x :: nat) n" for x :: char using False by (metis bit_take_bit_iff)
    then show ?thesis by simp
  qed
  then have "(of_char c :: nat) = of_char c'" by (simp add: bit_eq_iff)
  then show "c = c'" by simp
qed

text \<open>Bits beyond the end read as zero.\<close>

definition bitAt :: "string \<Rightarrow> nat \<Rightarrow> bool" where
  "bitAt data i = (i < 8 * length data \<and> dataBit data i)"

lemma idx:
  assumes "0 \<le> p"
  shows "nat (p div 8) = nat p div 8" "p mod 8 = int (nat p mod 8)" "p div 8 < int n \<longleftrightarrow> nat p < 8 * n"
proof -
  show "nat (p div 8) = nat p div 8" using assms by (simp add: nat_div_distrib)
  show "p mod 8 = int (nat p mod 8)" using assms zmod_int [of "nat p" 8] by simp
  have "p div 8 < int n \<longleftrightarrow> p < 8 * int n" by presburger
  then show "p div 8 < int n \<longleftrightarrow> nat p < 8 * n" using assms by linarith
qed

lemma readBit_nonneg: "0 \<le> p \<Longrightarrow> readBit data p = Some (bitAt data (nat p))"
  by (auto simp: readBit_def Let_def smod_sdiv_nonneg bitAt_def dataBit_def idx div_less_iff_less_mult
      pos_imp_zdiv_neg_iff)

lemma writeBit_nonneg:
  assumes "0 \<le> p" "nat p < 8 * length data"
  shows "\<exists>data'. writeBit p b data = Some data' \<and> length data' = length data
    \<and> (\<forall>i. bitAt data' i = (if i = nat p then b else bitAt data i))"
proof -
  let ?k = "nat p div 8" and ?n = "7 - p mod 8"
  let ?data = "data[?k := setByteBit ?n b (data ! ?k)]"
  have n: "0 \<le> ?n" "?n < 8" using assms(1) pos_mod_bound [of 8 p] pos_mod_sign [of 8 p] by simp_all
  have "writeBit p b data = Some ?data"
    using assms by (simp add: writeBit_def Let_def smod_sdiv_nonneg idx pos_imp_zdiv_neg_iff)
  moreover have "bitAt ?data i = (if i = nat p then b else bitAt data i)" for i
  proof (cases "i div 8 = ?k")
    case True
    have "(7 - int (i mod 8) = ?n) = (i mod 8 = nat p mod 8)" using assms(1) by (simp add: idx)
    also have "\<dots> = (i = nat p)" using True by (metis div_mult_mod_eq)
    finally show ?thesis using assms True n
      by (auto simp: bitAt_def dataBit_def byteBit_setByteBit less_mult_imp_div_less mult.commute)
  next
    case False
    then show ?thesis by (auto simp: bitAt_def dataBit_def)
  qed
  ultimately show ?thesis by (metis length_list_update)
qed

lemma bitAt_growBuf: "bitAt (growBuf data n) i = bitAt data i"
proof -
  have z: "byteBit NUL m = False" for m by (simp add: byteBit_def)
  show ?thesis
  proof (cases "i div 8 < length data")
    case True
    then show ?thesis by (auto simp: growBuf_def bitAt_def dataBit_def nth_append)
  next
    case False
    then have "\<not> i < 8 * length data" by (simp add: not_less less_eq_div_iff_mult_less_eq mult.commute)
    moreover have "i < 8 * k \<Longrightarrow> i div 8 < k" for k by (simp add: less_mult_imp_div_less mult.commute)
    ultimately show ?thesis using False z by (auto simp: growBuf_def bitAt_def dataBit_def nth_append)
  qed
qed

subsection \<open>Words of 64 bits\<close>

lemma wrap64_signed: "wrap64 x = signed_take_bit 63 x"
  by (simp add: wrap64_def signed_take_bit_eq_take_bit_shift take_bit_eq_mod)

lemma bit_shl1: "n \<le> 63 \<Longrightarrow> bit (shl1 n) k = (if n = 63 then k \<ge> 63 else k = n)"
  by (auto simp: shl1_def wrap64_signed bit_signed_take_bit_iff bit_exp_iff min_def)

lemma int64_pow: "n \<le> 62 \<Longrightarrow> int64 (2 ^ n)" "n \<le> 63 \<Longrightarrow> int64 (2 ^ n - 1)"
proof -
  have pos: "(0 :: int) < 2 ^ n" by simp
  show "int64 (2 ^ n)" if "n \<le> 62"
  proof -
    have "(2 :: int) ^ n \<le> 2 ^ 62" using that by (intro power_increasing) auto
    then have "(2 :: int) ^ n \<le> 4611686018427387904" by simp
    with pos show ?thesis unfolding int64_bounds by (intro conjI; linarith)
  qed
  show "int64 (2 ^ n - 1)" if "n \<le> 63"
  proof -
    have "(2 :: int) ^ n \<le> 2 ^ 63" using that by (intro power_increasing) auto
    then have "(2 :: int) ^ n \<le> 9223372036854775808" by simp
    with pos show ?thesis unfolding int64_bounds by (intro conjI; linarith)
  qed
qed

lemma shl1_eq: "n \<le> 62 \<Longrightarrow> shl1 n = 2 ^ n" "shl1 63 = - 9223372036854775808" "shl1 64 = 0"
  by (simp_all add: shl1_def int64_pow) (simp_all add: wrap64_def)

lemma shl1_mask: "n < 64 \<Longrightarrow> wrap64 (shl1 n - 1) = mask n"
proof (cases "n = 63")
  case True
  then show ?thesis by (simp add: shl1_eq mask_eq_exp_minus_1 wrap64_def)
next
  case False
  assume "n < 64"
  with False show ?thesis by (simp add: shl1_eq mask_eq_exp_minus_1 int64_pow)
qed

lemma getBits_bit:
  assumes "0 \<le> off"
  shows "\<exists>r. getBits data off w is acc = Some r \<and>
    (\<forall>k. bit r k \<longleftrightarrow> bit acc k \<or> (\<exists>i \<in> set is. bitAt data (nat off + i) \<and> bit (shl1 (w - 1 - i)) k))"
proof (induction "is" arbitrary: acc)
  case (Cons i "is")
  have "readBit data (off + int i) = Some (bitAt data (nat off + i))"
    using readBit_nonneg [of "off + int i" data] assms by (simp add: nat_add_distrib)
  then show ?case
    using Cons [of "if bitAt data (nat off + i) then acc OR shl1 (w - 1 - i) else acc"]
    by (auto simp: bit_or_iff)
qed simp

lemma getBitField_bit:
  assumes "0 \<le> off" "1 \<le> w" "w \<le> 64"
  shows "\<exists>r. getBitField data off w signed = Some r \<and>
    (\<forall>k. bit r k \<longleftrightarrow> (if k < w then bitAt data (nat off + (w - 1 - k)) else (signed \<or> w = 64) \<and> bitAt data (nat off)))"
proof -
  obtain r where r: "getBits data off w [0..<w] 0 = Some r"
    "\<And>k. bit r k \<longleftrightarrow> (\<exists>i < w. bitAt data (nat off + i) \<and> bit (shl1 (w - 1 - i)) k)"
    using getBits_bit [OF assms(1), of data w "[0..<w]" 0] by (auto simp: Bex_def)
  have bitr: "bit r k \<longleftrightarrow> (if k < w then bitAt data (nat off + (w - 1 - k)) else w = 64 \<and> bitAt data (nat off))" for k
  proof -
    have "bit r k \<longleftrightarrow> (\<exists>i < w. bitAt data (nat off + i) \<and> (if i = 0 \<and> w = 64 then k \<ge> 63 else k = w - 1 - i))"
      unfolding r(2) using assms(2,3) by (intro ex_cong1 conj_cong refl) (auto simp: bit_shl1)
    also have "\<dots> \<longleftrightarrow> (if k < w then bitAt data (nat off + (w - 1 - k)) else w = 64 \<and> bitAt data (nat off))"
    proof (cases "k < w")
      case True
      have "(if i = 0 \<and> w = 64 then k \<ge> 63 else k = w - 1 - i) \<longleftrightarrow> i = w - 1 - k" if "i < w" for i
        using True that by auto
      then have "(\<exists>i < w. bitAt data (nat off + i) \<and> (if i = 0 \<and> w = 64 then k \<ge> 63 else k = w - 1 - i)) \<longleftrightarrow>
          (\<exists>i < w. bitAt data (nat off + i) \<and> i = w - 1 - k)" by blast
      with True show ?thesis by auto
    next
      case False
      have "(if i = 0 \<and> w = 64 then k \<ge> 63 else k = w - 1 - i) \<longleftrightarrow> i = 0 \<and> w = 64" if "i < w" for i
        using False that by auto
      then have "(\<exists>i < w. bitAt data (nat off + i) \<and> (if i = 0 \<and> w = 64 then k \<ge> 63 else k = w - 1 - i)) \<longleftrightarrow>
          (\<exists>i < w. bitAt data (nat off + i) \<and> i = 0 \<and> w = 64)" by blast
      with False show ?thesis by auto
    qed
    finally show ?thesis .
  qed
  have sgn: "r AND shl1 (w - 1) \<noteq> 0 \<longleftrightarrow> bitAt data (nat off)"
  proof -
    have "r AND shl1 (w - 1) \<noteq> 0 \<longleftrightarrow> (\<exists>k. bit r k \<and> bit (shl1 (w - 1)) k)"
      by (simp add: bit_eq_iff bit_and_iff)
    also have "\<dots> \<longleftrightarrow> (\<exists>k. bit r k \<and> (if w = 64 then k \<ge> 63 else k = w - 1))"
      using assms(2,3) by (intro ex_cong1 conj_cong refl) (auto simp: bit_shl1)
    also have "\<dots> \<longleftrightarrow> bitAt data (nat off)"
    proof (cases "w = 64")
      case True
      have "bit r k \<longleftrightarrow> bitAt data (nat off)" if "k \<ge> 63" for k
      proof (cases "k < w")
        case True
        then have "k = 63" using \<open>w = 64\<close> that by simp
        then show ?thesis using \<open>w = 64\<close> by (simp add: bitr)
      qed (simp add: bitr \<open>w = 64\<close>)
      then show ?thesis using True by auto
    next
      case False
      then show ?thesis using assms(2) by (simp add: bitr)
    qed
    finally show ?thesis .
  qed
  have ext: "bit (NOT (wrap64 (shl1 w - 1))) k \<longleftrightarrow> w < 64 \<and> k \<ge> w" for k
  proof (cases "w = 64")
    case True
    then show ?thesis by (simp add: shl1_def wrap64_def)
  next
    case False
    then show ?thesis using assms(3) by (simp add: shl1_mask bit_not_iff bit_mask_iff not_less)
  qed
  show ?thesis
    using r(1) sgn bitr assms by (auto simp: getBitField_def bit_or_iff ext)
qed

lemma setBits_bit:
  assumes "0 \<le> off" "\<forall>i \<in> set is. nat off + i < 8 * length data" "distinct is"
  shows "\<exists>data'. setBits off w v is data = Some data' \<and> length data' = length data \<and>
    (\<forall>j. bitAt data' j = (if nat off \<le> j \<and> j - nat off \<in> set is then bit v (w - 1 - (j - nat off)) else bitAt data j))"
  using assms(2,3)
proof (induction "is" arbitrary: data)
  case (Cons i "is")
  obtain data1 where d1: "writeBit (off + int i) (bit v (w - 1 - i)) data = Some data1" "length data1 = length data"
    "\<forall>j. bitAt data1 j = (if j = nat off + i then bit v (w - 1 - i) else bitAt data j)"
    using writeBit_nonneg [of "off + int i" data "bit v (w - 1 - i)"] assms(1) Cons.prems(1)
    by (auto simp: nat_add_distrib)
  then obtain data' where d': "setBits off w v is data1 = Some data'" "length data' = length data1"
    "\<forall>j. bitAt data' j = (if nat off \<le> j \<and> j - nat off \<in> set is then bit v (w - 1 - (j - nat off)) else bitAt data1 j)"
    using Cons.IH [of data1] Cons.prems by auto
  have "bitAt data' j = (if nat off \<le> j \<and> j - nat off \<in> set (i # is) then bit v (w - 1 - (j - nat off)) else bitAt data j)" for j
    using d'(3) d1(3) Cons.prems(2) by auto
  with d' d1 show ?case by simp
qed simp

lemma setBitField_bit:
  assumes "0 \<le> off" "nat off + w \<le> 8 * length data"
  shows "\<exists>data'. setBitField off w v data = Some data' \<and> length data' = length data \<and>
    (\<forall>j. bitAt data' j = (if nat off \<le> j \<and> j < nat off + w then bit v (w - 1 - (j - nat off)) else bitAt data j))"
proof -
  have "nat off \<le> j \<and> j - nat off < w \<longleftrightarrow> nat off \<le> j \<and> j < nat off + w" for j by auto
  with setBits_bit [OF assms(1), of "[0..<w]" data w v] assms(2) show ?thesis
    by (auto simp: setBitField_def)
qed

text \<open>The integer a field of this encoding represents for a given value.\<close>

definition fieldWrap :: "nat \<Rightarrow> bool \<Rightarrow> int \<Rightarrow> int" where
  "fieldWrap w signed v = (if signed \<or> w = 64 then signed_take_bit (w - 1) v else take_bit w v)"

lemma bit_fieldWrap:
  "1 \<le> w \<Longrightarrow> bit (fieldWrap w signed v) k = (if k < w then bit v k else (signed \<or> w = 64) \<and> bit v (w - 1))"
proof -
  assume "1 \<le> w"
  then have "min k (w - 1) = (if k < w then k else w - 1)" by auto
  then show ?thesis by (auto simp: fieldWrap_def bit_signed_take_bit_iff bit_take_bit_iff)
qed

lemma getBitField_setBitField:
  assumes "0 \<le> off" "1 \<le> w" "w \<le> 64" "nat off + w \<le> 8 * length data"
  shows "\<exists>data'. setBitField off w v data = Some data' \<and> length data' = length data
    \<and> getBitField data' off w signed = Some (fieldWrap w signed v)
    \<and> (\<forall>off' w' s'. 0 \<le> off' \<and> 1 \<le> w' \<and> w' \<le> 64 \<and> (nat off' + w' \<le> nat off \<or> nat off + w \<le> nat off') \<longrightarrow>
        getBitField data' off' w' s' = getBitField data off' w' s')"
proof -
  obtain data' where d': "setBitField off w v data = Some data'" "length data' = length data"
    and b: "\<And>j. bitAt data' j = (if nat off \<le> j \<and> j < nat off + w then bit v (w - 1 - (j - nat off)) else bitAt data j)"
    using setBitField_bit [OF assms(1,4)] by blast
  obtain r where r: "getBitField data' off w signed = Some r"
    "\<And>k. bit r k \<longleftrightarrow> (if k < w then bitAt data' (nat off + (w - 1 - k)) else (signed \<or> w = 64) \<and> bitAt data' (nat off))"
    using getBitField_bit [OF assms(1-3)] by blast
  have "r = fieldWrap w signed v"
    unfolding bit_eq_iff r(2) bit_fieldWrap [OF assms(2)] b using assms(2) by auto
  moreover have "getBitField data' off' w' s' = getBitField data off' w' s'"
    if bnd: "0 \<le> off'" "1 \<le> w'" "w' \<le> 64" and dis: "nat off' + w' \<le> nat off \<or> nat off + w \<le> nat off'" for off' w' s'
  proof -
    have "bitAt data' j = bitAt data j" if "nat off' \<le> j" "j < nat off' + w'" for j
      using that dis by (auto simp: b)
    then have "bitAt data' (nat off' + (w' - 1 - k)) = bitAt data (nat off' + (w' - 1 - k))" "bitAt data' (nat off') = bitAt data (nat off')" for k
      using bnd(2) by auto
    note same = this
    obtain r1 where r1: "getBitField data off' w' s' = Some r1" "\<And>k. bit r1 k \<longleftrightarrow>
        (if k < w' then bitAt data (nat off' + (w' - 1 - k)) else (s' \<or> w' = 64) \<and> bitAt data (nat off'))"
      using getBitField_bit [OF bnd] by blast
    obtain r2 where r2: "getBitField data' off' w' s' = Some r2" "\<And>k. bit r2 k \<longleftrightarrow>
        (if k < w' then bitAt data' (nat off' + (w' - 1 - k)) else (s' \<or> w' = 64) \<and> bitAt data' (nat off'))"
      using getBitField_bit [OF bnd] by blast
    have "r2 = r1" unfolding bit_eq_iff r1(2) r2(2) same by simp
    with r1(1) r2(1) show ?thesis by simp
  qed
  ultimately show ?thesis using d' r(1) by blast
qed

subsection \<open>Overflow\<close>

lemma wrapDown_returns:
  assumes "1 \<le> w" "w \<le> 63" "int64 v"
  shows "\<exists>v'. wrapDown (shl1 (w - 1)) v = Some v' \<and> v' < 2 ^ (w - 1) \<and> int64 v' \<and> v' mod 2 ^ w = v mod 2 ^ w
    \<and> (- (2 ^ (w - 1)) \<le> v \<longrightarrow> - (2 ^ (w - 1)) \<le> v')"
  using assms(3)
proof (induction "nat (v + 9223372036854775808)" arbitrary: v rule: less_induct)
  case less
  let ?m = "(2 :: int) ^ (w - 1)"
  have m: "shl1 (w - 1) = ?m" "0 < ?m" "?m \<le> 4611686018427387904"
  proof -
    have "?m \<le> 2 ^ 62" using assms(2) by (intro power_increasing) auto
    then show "?m \<le> 4611686018427387904" by simp
  qed (use assms(2) in \<open>simp_all add: shl1_eq\<close>)
  have dbl: "2 * ?m = 2 ^ w" using assms(1) by (metis power_Suc Suc_diff_1 less_eq_Suc_le One_nat_def)
  show ?case
  proof (cases "v \<ge> ?m")
    case True
    have b: "v \<le> 9223372036854775807" using less.prems by (simp add: int64_bounds)
    have "int64 (v - 2 * ?m)" unfolding int64_bounds using True b m(2,3) by (intro conjI; linarith)
    moreover have "wrap64 (v - wrap64 (?m * 2)) = wrap64 (v - 2 * ?m)"
      by (simp add: wrap64_def mod_simps algebra_simps)
    ultimately have st: "wrap64 (v - wrap64 (?m * 2)) = v - 2 * ?m" "int64 (v - 2 * ?m)" by simp_all
    have "0 \<le> v - 2 * ?m + 9223372036854775808" "v - 2 * ?m + 9223372036854775808 < v + 9223372036854775808" using True m(2,3) by linarith+
    then have "nat (v - 2 * ?m + 9223372036854775808) < nat (v + 9223372036854775808)" by (simp only: nat_less_eq_zless)
    from less.hyps [OF this st(2)] show ?thesis
      using True m st dbl by (subst wrapDown.simps) (auto simp: mod_simps mod_diff_eq)
  next
    case False
    then show ?thesis using less.prems m by (subst wrapDown.simps) simp
  qed
qed

lemma wrapUp_returns:
  assumes "1 \<le> w" "w \<le> 63" "int64 v" "v < 2 ^ (w - 1)"
  shows "\<exists>v'. wrapUp (shl1 (w - 1)) v = Some v' \<and> - (2 ^ (w - 1)) \<le> v' \<and> v' < 2 ^ (w - 1) \<and> v' mod 2 ^ w = v mod 2 ^ w"
  using assms(3,4)
proof (induction "nat (9223372036854775808 - v)" arbitrary: v rule: less_induct)
  case less
  let ?m = "(2 :: int) ^ (w - 1)"
  have m: "shl1 (w - 1) = ?m" "0 < ?m" "?m \<le> 4611686018427387904"
  proof -
    have "?m \<le> 2 ^ 62" using assms(2) by (intro power_increasing) auto
    then show "?m \<le> 4611686018427387904" by simp
  qed (use assms(2) in \<open>simp_all add: shl1_eq\<close>)
  have dbl: "2 * ?m = 2 ^ w" using assms(1) by (metis power_Suc Suc_diff_1 less_eq_Suc_le One_nat_def)
  have "int64 (- ?m)" unfolding int64_bounds using m(2,3) by (intro conjI; linarith)
  then have neg: "wrap64 (- ?m) = - ?m" by simp
  show ?case
  proof (cases "v < - ?m")
    case True
    have b: "- 9223372036854775808 \<le> v" using less.prems by (simp add: int64_bounds)
    have "int64 (v + 2 * ?m)" unfolding int64_bounds using True b m(2,3) by (intro conjI; linarith)
    moreover have "wrap64 (v + wrap64 (?m * 2)) = wrap64 (v + 2 * ?m)"
      by (simp add: wrap64_def mod_simps algebra_simps)
    ultimately have st: "wrap64 (v + wrap64 (?m * 2)) = v + 2 * ?m" "int64 (v + 2 * ?m)" by simp_all
    have "0 \<le> 9223372036854775808 - (v + 2 * ?m)" "9223372036854775808 - (v + 2 * ?m) < 9223372036854775808 - v"
      "v + 2 * ?m < ?m" using True m(2,3) by linarith+
    then have "nat (9223372036854775808 - (v + 2 * ?m)) < nat (9223372036854775808 - v)" "v + 2 * ?m < ?m"
      by (simp_all only: nat_less_eq_zless)
    from less.hyps [OF this(1) st(2) this(2)] show ?thesis
      using True m st dbl neg by (subst wrapUp.simps) (auto simp: mod_simps)
  next
    case False
    then show ?thesis using less.prems m neg by (subst wrapUp.simps) simp
  qed
qed

lemma wrapBitfield_eq:
  assumes "1 \<le> w" "w \<le> 64" "int64 v"
  shows "wrapBitfield v w signed = Some (fieldWrap w signed v)"
proof (cases "w = 64")
  case True
  have "signed_take_bit 63 v = v" using wrap64_signed [of v] assms(3) by simp
  with True show ?thesis by (simp add: wrapBitfield_def fieldWrap_def)
next
  case False
  show ?thesis
  proof (cases signed)
    case True
    let ?m = "(2 :: int) ^ (w - 1)"
    have Suc: "Suc (w - 1) = w" using assms(1) by simp
    obtain v1 where v1: "wrapDown (shl1 (w - 1)) v = Some v1" "v1 < ?m" "int64 v1" "v1 mod 2 ^ w = v mod 2 ^ w"
      using wrapDown_returns [of w v] False assms by auto
    obtain v2 where v2: "wrapUp (shl1 (w - 1)) v1 = Some v2" "- ?m \<le> v2" "v2 < ?m" "v2 mod 2 ^ w = v1 mod 2 ^ w"
      using wrapUp_returns [of w v1] False assms v1 by auto
    have pw: "2 ^ w = 2 * ?m" by (metis Suc power_Suc)
    then have "v2 + ?m = (v2 + ?m) mod 2 ^ w" using v2(2,3) by simp
    also have "\<dots> = (v + ?m) mod 2 ^ w" using v1(4) v2(4) by (metis mod_add_left_eq)
    finally have "v2 = signed_take_bit (w - 1) v"
      unfolding signed_take_bit_eq_take_bit_shift take_bit_eq_mod Suc by linarith
    then show ?thesis using True False assms(2) v1(1) v2(1) by (simp add: wrapBitfield_def fieldWrap_def)
  next
    case unsigned: False
    with False assms(2) show ?thesis
      by (simp add: wrapBitfield_def fieldWrap_def shl1_mask take_bit_eq_mask)
  qed
qed

text \<open>The range of an encoding, for the encodings Redis admits (i1 to i64, u1 to u63).\<close>

definition fieldMin :: "nat \<Rightarrow> bool \<Rightarrow> int" where
  "fieldMin w signed = (if signed then - (2 ^ (w - 1)) else 0)"

definition fieldMax :: "nat \<Rightarrow> bool \<Rightarrow> int" where
  "fieldMax w signed = (if signed then 2 ^ (w - 1) - 1 else 2 ^ w - 1)"

lemma bitfieldBounds_eq:
  assumes "1 \<le> w" "w \<le> 63 \<or> w = 64 \<and> signed"
  shows "bitfieldBounds w signed = (fieldMin w signed, fieldMax w signed)"
    and "int64 (fieldMin w signed)" "int64 (fieldMax w signed)"
proof -
  have "int64 (- (2 ^ k))" if "k \<le> 63" for k
  proof -
    have "(2 :: int) ^ k \<le> 2 ^ 63" using that by (intro power_increasing) auto
    then have "(2 :: int) ^ k \<le> 9223372036854775808" by simp
    moreover have "(0 :: int) < 2 ^ k" by simp
    ultimately show ?thesis unfolding int64_bounds by (intro conjI; linarith)
  qed
  then show i: "int64 (fieldMin w signed)" "int64 (fieldMax w signed)"
    using assms by (auto simp: fieldMin_def fieldMax_def int64_pow) (simp_all add: int64_bounds)
  show "bitfieldBounds w signed = (fieldMin w signed, fieldMax w signed)"
  proof (cases "w = 64")
    case True
    then show ?thesis using assms by (simp add: bitfieldBounds_def fieldMin_def fieldMax_def shl1_eq wrap64_def)
  next
    case False
    then have w: "w - 1 \<le> 62" "w < 64" using assms by auto
    with i show ?thesis
      by (auto simp: bitfieldBounds_def fieldMin_def fieldMax_def shl1_eq shl1_mask mask_eq_exp_minus_1)
  qed
qed

lemma fieldWrap_range:
  assumes "1 \<le> w" "w \<le> 63 \<or> w = 64 \<and> signed"
  shows "fieldMin w signed \<le> fieldWrap w signed v \<and> fieldWrap w signed v \<le> fieldMax w signed"
  using assms signed_take_bit_int_greater_eq_minus_exp [of "w - 1" v] signed_take_bit_int_less_exp [of "w - 1" v]
    take_bit_int_less_exp [of w v]
  by (auto simp: fieldWrap_def fieldMin_def fieldMax_def)

lemma getBitField_range:
  assumes "0 \<le> off" "1 \<le> w" "w \<le> 63 \<or> w = 64 \<and> signed"
  shows "\<exists>r. getBitField data off w signed = Some r \<and> fieldMin w signed \<le> r \<and> r \<le> fieldMax w signed"
proof -
  have w: "w \<le> 64" using assms(3) by auto
  obtain r where r: "getBitField data off w signed = Some r"
    "\<And>k. bit r k \<longleftrightarrow> (if k < w then bitAt data (nat off + (w - 1 - k)) else (signed \<or> w = 64) \<and> bitAt data (nat off))"
    using getBitField_bit [OF assms(1,2) w] by blast
  have "r = fieldWrap w signed r"
    unfolding bit_eq_iff bit_fieldWrap [OF assms(2)] r(2) using assms(2) by simp
  then show ?thesis using r(1) fieldWrap_range [OF assms(2,3), of r] by auto
qed

lemma opWidth_range: "1 \<le> opWidth enc" "opWidth enc \<le> 64"
  by (auto simp: opWidth_def Let_def)

lemma grow_needed:
  assumes "0 \<le> off"
  shows "nat off + w \<le> 8 * length (growBuf data (off sdiv 8 + (int w + off smod 8 + 7) sdiv 8))"
proof -
  let ?n = "off div 8 + (int w + off mod 8 + 7) div 8"
  have sd: "off sdiv 8 + (int w + off smod 8 + 7) sdiv 8 = ?n"
    using assms pos_mod_sign [of 8 off] by (simp add: smod_sdiv_nonneg)
  have "off + int w \<le> 8 * ?n" by presburger
  moreover have "?n \<le> int (length (growBuf data ?n))" by (auto simp: growBuf_def)
  ultimately have "off + int w \<le> 8 * int (length (growBuf data ?n))"
    by (meson mult_left_mono order_trans zero_le_numeral)
  then show ?thesis unfolding sd using assms by linarith
qed

text \<open>What INCRBY must store and answer for the exact sum \<open>t\<close>; None is a refusal.\<close>

definition bf_reference :: "string \<Rightarrow> nat \<Rightarrow> bool \<Rightarrow> int \<Rightarrow> int option" where
  "bf_reference mode w signed t =
     (if fieldMin w signed \<le> t \<and> t \<le> fieldMax w signed then Some t
      else if mode = ''SAT'' then Some (max (fieldMin w signed) (min (fieldMax w signed) t))
      else if mode = ''FAIL'' then None
      else Some (fieldWrap w signed t))"

lemma bit_wrap64: "k \<le> 63 \<Longrightarrow> bit (wrap64 t) k = bit t k"
  by (simp add: wrap64_signed bit_signed_take_bit_iff)

lemma fieldWrap_wrap64: "1 \<le> w \<Longrightarrow> w \<le> 64 \<Longrightarrow> fieldWrap w signed (wrap64 t) = fieldWrap w signed t"
  by (rule bit_eqI) (simp add: bit_fieldWrap bit_wrap64)

lemma fieldWrap_id:
  assumes "1 \<le> w" "w \<le> 63 \<or> w = 64 \<and> signed" "fieldMin w signed \<le> t" "t \<le> fieldMax w signed"
  shows "fieldWrap w signed t = t"
proof (cases signed)
  case True
  then have "signed_take_bit (w - 1) t = t"
    using assms by (intro signed_take_bit_int_eq_self) (auto simp: fieldMin_def fieldMax_def)
  with True show ?thesis by (simp add: fieldWrap_def)
next
  case False
  then have "0 \<le> t" "t < 2 ^ w" "w \<noteq> 64" using assms by (auto simp: fieldMin_def fieldMax_def)
  with False show ?thesis by (simp add: fieldWrap_def take_bit_int_eq_self)
qed

lemma resolve_reference:
  assumes "1 \<le> w" "w \<le> 63 \<or> w = 64 \<and> signed" "fieldMin w signed \<le> old" "old \<le> fieldMax w signed" "int64 inc"
  defines "s \<equiv> wrap64 (old + inc)"
  defines "ov \<equiv> inc > 0 \<and> s < old \<or> inc < 0 \<and> s > old"
  shows "bitfieldResolveOverflow mode (ov \<and> inc > 0 \<or> \<not> ov \<and> s > fieldMax w signed)
      (ov \<and> inc < 0 \<or> \<not> ov \<and> s < fieldMin w signed) (fieldWrap w signed s) (fieldMin w signed) (fieldMax w signed)
    = bf_reference mode w signed (old + inc)"
proof -
  let ?lo = "fieldMin w signed" and ?hi = "fieldMax w signed" and ?t = "old + inc"
  have w: "w \<le> 64" using assms(2) by auto
  have lo: "int64 ?lo" and hi: "int64 ?hi" using bitfieldBounds_eq [OF assms(1,2)] by auto
  have lh: "?lo \<le> ?hi" using assms(3,4) by linarith
  have fw: "fieldWrap w signed s = fieldWrap w signed ?t" unfolding s_def by (rule fieldWrap_wrap64 [OF assms(1) w])
  have rng: "- 9223372036854775808 \<le> ?lo" "?hi \<le> 9223372036854775807" "- 9223372036854775808 \<le> inc" "inc \<le> 9223372036854775807"
    using lo hi assms(5) by (simp_all add: int64_bounds)
  consider "int64 ?t" | "?t > 9223372036854775807" | "?t < - 9223372036854775808" by (fastforce simp: int64_bounds)
  then show ?thesis
  proof cases
    case 1
    then have "s = ?t" "\<not> ov" by (auto simp: s_def ov_def)
    then show ?thesis using fieldWrap_id [OF assms(1,2), of ?t] lh
      by (auto simp: bitfieldResolveOverflow_def bf_reference_def min_def max_def)
  next
    case 2
    have "wrap64 ?t = ?t - 18446744073709551616"
      using 2 rng assms(4) unfolding wrap64_def
      by (subst mod_pos_geq) (auto simp: mod_pos_pos_trivial)
    then have "s < old" "inc > 0" using rng 2 assms(4) by (auto simp: s_def)
    then have "ov" "?t > ?hi" "\<not> inc < 0" using rng 2 by (auto simp: ov_def)
    then show ?thesis using \<open>inc > 0\<close> fw lh
      by (auto simp: bitfieldResolveOverflow_def bf_reference_def min_def max_def)
  next
    case 3
    have "wrap64 ?t = ?t + 18446744073709551616"
      using 3 rng assms(3) unfolding wrap64_def
      by (subst mod_add_self2 [symmetric]) (auto simp: mod_pos_pos_trivial)
    then have "s > old" "inc < 0" using rng 3 assms(3) by (auto simp: s_def)
    then have "ov" "?t < ?lo" "\<not> inc > 0" using rng 3 by (auto simp: ov_def)
    then show ?thesis using \<open>inc < 0\<close> fw lh
      by (auto simp: bitfieldResolveOverflow_def bf_reference_def min_def max_def)
  qed
qed

end
