(* ===== verification/BitmapProps.thy ===== *)
theory BitmapProps
  imports Bitmaps
begin

text \<open>
  The properties of the bitmap commands: BITFIELD always returns and implements
  the overflow modes, SETBIT and GETBIT agree bit by bit, BITCOUNT counts the
  same bits in both units, and two defects of BITPOS and BITFIELD.
\<close>

section \<open>Lemmas\<close>

lemma incrby_step:
  assumes "OpType bf = ''INCRBY''" "0 \<le> Offset bf" "int64 (OpValue bf)"
    and "opWidth (Encoding bf) \<le> 63 \<or> opSigned (Encoding bf)"
  defines "w \<equiv> opWidth (Encoding bf)" and "sg \<equiv> opSigned (Encoding bf)"
  shows "\<exists>old data' md. getBitField data (Offset bf) w sg = Some old
    \<and> bitFieldStep bf (data, rs, m) = Some (Inr (data', rs @ [bf_reference (Overflow bf) w sg (old + OpValue bf)], md))
    \<and> getBitField data' (Offset bf) w sg = Some (case bf_reference (Overflow bf) w sg (old + OpValue bf) of Some v \<Rightarrow> v | None \<Rightarrow> old)
    \<and> md = (m \<or> bf_reference (Overflow bf) w sg (old + OpValue bf) \<noteq> None)"
proof -
  let ?off = "Offset bf"
  let ?g = "growBuf data (?off sdiv 8 + (int w + ?off smod 8 + 7) sdiv 8)"
  have w: "1 \<le> w" "w \<le> 64" "w \<le> 63 \<or> w = 64 \<and> sg"
    using assms(4) opWidth_range [of "Encoding bf"] by (auto simp: w_def sg_def)
  have fit: "nat ?off + w \<le> 8 * length ?g" by (rule grow_needed [OF assms(2)])
  have same: "getBitField ?g ?off w sg = getBitField data ?off w sg"
    using getBitField_bit [OF assms(2) w(1,2), of ?g sg] getBitField_bit [OF assms(2) w(1,2), of data sg]
    by (auto simp: bitAt_growBuf bit_eq_iff)
  obtain old where old: "getBitField ?g ?off w sg = Some old" "fieldMin w sg \<le> old" "old \<le> fieldMax w sg"
    using getBitField_range [OF assms(2) w(1,3)] by blast
  let ?r = "bf_reference (Overflow bf) w sg (old + OpValue bf)"
  note res = resolve_reference [OF w(1,3) old(2,3) assms(3), of "Overflow bf"]
  note bounds = bitfieldBounds_eq(1) [OF w(1,3)]
  have wr: "wrapBitfield (wrap64 (old + OpValue bf)) w sg = Some (fieldWrap w sg (wrap64 (old + OpValue bf)))"
    by (rule wrapBitfield_eq [OF w(1,2)]) simp
  show ?thesis
  proof (cases ?r)
    case None
    then show ?thesis
      using assms(1) old res same
      by (simp add: bitFieldStep_def w_def [symmetric] sg_def [symmetric] bounds wr Let_def)
  next
    case (Some v)
    have "fieldMin w sg \<le> v \<and> v \<le> fieldMax w sg"
      using Some old(2,3) fieldWrap_range [OF w(1,3), of "old + OpValue bf"]
      by (auto simp: bf_reference_def split: if_splits)
    then have id: "fieldWrap w sg v = v" using fieldWrap_id [OF w(1,3)] by blast
    obtain data' where "setBitField ?off w v ?g = Some data'" "getBitField data' ?off w sg = Some v"
      using getBitField_setBitField [OF assms(2) w(1,2) fit, of v sg] id by auto
    then show ?thesis
      using assms(1) old res same Some
      by (simp add: bitFieldStep_def w_def [symmetric] sg_def [symmetric] bounds wr Let_def)
  qed
qed

lemma bitFieldStep_returns: "\<exists>r. bitFieldStep bf st = Some r"
proof -
  obtain data rs m where st: "st = (data, rs, m)" by (metis prod_cases3)
  have "wrapBitfield (wrap64 x) (opWidth (Encoding bf)) sg = Some (fieldWrap (opWidth (Encoding bf)) sg (wrap64 x))" for x sg
    by (rule wrapBitfield_eq [OF opWidth_range]) simp
  then show ?thesis
    by (simp add: st bitFieldStep_def Let_def split: option.splits prod.splits)
qed

lemma bitFieldLoop_returns: "\<exists>r. bitFieldLoop ops st = Some r"
proof (induction ops arbitrary: st)
  case (Cons bf ops)
  obtain r where "bitFieldStep bf st = Some r" using bitFieldStep_returns by blast
  with Cons show ?case by (cases r) auto
qed simp

lemma getBitField_negative:
  assumes "off \<le> -8" "1 \<le> w"
  shows "getBitField data off w signed = None"
proof -
  have "off sdiv 8 < 0" using assms(1) by (simp add: signed_divide_int_def)
  then have "readBit data (off + int 0) = None" by (simp add: readBit_def)
  moreover have "[0..<w] = 0 # [1..<w]" using assms(2) by (simp add: upt_conv_Cons)
  ultimately show ?thesis by (simp add: getBitField_def)
qed

text \<open>The value a bitmap command works on.\<close>

definition bytesOf :: "time \<Rightarrow> string \<Rightarrow> 's db \<Rightarrow> string" where
  "bytesOf now key d = (case selectString now (encodeKey key) d of None \<Rightarrow> [] | Some v \<Rightarrow> v)"

lemma getBit_bitAt: "0 \<le> off \<Longrightarrow> getBit now key off d = Inr (if bitAt (bytesOf now key d) (nat off) then 1 else 0)"
  using idx [of off] by (auto simp: getBit_def bytesOf_def Let_def smod_sdiv_nonneg bitAt_def dataBit_def not_le [symmetric]
      pos_imp_zdiv_neg_iff split: option.splits)

lemma setBit_unfold:
  assumes "0 \<le> off" "not_stale now key d"
  shows "\<exists>data'. setBit now key off v d = (Inr (if bitAt (bytesOf now key d) (nat off) then 1 else 0),
      upsertStringValue (encodeKey key) data' (setMeta (encodeKey key) TypeString None d))
    \<and> (\<forall>i. bitAt data' i = (if i = nat off then v = 1 else bitAt (bytesOf now key d) i))"
proof -
  let ?data = "growBuf (bytesOf now key d) (off div 8 + 1)"
  have "int (length ?data) > off div 8" by (auto simp: growBuf_def)
  then have len: "nat off < 8 * length ?data" using idx(3) [OF assms(1)] by simp
  obtain data' where d': "writeBit off (v = 1) ?data = Some data'"
    "\<forall>i. bitAt data' i = (if i = nat off then v = 1 else bitAt ?data i)"
    using writeBit_nonneg [OF assms(1) len] by blast
  have "data' = ?data[nat off div 8 := setByteBit (7 - off mod 8) (v = 1) (?data ! (nat off div 8))]"
    using d'(1) assms(1) len by (simp add: writeBit_def Let_def smod_sdiv_nonneg idx pos_imp_zdiv_neg_iff)
  moreover have "byteBit (?data ! (nat off div 8)) (7 - off mod 8) = bitAt (bytesOf now key d) (nat off)"
    unfolding bitAt_growBuf [of "bytesOf now key d" "off div 8 + 1", symmetric]
    using len assms(1) by (simp add: bitAt_def dataBit_def idx)
  ultimately have "setBit now key off v d = (Inr (if bitAt (bytesOf now key d) (nat off) then 1 else 0),
      upsertStringValue (encodeKey key) data' (setMeta (encodeKey key) TypeString None d))"
    using assms(1) len idx(3) [OF assms(1), of "length ?data"]
    by (simp add: setBit_def Let_def bytesOf_def [symmetric] smod_sdiv_nonneg idx pos_imp_zdiv_neg_iff)
  with d'(2) show ?thesis by (auto simp: bitAt_growBuf)
qed

lemma popcount_sum: "n < 2 ^ m \<Longrightarrow> popcount n = (\<Sum>k<m. of_bool (bit n k))"
proof (induction m arbitrary: n)
  case (Suc m)
  then have "n div 2 < 2 ^ m" by auto
  note IH = Suc.IH [OF this]
  have "(\<Sum>k<Suc m. of_bool (bit n k)) = int (n mod 2) + (\<Sum>k<m. of_bool (bit (n div 2) k))"
    by (simp add: sum.lessThan_Suc_shift bit_Suc bit_0 mod_2_eq_odd del: sum.lessThan_Suc)
  with IH show ?case by (subst popcount.simps) simp
qed (simp add: popcount.simps)

lemma popcount_byte:
  assumes "i < length data"
  shows "popcount (of_char (data ! i)) = int (card {j. i * 8 \<le> j \<and> j < i * 8 + 8 \<and> dataBit data j})"
proof -
  have "popcount (of_char (data ! i)) = (\<Sum>k<8. of_bool (bit (of_char (data ! i) :: nat) k))"
    by (rule popcount_sum) simp
  also have "\<dots> = int (card {k. k < 8 \<and> bit (of_char (data ! i) :: nat) k})"
    by (simp add: sum.If_cases of_bool_def Collect_conj_eq lessThan_def)
  also have "card {k. k < 8 \<and> bit (of_char (data ! i) :: nat) k} = card {j. i * 8 \<le> j \<and> j < i * 8 + 8 \<and> dataBit data j}"
  proof (rule bij_betw_same_card [of "\<lambda>k. i * 8 + (7 - k)"], rule bij_betw_byWitness [where f' = "\<lambda>j. 7 - (j - i * 8)"])
    have dv: "(i * 8 + (7 - k)) div 8 = i" "(i * 8 + (7 - k)) mod 8 = 7 - k" for k by simp_all
    show "(\<lambda>k. i * 8 + (7 - k)) ` {k. k < 8 \<and> bit (of_char (data ! i) :: nat) k} \<subseteq> {j. i * 8 \<le> j \<and> j < i * 8 + 8 \<and> dataBit data j}"
    proof
      fix j assume "j \<in> (\<lambda>k. i * 8 + (7 - k)) ` {k. k < 8 \<and> bit (of_char (data ! i) :: nat) k}"
      then obtain k where k: "j = i * 8 + (7 - k)" "k < 8" "bit (of_char (data ! i) :: nat) k" by blast
      moreover have "7 - int (7 - k) = int k" using k(2) by simp
      ultimately show "j \<in> {j. i * 8 \<le> j \<and> j < i * 8 + 8 \<and> dataBit data j}"
        unfolding k(1) dataBit_def dv mem_Collect_eq by (auto simp: byteBit_def)
    qed
    show "(\<lambda>j. 7 - (j - i * 8)) ` {j. i * 8 \<le> j \<and> j < i * 8 + 8 \<and> dataBit data j} \<subseteq> {k. k < 8 \<and> bit (of_char (data ! i) :: nat) k}"
    proof
      fix k assume "k \<in> (\<lambda>j. 7 - (j - i * 8)) ` {j. i * 8 \<le> j \<and> j < i * 8 + 8 \<and> dataBit data j}"
      then obtain j where k: "k = 7 - (j - i * 8)" and j: "i * 8 \<le> j" "j < i * 8 + 8" "dataBit data j" by blast
      then have dj: "j div 8 = i" "j mod 8 = j - i * 8" by (auto simp: div_nat_eqI mod_nat_eqI minus_mult_div_eq_mod)
      have "nat (7 - int (j - i * 8)) = k" using k by simp
      with j(3) k show "k \<in> {k. k < 8 \<and> bit (of_char (data ! i) :: nat) k}"
        unfolding dataBit_def dj byteBit_def by simp
    qed
  qed auto
  finally show ?thesis .
qed

lemma bitcount_bytes:
  assumes "0 \<le> s" "t < int (length data)"
  shows "sum_list (map (\<lambda>i. popcount (of_char (data ! nat i))) [s..t]) =
    int (card {j. nat s * 8 \<le> j \<and> j < nat (t + 1) * 8 \<and> dataBit data j})"
  using assms
proof (induction "nat (t + 1 - s)" arbitrary: s)
  case 0
  then have "[s..t] = []" "nat (t + 1) \<le> nat s" by simp_all
  then have "{j. nat s * 8 \<le> j \<and> j < nat (t + 1) * 8 \<and> dataBit data j} = {}" by auto
  with \<open>[s..t] = []\<close> show ?case by simp
next
  case (Suc n)
  then have st: "s \<le> t" by simp
  have "sum_list (map (\<lambda>i. popcount (of_char (data ! nat i))) [s + 1..t]) =
      int (card {j. nat (s + 1) * 8 \<le> j \<and> j < nat (t + 1) * 8 \<and> dataBit data j})" (is "_ = int (card ?B)")
    using Suc.hyps(1) [of "s + 1"] Suc.hyps(2) Suc.prems by simp
  moreover have "popcount (of_char (data ! nat s)) =
      int (card {j. nat s * 8 \<le> j \<and> j < nat s * 8 + 8 \<and> dataBit data j})" (is "_ = int (card ?A)")
    using st Suc.prems by (intro popcount_byte) simp
  moreover have "{j. nat s * 8 \<le> j \<and> j < nat (t + 1) * 8 \<and> dataBit data j} = ?A \<union> ?B" "?A \<inter> ?B = {}" "finite ?A" "finite ?B"
    using st Suc.prems by (auto simp: nat_add_distrib)
  ultimately show ?case using st by (simp add: upto_rec1 card_Un_disjoint)
qed

lemma bitcount_bits:
  assumes "0 \<le> s"
  shows "int (length (filter (\<lambda>i. dataBit data (nat i)) [s..t])) = int (card {j. nat s \<le> j \<and> j < nat (t + 1) \<and> dataBit data j})"
proof -
  have "length (filter (\<lambda>i. dataBit data (nat i)) [s..t]) = card {i \<in> {s..t}. dataBit data (nat i)}"
    using distinct_card [of "filter (\<lambda>i. dataBit data (nat i)) [s..t]"] by simp
  also have "\<dots> = card {j. nat s \<le> j \<and> j < nat (t + 1) \<and> dataBit data j}"
    by (rule bij_betw_same_card [of nat], rule bij_betw_byWitness [where f' = int]) (use assms in auto)
  finally show ?thesis by simp
qed

section \<open>Properties\<close>

text \<open>
  SETBIT answers the old bit and changes exactly the bit it addresses,
  growing the value with zero bytes; BITCOUNT counts the one bits of its range,
  and counting the bytes s to t is counting the bits 8s to 8t + 7.
\<close>

theorem setbit_bitcount:
  assumes "0 \<le> off" "0 \<le> off'" "v = 0 \<or> v = 1" "not_stale now key d"
    and "0 \<le> s" "s \<le> t" "t < int (length (bytesOf now key d))"
  shows "fst (setBit now key off v d) = getBit now key off d
    \<and> getBit now key off' (snd (setBit now key off v d)) = (if off' = off then Inr v else getBit now key off' d)
    \<and> touches {encodeKey key} d (snd (setBit now key off v d))
    \<and> bitCount now key s t False d = int (card {j. nat s * 8 \<le> j \<and> j < nat (t + 1) * 8 \<and> bitAt (bytesOf now key d) j})
    \<and> bitCount now key (s * 8) (t * 8 + 7) True d = bitCount now key s t False d"
proof (intro conjI)
  obtain data' where s: "setBit now key off v d = (Inr (if bitAt (bytesOf now key d) (nat off) then 1 else 0),
      upsertStringValue (encodeKey key) data' (setMeta (encodeKey key) TypeString None d))"
    "\<And>i. bitAt data' i = (if i = nat off then v = 1 else bitAt (bytesOf now key d) i)"
    using setBit_unfold [OF assms(1,4)] by blast
  show "fst (setBit now key off v d) = getBit now key off d" by (simp add: s(1) getBit_bitAt assms(1))
  have "bytesOf now key (snd (setBit now key off v d)) = data'"
    using get_upsert_after_meta [OF assms(4)] by (simp add: s(1) bytesOf_def get_def)
  then show "getBit now key off' (snd (setBit now key off v d)) = (if off' = off then Inr v else getBit now key off' d)"
    using assms(1-3) by (auto simp: getBit_bitAt s(2) eq_nat_nat_iff)
  show "touches {encodeKey key} d (snd (setBit now key off v d))"
    by (simp add: s(1) touches_trans [OF touches_setMeta touches_upsertString])
next
  let ?D = "bytesOf now key d"
  have sel: "selectString now (encodeKey key) d = Some ?D" "?D \<noteq> []"
    using assms(5-7) by (auto simp: bytesOf_def split: option.splits)
  have cards: "{j. nat s * 8 \<le> j \<and> j < nat (t + 1) * 8 \<and> dataBit ?D j} =
      {j. nat s * 8 \<le> j \<and> j < nat (t + 1) * 8 \<and> bitAt ?D j}"
    using assms(7) by (auto simp: bitAt_def)
  have bytes: "bitCount now key s t False d = int (card {j. nat s * 8 \<le> j \<and> j < nat (t + 1) * 8 \<and> dataBit ?D j})"
    using assms(5-7) sel bitcount_bytes [OF assms(5,7)] by (simp add: bitCount_def clampRange_def Let_def)
  then show "bitCount now key s t False d = int (card {j. nat s * 8 \<le> j \<and> j < nat (t + 1) * 8 \<and> bitAt ?D j})"
    unfolding cards .
  have "nat (s * 8) = nat s * 8" "nat (t * 8 + 7 + 1) = nat (t + 1) * 8"
    using assms(5,6) by (simp_all add: nat_mult_distrib)
  then show "bitCount now key (s * 8) (t * 8 + 7) True d = bitCount now key s t False d"
    using assms(5-7) sel bitcount_bits [of "s * 8" ?D "t * 8 + 7"]
    by (simp add: bytes) (simp add: bitCount_def clampRange_def Let_def)
qed

theorem setbit_bitcount_witness:
  "let d = (initSchema :: nat db)\<lparr>kv_strings := [(''k'', (''AB'', None))]\<rparr>
   in getBit 0 ''k'' 9 (snd (setBit 0 ''k'' 9 0 d)) = Inr 0 \<and> bitCount 0 ''k'' 0 1 False d = bitCount 0 ''k'' 0 15 True d"
proof -
  let ?d = "(initSchema :: nat db)\<lparr>kv_strings := [(''k'', (''AB'', None))]\<rparr>"
  have enc: "encodeKey ''k'' = ''k''" by (simp add: encodeKey_def ValidString_ascii in_range_def)
  have "not_stale 0 ''k'' ?d" "bytesOf 0 ''k'' ?d = ''AB''"
    by (simp_all add: not_stale_def bytesOf_def selectString_def enc)
  with setbit_bitcount [of 9 9 0 0 "''k''" ?d 0 1] show ?thesis by (simp add: Let_def)
qed




text \<open>
  A BITFIELD operation with a bit offset of -8 or less, which the command
  parser lets through, indexes the value with a negative byte index: the server
  panics instead of answering an error.
\<close>

theorem bitfield_negative_offset_panics:
  assumes "Offset bf \<le> -8" "OpType bf = ''GET'' \<or> OpType bf = ''SET'' \<or> OpType bf = ''INCRBY''"
  shows "bitField now key [bf] d = Some (Inl errPanicIndex, d)"
  using assms getBitField_negative [OF assms(1) opWidth_range(1)]
  by (auto simp: bitField_def bitFieldStep_def Let_def split: prod.splits)

theorem bitfield_negative_offset_panics_witness:
  "bitField 0 ''k'' [\<lparr>OpType = ''GET'', Encoding = ''u8'', Offset = -100, OpValue = 0, Overflow = ''WRAP''\<rparr>]
     (initSchema :: nat db) = Some (Inl errPanicIndex, initSchema)"
  by (rule bitfield_negative_offset_panics) simp_all

text \<open>
  BITPOS for a 0 bit that finds none in its byte range answers the first
  position after the range although the range does not cover it, and although
  the bit there is 1.
\<close>

theorem bitpos_answers_set_bit:
  "let d = (initSchema :: nat db)\<lparr>kv_strings := [(''k'', ([CHR 0xFF, CHR 0xFF], None))]\<rparr>
   in bitPos 0 ''k'' 0 0 0 False d = 8 \<and> getBit 0 ''k'' 8 d = Inr 1"
proof -
  have "encodeKey ''k'' = ''k''" by (simp add: encodeKey_def ValidString_ascii in_range_def)
  then show ?thesis
    by (simp add: bitPos_def getBit_def selectString_def clampRange_def byteBit_def Let_def
        smod_sdiv_nonneg bit_iff_odd_drop_bit upto.simps)
qed

end
