(* ===== verification/HyperLogLog.thy ===== *)
theory HyperLogLog
  imports Keyspace "HOL-Library.Word"
begin

text \<open>
  The HyperLogLog sketches of \<^verbatim>\<open>src/internal/storage/hyperloglog.go\<close> and the
  PFADD, PFCOUNT and PFMERGE operations of \<^verbatim>\<open>src/internal/storage/querier.go\<close>.
  Hashes are 64-bit words and registers 8-bit words.  The hash of
  \<^verbatim>\<open>hash/fnv\<close> and \<^verbatim>\<open>bits.LeadingZeros64\<close> of the standard library are written
  out.  The cardinality estimate is floating-point arithmetic on the
  registers; \<open>pfCount\<close> takes it as its argument \<open>estimate\<close>.
\<close>

unbundle bit_operations_syntax

section \<open>Hashing\<close>

definition hllPrecision :: nat where
  "hllPrecision = 14"

definition hllRegisters :: nat where
  "hllRegisters = 2 ^ hllPrecision"

definition fnv64a :: "string \<Rightarrow> 64 word" where
  "fnv64a data = fold (\<lambda>c h. (h XOR of_nat (of_char c)) * 1099511628211) data 14695981039346656037"

definition murmur64 :: "string \<Rightarrow> 64 word" where
  "murmur64 data =
     (let k = fnv64a data;
          k = k XOR drop_bit 33 k;
          k = k * 0xff51afd7ed558ccd;
          k = k XOR drop_bit 33 k;
          k = k * 0xc4ceb9fe1a85ec53
      in k XOR drop_bit 33 k)"

fun bitLen :: "nat \<Rightarrow> nat" where
  "bitLen n = (if n = 0 then 0 else Suc (bitLen (n div 2)))"

declare bitLen.simps [simp del]

definition LeadingZeros64 :: "64 word \<Rightarrow> int" where
  "LeadingZeros64 x = 64 - int (bitLen (unat x))"

definition getRegisterFromHash :: "64 word \<Rightarrow> 64 word \<times> 8 word" where
  "getRegisterFromHash hash =
     (let index = hash AND (of_nat hllRegisters - 1);
          upperBits = drop_bit hllPrecision hash;
          rank = (if upperBits = 0 then of_int (64 - int hllPrecision + 1)
                  else let lz = LeadingZeros64 upperBits
                       in if lz > int hllPrecision then of_int (lz - int hllPrecision + 1) else 1);
          rank = (if rank < 1 then 1 else rank)
      in (index, rank))"

section \<open>The sketch\<close>

record HyperLogLog =
  registers :: "8 word list"

definition NewHyperLogLog :: HyperLogLog where
  "NewHyperLogLog = \<lparr>registers = replicate hllRegisters 0\<rparr>"

definition HyperLogLogFromBytes :: "string \<Rightarrow> HyperLogLog" where
  "HyperLogLogFromBytes data =
     (if length data \<noteq> hllRegisters then NewHyperLogLog
      else \<lparr>registers = map (\<lambda>c. of_nat (of_char c)) data\<rparr>)"

definition ToBytes :: "HyperLogLog \<Rightarrow> string" where
  "ToBytes hll = map (\<lambda>r. char_of (unat r)) (registers hll)"

definition raiseRegister :: "64 word \<Rightarrow> 8 word \<Rightarrow> HyperLogLog \<Rightarrow> bool \<times> HyperLogLog" where
  "raiseRegister index rank hll =
     (if rank > registers hll ! unat index
      then (True, hll\<lparr>registers := (registers hll)[unat index := rank]\<rparr>)
      else (False, hll))"

definition Add :: "string \<Rightarrow> HyperLogLog \<Rightarrow> bool \<times> HyperLogLog" where
  "Add element hll =
     (let hash = murmur64 element;
          index = hash AND (of_nat hllRegisters - 1);
          upperBits = drop_bit hllPrecision hash;
          rank = (if upperBits = 0 then of_int (64 - int hllPrecision + 1)
                  else of_int (LeadingZeros64 upperBits - int hllPrecision + 1));
          rank = (if rank < 1 then 1 else rank)
      in raiseRegister index rank hll)"

definition AddHash :: "64 word \<Rightarrow> HyperLogLog \<Rightarrow> bool \<times> HyperLogLog" where
  "AddHash hash hll = (let (index, rank) = getRegisterFromHash hash in raiseRegister index rank hll)"

text \<open>\<^verbatim>\<open>hll.Merge(other)\<close>\<close>

definition Merge :: "HyperLogLog \<Rightarrow> HyperLogLog \<Rightarrow> HyperLogLog" where
  "Merge other hll =
     hll\<lparr>registers := map (\<lambda>i. if registers other ! i > registers hll ! i then registers other ! i
                               else registers hll ! i) [0..<length (registers hll)]\<rparr>"

definition IsEmpty :: "HyperLogLog \<Rightarrow> bool" where
  "IsEmpty hll = (\<forall>v \<in> set (registers hll). \<not> v > 0)"

section \<open>Commands\<close>

text \<open>\<^verbatim>\<open>SELECT registers FROM kv_hyperloglog WHERE key = $1 AND (live)\<close>\<close>

definition selectHLL :: "time \<Rightarrow> string \<Rightarrow> 's db \<Rightarrow> string option" where
  "selectHLL now key d =
     (case map_of (kv_hyperloglog d) key of
        Some (v, e) \<Rightarrow> if live now e then Some v else None
      | None \<Rightarrow> None)"

definition upsertHLL :: "string \<Rightarrow> string \<Rightarrow> 's db \<Rightarrow> 's db" where
  "upsertHLL key v d =
     d\<lparr>kv_hyperloglog := (case map_of (kv_hyperloglog d) key of
         Some (_, e) \<Rightarrow> AList.update key (v, e) (kv_hyperloglog d)
       | None \<Rightarrow> AList.update key (v, None) (kv_hyperloglog d))\<rparr>"

fun addAll :: "string list \<Rightarrow> bool \<Rightarrow> HyperLogLog \<Rightarrow> bool \<times> HyperLogLog" where
  "addAll [] changed hll = (changed, hll)"
| "addAll (elem # elements) changed hll =
     (let (c, hll) = Add elem hll in addAll elements (if c then True else changed) hll)"

definition pfAdd :: "time \<Rightarrow> string \<Rightarrow> string list \<Rightarrow> ('s, int) op" where
  "pfAdd now key elements d =
     (let key = encodeKey key; d = lockKey key d; kt = getKeyType now key d
      in if kt \<noteq> TypeNone \<and> kt \<noteq> TypeHLL then (Inl errWrongType, d)
         else let hll = (case selectHLL now key d of
                           None \<Rightarrow> NewHyperLogLog
                         | Some r \<Rightarrow> HyperLogLogFromBytes r);
                  (changed, hll) = addAll elements False hll;
                  d = setMeta key TypeHLL None d
              in (Inr (if changed then 1 else 0), upsertHLL key (ToBytes hll) d))"

definition mergeKeys :: "time \<Rightarrow> string list \<Rightarrow> 's db \<Rightarrow> HyperLogLog \<Rightarrow> HyperLogLog" where
  "mergeKeys now keys d =
     fold (\<lambda>key merged. case selectHLL now key d of
             None \<Rightarrow> merged
           | Some r \<Rightarrow> Merge (HyperLogLogFromBytes r) merged) keys"

definition pfCount :: "(HyperLogLog \<Rightarrow> int) \<Rightarrow> time \<Rightarrow> string list \<Rightarrow> 's db \<Rightarrow> int" where
  "pfCount estimate now keys d =
     (case encodeKeys keys of
        [] \<Rightarrow> 0
      | [key] \<Rightarrow> (case selectHLL now key d of
                   None \<Rightarrow> 0
                 | Some r \<Rightarrow> estimate (HyperLogLogFromBytes r))
      | keys \<Rightarrow> estimate (mergeKeys now keys d NewHyperLogLog))"

definition pfMerge :: "time \<Rightarrow> string \<Rightarrow> string list \<Rightarrow> ('s, unit) op" where
  "pfMerge now destKey sourceKeys d =
     (let destKey = encodeKey destKey; sourceKeys = encodeKeys sourceKeys;
          d = lockKeys (destKey # sourceKeys) d; kt = getKeyType now destKey d
      in if kt \<noteq> TypeNone \<and> kt \<noteq> TypeHLL then (Inl errWrongType, d)
         else let merged = (case selectHLL now destKey d of
                              None \<Rightarrow> NewHyperLogLog
                            | Some r \<Rightarrow> HyperLogLogFromBytes r);
                  merged = mergeKeys now sourceKeys d merged;
                  d = setMeta destKey TypeHLL None d
              in (Inr (), upsertHLL destKey (ToBytes merged) d))"

section \<open>Specification\<close>

text \<open>
  The sketch of a set of elements: each register holds the largest rank of the
  elements that hash to it.
\<close>

definition elemIndex :: "string \<Rightarrow> nat" where
  "elemIndex x = unat (fst (getRegisterFromHash (murmur64 x)))"

definition elemRank :: "string \<Rightarrow> 8 word" where
  "elemRank x = snd (getRegisterFromHash (murmur64 x))"

definition topRank :: "string set \<Rightarrow> nat \<Rightarrow> 8 word" where
  "topRank S i = Max (insert 0 (elemRank ` {x \<in> S. elemIndex x = i}))"

definition sketch :: "string set \<Rightarrow> HyperLogLog" where
  "sketch S = \<lparr>registers = map (topRank S) [0..<hllRegisters]\<rparr>"

section \<open>Lemmas\<close>

lemma bitLen_bounds: "n < 2 ^ bitLen n" "0 < n \<Longrightarrow> 2 ^ (bitLen n - 1) \<le> n"
proof -
  have "n < 2 ^ bitLen n \<and> (0 < n \<longrightarrow> 2 ^ (bitLen n - 1) \<le> n)"
  proof (induction n rule: bitLen.induct)
    case (1 n)
    show ?case
    proof (cases "n = 0")
      case False
      then have e: "bitLen n = Suc (bitLen (n div 2))" by (subst bitLen.simps) simp
      have IH: "n div 2 < 2 ^ bitLen (n div 2)" "0 < n div 2 \<longrightarrow> 2 ^ (bitLen (n div 2) - 1) \<le> n div 2"
        using 1 [OF False] by simp_all
      have "2 ^ bitLen (n div 2) \<le> n"
      proof (cases "n div 2 = 0")
        case True
        then have "bitLen (n div 2) = 0" by (simp add: bitLen.simps)
        then show ?thesis using False by simp
      next
        case F: False
        then have "bitLen (n div 2) = Suc (bitLen (n div 2) - 1)" by (subst bitLen.simps) (simp add: bitLen.simps)
        then have "(2 :: nat) ^ bitLen (n div 2) = 2 * 2 ^ (bitLen (n div 2) - 1)" by (metis power_Suc)
        with IH(2) F show ?thesis by linarith
      qed
      moreover have "n < 2 ^ Suc (bitLen (n div 2))" using IH(1) by simp
      ultimately show ?thesis by (simp add: e)
    qed (simp add: bitLen.simps)
  qed
  then show "n < 2 ^ bitLen n" "0 < n \<Longrightarrow> 2 ^ (bitLen n - 1) \<le> n" by blast+
qed

lemma bitLen_le: "n < 2 ^ m \<Longrightarrow> bitLen n \<le> m"
proof (rule ccontr)
  assume a: "n < 2 ^ m" "\<not> bitLen n \<le> m"
  then have n: "0 < n" by (cases n) (auto simp: bitLen.simps)
  have "(2 :: nat) ^ m \<le> 2 ^ (bitLen n - 1)" using a(2) by (intro power_increasing) auto
  with bitLen_bounds(2) [OF n] a(1) show False by linarith
qed

lemma bitLen_pos: "0 < n \<Longrightarrow> 0 < bitLen n"
  by (subst bitLen.simps) simp

lemma upper_bits: "unat (drop_bit hllPrecision (h :: 64 word)) < 2 ^ 50"
proof -
  have "unat (drop_bit hllPrecision h) = unat h div 2 ^ 14"
    by (subst unat_drop_bit_eq) (simp add: drop_bit_eq_div hllPrecision_def)
  moreover have "unat h < 2 ^ 64" using unsigned_less [of h] by simp
  ultimately show ?thesis by (simp add: div_less_iff_less_mult)
qed

lemma rank_ge_1: "1 \<le> r \<Longrightarrow> r \<le> 51 \<Longrightarrow> \<not> (of_nat r :: 8 word) < 1"
  by (simp add: word_less_nat_alt unat_of_nat)

text \<open>The rank of a hash, without its special cases.\<close>

lemma rank_range:
  "\<exists>r. 1 \<le> r \<and> r \<le> 51 \<and> (drop_bit hllPrecision h \<noteq> 0 \<longrightarrow> LeadingZeros64 (drop_bit hllPrecision h) - int hllPrecision + 1 = int r)
     \<and> snd (getRegisterFromHash h) = of_nat r"
proof -
  let ?u = "drop_bit hllPrecision h"
  show ?thesis
  proof (cases "?u = 0")
    case True
    then show ?thesis
      by (intro exI [of _ 51]) (simp add: getRegisterFromHash_def Let_def hllPrecision_def)
  next
    case False
    define b where "b = bitLen (unat ?u)"
    have b: "1 \<le> b" "b \<le> 50"
      using False bitLen_le [OF upper_bits] bitLen_pos [of "unat ?u"] by (auto simp: b_def unat_gt_0)
    define r where "r = 51 - b"
    have r: "1 \<le> r" "r \<le> 51" using b by (simp_all add: r_def)
    have lz: "LeadingZeros64 ?u - int hllPrecision + 1 = int r"
      unfolding LeadingZeros64_def b_def [symmetric] using b by (simp add: r_def hllPrecision_def)
    have "r = 1" if "\<not> LeadingZeros64 ?u > int hllPrecision" using that lz r by linarith
    then have "(if LeadingZeros64 ?u > int hllPrecision then of_int (LeadingZeros64 ?u - int hllPrecision + 1) else 1) =
        (of_nat r :: 8 word)"
      unfolding lz by simp
    then have "snd (getRegisterFromHash h) = of_nat r"
      using False rank_ge_1 [OF r] by (simp add: getRegisterFromHash_def Let_def)
    with r lz show ?thesis by blast
  qed
qed

lemma Add_AddHash: "Add element hll = AddHash (murmur64 element) hll"
proof -
  let ?h = "murmur64 element"
  obtain r where r: "1 \<le> r" "r \<le> 51"
    "drop_bit hllPrecision ?h \<noteq> 0 \<longrightarrow> LeadingZeros64 (drop_bit hllPrecision ?h) - int hllPrecision + 1 = int r"
    "snd (getRegisterFromHash ?h) = of_nat r"
    using rank_range by blast
  have "\<not> (of_nat r :: 8 word) < 1" using r(1,2) by (rule rank_ge_1)
  then have "(if drop_bit hllPrecision ?h = 0 then of_int (64 - int hllPrecision + 1)
      else of_int (LeadingZeros64 (drop_bit hllPrecision ?h) - int hllPrecision + 1)) = (of_nat r :: 8 word)
    \<or> drop_bit hllPrecision ?h = 0"
    using r(3) by auto
  with r(4) \<open>\<not> (of_nat r :: 8 word) < 1\<close> show ?thesis
    unfolding Add_def AddHash_def Let_def
    by (auto simp: getRegisterFromHash_def Let_def r(3) split: if_splits)
qed


lemma elemIndex_less: "elemIndex x < hllRegisters"
proof -
  have "of_nat hllRegisters - 1 = (mask 14 :: 64 word)"
    by (simp add: hllRegisters_def hllPrecision_def mask_eq_exp_minus_1)
  then have "elemIndex x = unat (take_bit 14 (murmur64 x))"
    by (simp add: elemIndex_def getRegisterFromHash_def Let_def take_bit_eq_mask)
  also have "\<dots> < 2 ^ 14" unfolding unsigned_take_bit_eq by (rule take_bit_nat_less_exp)
  finally show ?thesis by (simp add: hllRegisters_def hllPrecision_def)
qed

lemma length_registers [simp]:
  "length (registers NewHyperLogLog) = hllRegisters" "length (registers (sketch S)) = hllRegisters"
  "length (registers (HyperLogLogFromBytes data)) = hllRegisters"
  "length (registers (Merge h h')) = length (registers h')"
  by (simp_all add: NewHyperLogLog_def sketch_def HyperLogLogFromBytes_def Merge_def)

lemma FromBytes_ToBytes [simp]:
  assumes "length (registers h) = hllRegisters"
  shows "HyperLogLogFromBytes (ToBytes h) = h"
proof -
  have "of_nat (of_char (char_of (unat r))) = (r :: 8 word)" for r
  proof -
    have "of_char (char_of (unat r)) = unat r mod 256" by simp
    also have "\<dots> = unat r"
    proof (rule mod_less)
      show "unat r < 256" using unsigned_less [of r, where ?'a = nat] by simp
    qed
    finally show ?thesis by simp
  qed
  then have "map ((\<lambda>c. of_nat (of_char c)) \<circ> (\<lambda>r. char_of (unat r))) (registers h) = registers h"
    by (simp add: comp_def)
  then show ?thesis using assms by (cases h) (simp add: HyperLogLogFromBytes_def ToBytes_def)
qed

lemma topRank_Un:
  assumes "finite S" "finite T"
  shows "topRank (S \<union> T) i = max (topRank S i) (topRank T i)"
proof -
  let ?A = "\<lambda>S. elemRank ` {x \<in> S. elemIndex x = i}"
  have "insert 0 (?A (S \<union> T)) = insert 0 (?A S) \<union> insert 0 (?A T)" by auto
  then show ?thesis
    unfolding topRank_def using assms Max_Un [of "insert 0 (?A S)" "insert 0 (?A T)"] by simp
qed

lemma topRank_single: "topRank {x} i = (if elemIndex x = i then elemRank x else 0)"
proof -
  have "{y. y = x \<and> elemIndex y = i} = (if elemIndex x = i then {x} else {})" by auto
  then show ?thesis by (simp add: topRank_def)
qed

lemma topRank_insert:
  "finite S \<Longrightarrow> topRank (insert x S) i = max (topRank S i) (if elemIndex x = i then elemRank x else 0)"
  using topRank_Un [of S "{x}" i] by (simp add: topRank_single)

lemma sketch_reg: "i < hllRegisters \<Longrightarrow> registers (sketch S) ! i = topRank S i"
  by (simp add: sketch_def)

lemma sketch_eqI:
  assumes "length (registers h) = hllRegisters" and "\<And>i. i < hllRegisters \<Longrightarrow> registers h ! i = topRank S i"
  shows "h = sketch S"
proof -
  have "registers h = registers (sketch S)"
    using assms by (intro nth_equalityI) (simp_all add: sketch_reg)
  then show ?thesis by (cases h) (simp add: sketch_def)
qed

lemma sketch_empty: "NewHyperLogLog = sketch {}"
  by (rule sketch_eqI) (simp_all add: NewHyperLogLog_def topRank_def)

lemma Merge_sketch:
  assumes "finite S" "finite T"
  shows "Merge (sketch T) (sketch S) = sketch (S \<union> T)"
  by (rule sketch_eqI) (auto simp: Merge_def sketch_reg topRank_Un [OF assms] max_def)

lemma Add_sketch:
  assumes "finite S"
  shows "snd (Add x (sketch S)) = sketch (insert x S)"
    and "fst (Add x (sketch S)) = (sketch (insert x S) \<noteq> sketch S)"
proof -
  let ?i = "elemIndex x" and ?r = "elemRank x" and ?R = "registers (sketch S)"
  have add: "Add x (sketch S) = (if ?r > ?R ! ?i then (True, sketch S\<lparr>registers := ?R[?i := ?r]\<rparr>) else (False, sketch S))"
    by (simp add: Add_AddHash AddHash_def raiseRegister_def elemIndex_def elemRank_def case_prod_beta)
  show snd: "snd (Add x (sketch S)) = sketch (insert x S)"
  proof (rule sketch_eqI)
    fix i assume i: "i < hllRegisters"
    show "registers (snd (Add x (sketch S))) ! i = topRank (insert x S) i"
      using i elemIndex_less [of x]
      by (auto simp: add topRank_insert [OF assms] sketch_reg nth_list_update max_def)
  qed (simp add: add)
  have "?R[?i := ?r] \<noteq> ?R" if "?r > ?R ! ?i"
    using that elemIndex_less [of x] by (metis length_registers(2) nth_list_update_eq order_less_irrefl)
  then have "sketch S\<lparr>registers := ?R[?i := ?r]\<rparr> \<noteq> sketch S" if "?r > ?R ! ?i"
    using that by (metis HyperLogLog.select_convs(1) HyperLogLog.update_convs(1) HyperLogLog.cases)
  then show "fst (Add x (sketch S)) = (sketch (insert x S) \<noteq> sketch S)"
    unfolding snd [symmetric] by (simp add: add)
qed

lemma sketch_mono:
  assumes "finite T" "S \<subseteq> T" "i < hllRegisters"
  shows "registers (sketch S) ! i \<le> registers (sketch T) ! i"
  unfolding sketch_reg [OF assms(3)] topRank_def using assms(1,2) by (intro Max_mono) auto

lemma sketch_between:
  assumes "finite U" "S \<subseteq> T" "T \<subseteq> U" "sketch U = sketch S"
  shows "sketch T = sketch S"
proof -
  have "finite T" using assms(1,3) finite_subset by blast
  then have "registers (sketch T) = registers (sketch S)"
    using sketch_mono [OF assms(1,3)] sketch_mono [OF _ assms(2)] assms(4)
    by (intro nth_equalityI) (auto intro: antisym)
  then show ?thesis by (simp add: sketch_def)
qed

lemma addAll_sketch:
  assumes "finite S"
  shows "addAll xs c (sketch S) = (c \<or> sketch (S \<union> set xs) \<noteq> sketch S, sketch (S \<union> set xs))"
  using assms
proof (induction xs arbitrary: c S)
  case (Cons x xs)
  let ?S = "insert x S" and ?U = "insert x S \<union> set xs"
  have "sketch ?S = sketch S" if "sketch ?U = sketch S"
    using Cons.prems by (intro sketch_between [of ?U S ?S, OF _ _ _ that]) auto
  then have changed: "((if sketch ?S \<noteq> sketch S then True else c) \<or> sketch ?U \<noteq> sketch ?S) = (c \<or> sketch ?U \<noteq> sketch S)"
    by metis
  have "addAll (x # xs) c (sketch S) = addAll xs (if sketch ?S \<noteq> sketch S then True else c) (sketch ?S)"
    by (simp only: addAll.simps Let_def case_prod_beta Add_sketch [OF Cons.prems])
  also have "\<dots> = ((if sketch ?S \<noteq> sketch S then True else c) \<or> sketch ?U \<noteq> sketch ?S, sketch ?U)"
    using Cons.prems by (intro Cons.IH) simp
  also have "\<dots> = (c \<or> sketch ?U \<noteq> sketch S, sketch ?U)" unfolding changed ..
  also have "?U = S \<union> set (x # xs)" by simp
  finally show ?case .
qed simp


subsection \<open>Commands on sketches\<close>

text \<open>A key holds the sketch of a set: a live row with its registers, or no row at all for the empty set.\<close>

definition holds :: "time \<Rightarrow> string \<Rightarrow> string set \<Rightarrow> 's db \<Rightarrow> bool" where
  "holds now key S d =
     (finite S \<and> (case map_of (kv_hyperloglog d) (encodeKey key) of
        None \<Rightarrow> S = {}
      | Some (r, e) \<Rightarrow> live now e \<and> r = ToBytes (sketch S)))"

definition hll_type :: "time \<Rightarrow> string \<Rightarrow> 's db \<Rightarrow> bool" where
  "hll_type now key d = (getKeyType now (encodeKey key) d \<in> {TypeNone, TypeHLL})"

lemma selectHLL_holds:
  assumes "holds now key S d"
  shows "(case selectHLL now (encodeKey key) d of None \<Rightarrow> NewHyperLogLog | Some r \<Rightarrow> HyperLogLogFromBytes r) = sketch S"
  using assms by (auto simp: holds_def selectHLL_def sketch_empty split: option.splits)

lemma selectHLL_lock [simp]:
  "selectHLL now k (lockKey x d) = selectHLL now k d" "selectHLL now k (lockKeys xs d) = selectHLL now k d"
  by (simp_all add: selectHLL_def)

lemma getKeyType_lock [simp]:
  "getKeyType now k (lockKey x d) = getKeyType now k d" "getKeyType now k (lockKeys xs d) = getKeyType now k d"
  by (simp_all add: getKeyType_def)

lemma holds_upsert:
  assumes "holds now key S d" "finite T"
  shows "holds now key T (upsertHLL (encodeKey key) (ToBytes (sketch T)) (setMeta k TypeHLL e d))"
  using assms by (auto simp: holds_def upsertHLL_def table_simps split: option.splits)

lemma touches_upsertHLL: "k \<in> K \<Longrightarrow> touches K d (upsertHLL k v d)"
  by (auto simp: touches_def rows_def upsertHLL_def table_simps split: option.splits)

lemma wf_upsertHLL [simp]: "wf_db d \<Longrightarrow> wf_db (upsertHLL k v d)"
  by (auto simp: wf_db_def upsertHLL_def split: option.splits)

lemma touches_pfAdd [frame_simps]: "touches {encodeKey key} d (snd (pfAdd now key elements d))"
  unfolding pfAdd_def Let_def case_prod_beta
  by (auto intro!: touches_trans [OF touches_lock(1) touches_trans [OF touches_setMeta touches_upsertHLL]])

lemma wf_pfAdd [simp]: "wf_db d \<Longrightarrow> wf_db (snd (pfAdd now key elements d))"
  by (simp add: pfAdd_def Let_def case_prod_beta)

lemma touches_pfMerge [frame_simps]: "touches {encodeKey key} d (snd (pfMerge now key sources d))"
  unfolding pfMerge_def Let_def
  by (auto intro!: touches_trans [OF touches_lock(2) touches_trans [OF touches_setMeta touches_upsertHLL]])

lemma wf_pfMerge [simp]: "wf_db d \<Longrightarrow> wf_db (snd (pfMerge now key sources d))"
  by (simp add: pfMerge_def Let_def)

lemma mergeKeys_sketch:
  assumes "finite S" "\<And>k. k \<in> set keys \<Longrightarrow> holds now k (f k) d"
  shows "mergeKeys now (map encodeKey keys) d (sketch S) = sketch (S \<union> (\<Union>k \<in> set keys. f k))"
  using assms
proof (induction keys arbitrary: S)
  case (Cons k keys)
  have fin: "finite (f k)" using Cons.prems(2) [of k] by (simp add: holds_def)
  have "(case selectHLL now (encodeKey k) d of None \<Rightarrow> sketch S | Some r \<Rightarrow> Merge (HyperLogLogFromBytes r) (sketch S)) =
      sketch (S \<union> f k)"
    using Cons.prems(2) [of k] Merge_sketch [OF Cons.prems(1) fin]
    by (auto simp: holds_def selectHLL_def split: option.splits)
  moreover have "mergeKeys now (map encodeKey keys) d (sketch (S \<union> f k)) = sketch (S \<union> f k \<union> (\<Union>k \<in> set keys. f k))"
    using Cons.prems fin by (intro Cons.IH) simp_all
  ultimately show ?case by (simp add: mergeKeys_def Un_assoc)
qed (simp add: mergeKeys_def)

lemma mergeKeys_lock [simp]: "mergeKeys now keys (lockKeys xs d) h = mergeKeys now keys d h"
  by (simp add: mergeKeys_def)

section \<open>Properties\<close>

text \<open>
  C24.  The HyperLogLog commands refine sets of elements: a key holds the sketch
  of the set of elements ever added.  PFADD adds its elements to that set and
  answers 1 exactly when the stored registers change, PFMERGE makes the
  destination the sketch of the union of its sources and itself, and PFCOUNT of
  several keys estimates the sketch of the union of their sets, so it does not depend on the order,
  repetition or partition of the additions.  Each command changes its own key only.
\<close>

theorem hll_refines_sets:
  assumes "holds now key S d" "hll_type now key d"
    and "\<And>k. k \<in> set sources \<Longrightarrow> holds now k (f k) d"
  shows "fst (pfAdd now key xs d) = Inr (if sketch (S \<union> set xs) = sketch S then 0 else 1)
    \<and> holds now key (S \<union> set xs) (snd (pfAdd now key xs d))
    \<and> touches {encodeKey key} d (snd (pfAdd now key xs d))
    \<and> fst (pfMerge now key sources d) = Inr ()
    \<and> holds now key (S \<union> (\<Union>k \<in> set sources. f k)) (snd (pfMerge now key sources d))
    \<and> touches {encodeKey key} d (snd (pfMerge now key sources d))
    \<and> (2 \<le> length sources \<longrightarrow> pfCount est now sources d = est (sketch (\<Union>k \<in> set sources. f k)))"
proof -
  have fin: "finite S" "finite (\<Union>k \<in> set sources. f k)" using assms(1,3) by (auto simp: holds_def)
  have ty: "\<not> (getKeyType now (encodeKey key) d \<noteq> TypeNone \<and> getKeyType now (encodeKey key) d \<noteq> TypeHLL)"
    using assms(2) by (auto simp: hll_type_def)
  have add: "pfAdd now key xs d = (Inr (if sketch (S \<union> set xs) = sketch S then 0 else 1),
      upsertHLL (encodeKey key) (ToBytes (sketch (S \<union> set xs))) (setMeta (encodeKey key) TypeHLL None (lockKey (encodeKey key) d)))"
    using ty by (auto simp: pfAdd_def Let_def selectHLL_holds [OF assms(1)] addAll_sketch [OF fin(1)])
  have merge: "pfMerge now key sources d = (Inr (), upsertHLL (encodeKey key) (ToBytes (sketch (S \<union> (\<Union>k \<in> set sources. f k))))
      (setMeta (encodeKey key) TypeHLL None (lockKeys (encodeKey key # map encodeKey sources) d)))"
    using ty by (auto simp: pfMerge_def Let_def encodeKeys_def selectHLL_holds [OF assms(1)] mergeKeys_sketch [OF fin(1) assms(3)])
  have "holds now key S (lockKey x d)" "holds now key S (lockKeys ys d)" for x ys
    using assms(1) by (simp_all add: holds_def)
  then have "holds now key (S \<union> set xs) (snd (pfAdd now key xs d))"
    "holds now key (S \<union> (\<Union>k \<in> set sources. f k)) (snd (pfMerge now key sources d))"
    using fin by (auto simp only: add merge snd_conv intro!: holds_upsert finite_UnI finite_set)
  moreover have "pfCount est now sources d = est (sketch (\<Union>k \<in> set sources. f k))" if two: "2 \<le> length sources"
  proof -
    obtain a b rest where "sources = a # b # rest" using two by (cases sources; cases "tl sources") auto
    then show ?thesis
      using mergeKeys_sketch [of "{}" sources now f d] assms(3)
      by (simp add: pfCount_def encodeKeys_def sketch_empty)
  qed
  ultimately show ?thesis
    by (simp add: add merge touches_pfAdd touches_pfMerge) (metis add merge snd_conv touches_pfAdd touches_pfMerge)
qed

theorem hll_refines_sets_witness:
  "let d = (initSchema :: nat db); d' = snd (pfAdd 0 ''a'' [''x''] d)
   in holds 0 ''a'' {''x''} d' \<and> pfCount (\<lambda>h. sum_list (map uint (registers h))) 0 [''a'', ''b''] d' = sum_list (map uint (registers (sketch {''x''})))"
proof -
  let ?d = "initSchema :: nat db" and ?f = "\<lambda>k. if k = ''a'' then {''x''} else {}"
  have enc: "encodeKey ''a'' = ''a''" "encodeKey ''b'' = ''b''"
    by (simp_all add: encodeKey_def ValidString_ascii in_range_def)
  have "holds 0 ''a'' {} ?d" "hll_type 0 ''a'' ?d" "holds 0 ''b'' {} ?d"
    by (simp_all add: holds_def hll_type_def getKeyType_def initSchema_def)
  then have a: "holds 0 ''a'' {''x''} (snd (pfAdd 0 ''a'' [''x''] ?d))" "touches {''a''} ?d (snd (pfAdd 0 ''a'' [''x''] ?d))"
    using hll_refines_sets [of 0 "''a''" "{}" ?d "[]" ?f "[''x'']"] by (simp_all add: enc)
  then have "rows ''b'' (snd (pfAdd 0 ''a'' [''x''] ?d)) = rows ''b'' ?d" by (simp add: touches_def)
  with \<open>holds 0 ''b'' {} ?d\<close> have "holds 0 ''b'' {} (snd (pfAdd 0 ''a'' [''x''] ?d))"
    by (simp add: holds_def rows_def enc)
  moreover have "hll_type 0 ''b'' (snd (pfAdd 0 ''a'' [''x''] ?d))"
    using \<open>rows ''b'' _ = _\<close> by (simp add: hll_type_def enc getKeyType_def rows_def initSchema_def)
  ultimately have "pfCount (\<lambda>h. sum_list (map uint (registers h))) 0 [''a'', ''b''] (snd (pfAdd 0 ''a'' [''x''] ?d)) =
      sum_list (map uint (registers (sketch (\<Union>k \<in> set [''a'', ''b'']. ?f k))))"
    using hll_refines_sets [of 0 "''b''" "{}" _ "[''a'', ''b'']" ?f] a(1) by force
  moreover have "(\<Union>k \<in> set [''a'', ''b'']. ?f k) = {''x''}" by simp
  ultimately show ?thesis using a(1) unfolding Let_def by simp
qed


text \<open>
  The two ways of adding to a sketch agree: \<^verbatim>\<open>Add\<close> of an element is
  \<^verbatim>\<open>AddHash\<close> of its hash, although they compute the rank by different case
  splits.  The register index is always in range and the rank between 1 and
  51, so the update never panics, and it keeps the sketch well-formed.
\<close>

theorem hll_add_agrees:
  "Add element hll = AddHash (murmur64 element) hll
   \<and> unat (fst (getRegisterFromHash (murmur64 element))) < hllRegisters
   \<and> 1 \<le> unat (snd (getRegisterFromHash (murmur64 element)))
   \<and> unat (snd (getRegisterFromHash (murmur64 element))) \<le> 51
   \<and> length (registers (snd (Add element hll))) = length (registers hll)"
proof -
  obtain r where "1 \<le> r" "r \<le> 51" "snd (getRegisterFromHash (murmur64 element)) = of_nat r"
    using rank_range [of "murmur64 element"] by blast
  moreover from this have "unat (of_nat r :: 8 word) = r" by (simp add: unat_of_nat)
  moreover have "length (registers (snd (Add element hll))) = length (registers hll)"
    by (simp add: Add_def Let_def raiseRegister_def)
  ultimately show ?thesis using elemIndex_less [of element] by (simp add: Add_AddHash elemIndex_def)
qed

text \<open>
  EXPIRE does not reach HyperLogLog data: \<^verbatim>\<open>dataTableForType\<close> knows no table for
  the type, so once the deadline has passed the key has no type any more while
  PFCOUNT still answers the old estimate, until a sweep.
\<close>

theorem hll_outlives_expiry:
  assumes "map_of (kv_meta d) (encodeKey key) = Some (TypeHLL, None)"
    and "map_of (kv_hyperloglog d) (encodeKey key) = Some (r, None)"
    and "now + t \<le> later"
  shows "let d' = snd (expire now key t \<lparr>NX = False, XX = False, GT = False, LT = False\<rparr> d)
    in keyType later key d' = TypeNone \<and> pfCount est later [key] d' = est (HyperLogLogFromBytes r)"
  using assms
  by (simp add: Let_def expire_def expireWhereClause_def dataTableForType_def keyType_def getKeyType_def
      table_simps pfCount_def encodeKeys_def selectHLL_def)

theorem hll_outlives_expiry_witness:
  "let d = (initSchema :: nat db)\<lparr>kv_meta := [(''k'', (TypeHLL, None))], kv_hyperloglog := [(''k'', ('''', None))]\<rparr>;
       d' = snd (expire 0 ''k'' 5 \<lparr>NX = False, XX = False, GT = False, LT = False\<rparr> d)
   in keyType 9 ''k'' d' = TypeNone \<and> pfCount (\<lambda>h. int (length (registers h))) 9 [''k''] d' = 16384"
proof -
  let ?d = "(initSchema :: nat db)\<lparr>kv_meta := [(''k'', (TypeHLL, None))], kv_hyperloglog := [(''k'', ('''', None))]\<rparr>"
  have enc: "encodeKey ''k'' = ''k''" by (simp add: encodeKey_def ValidString_ascii in_range_def)
  show ?thesis
    using hll_outlives_expiry [of ?d "''k''" "''''" 0 5 9 "\<lambda>h. int (length (registers h))"]
    by (simp add: enc hllRegisters_def hllPrecision_def)
qed

end
