(* ===== verification/CopyKey.thy ===== *)
theory CopyKey
  imports Lists Sets Hashes ZSets
begin

text \<open>
  COPY and the random samplers HRANDFIELD, SRANDMEMBER, ZRANDMEMBER and
  RANDOMKEY of \<^verbatim>\<open>src/internal/storage/querier.go\<close>.

  COPY issues INSERTs while the rows of its SELECT are still open on the same
  connection.  How the driver answers that is the parameter \<open>busy\<close>: None when
  it executes the statement, Some e when it refuses it with e.  The order
  \<^verbatim>\<open>ORDER BY random()\<close> produces is the parameter \<open>perm\<close>, the result of the i-th
  \<^verbatim>\<open>rand.Intn(n)\<close> is \<open>draw i n\<close>.
\<close>

section \<open>COPY\<close>

text \<open>The loop of INSERTs over the open rows.\<close>

fun insertEach :: "string option \<Rightarrow> ('k \<times> 'v) list \<Rightarrow> ('k \<times> 'v) list \<Rightarrow> string + ('k \<times> 'v) list" where
  "insertEach busy [] t = Inr t"
| "insertEach busy (r # rs) t =
     (case busy of
        Some e \<Rightarrow> Inl e
      | None \<Rightarrow> if fst r \<in> fst ` set t then Inl errDuplicate else insertEach busy rs (t @ [r]))"

definition copyRows ::
  "string option \<Rightarrow> string \<Rightarrow> string \<Rightarrow> ((string \<times> 'c) \<times> 'v) list \<Rightarrow> string + ((string \<times> 'c) \<times> 'v) list" where
  "copyRows busy source destination t =
     insertEach busy (map (\<lambda>r. ((destination, snd (fst r)), snd r)) (rows_of source t)) t"

definition copyData :: "string option \<Rightarrow> KeyType \<Rightarrow> string \<Rightarrow> string \<Rightarrow> ('s, unit) op" where
  "copyData busy kt source destination d =
     (case kt of
        TypeString \<Rightarrow>
          (case map_of (kv_strings d) source of
             None \<Rightarrow> (Inl ''no rows in result set'', d)
           | Some (v, e) \<Rightarrow>
               let d = setMeta destination TypeString e d
               in if map_of (kv_strings d) destination \<noteq> None then (Inl errDuplicate, d)
                  else (Inr (), d\<lparr>kv_strings := kv_strings d @ [(destination, (v, e))]\<rparr>))
      | TypeHash \<Rightarrow>
          let d = setMeta destination TypeHash None d
          in (case copyRows busy source destination (kv_hashes d) of
                Inl e \<Rightarrow> (Inl e, d) | Inr t \<Rightarrow> (Inr (), d\<lparr>kv_hashes := t\<rparr>))
      | TypeList \<Rightarrow>
          let d = setMeta destination TypeList None d
          in (case copyRows busy source destination (kv_lists d) of
                Inl e \<Rightarrow> (Inl e, d) | Inr t \<Rightarrow> (Inr (), d\<lparr>kv_lists := t\<rparr>))
      | TypeSet \<Rightarrow>
          let d = setMeta destination TypeSet None d
          in (case copyRows busy source destination (kv_sets d) of
                Inl e \<Rightarrow> (Inl e, d) | Inr t \<Rightarrow> (Inr (), d\<lparr>kv_sets := t\<rparr>))
      | TypeZSet \<Rightarrow>
          let d = setMeta destination TypeZSet None d
          in (case copyRows busy source destination (kv_zsets d) of
                Inl e \<Rightarrow> (Inl e, d) | Inr t \<Rightarrow> (Inr (), d\<lparr>kv_zsets := t\<rparr>))
      | _ \<Rightarrow> (Inr (), d))"

definition copyKey :: "string option \<Rightarrow> time \<Rightarrow> string \<Rightarrow> string \<Rightarrow> bool \<Rightarrow> ('s, bool) op" where
  "copyKey busy now source destination replace d =
     (let source = encodeKey source; destination = encodeKey destination;
          d = lockKeys [source, destination] d;
          kt = getKeyType now source d
      in if kt = TypeNone then (Inr False, d)
         else let destType = getKeyType now destination d
              in if destType \<noteq> TypeNone \<and> \<not> replace then (Inr False, d)
                 else let d = (if destType \<noteq> TypeNone then deleteKeyFromAllTables destination d else d)
                      in case copyData busy kt source destination d of
                           (Inl e, d) \<Rightarrow> (Inl e, d)
                         | (Inr _, d) \<Rightarrow> (Inr True, d))"

section \<open>Random samples\<close>

definition randInt :: "(nat \<Rightarrow> nat \<Rightarrow> nat) \<Rightarrow> nat \<Rightarrow> nat \<Rightarrow> nat" where
  "randInt draw i n = (if n \<le> 0 then 0 else draw i n)"

definition errMakeslice :: string where
  "errMakeslice = ''runtime error: makeslice: cap out of range''"

text \<open>
  The common shape of the three samplers over the live rows of a key: a
  positive count takes a prefix of a random order, a negative one draws with
  replacement.
\<close>

definition sample :: "('a list \<Rightarrow> 'a list) \<Rightarrow> (nat \<Rightarrow> nat \<Rightarrow> nat) \<Rightarrow> int \<Rightarrow> 'a list \<Rightarrow> string + 'a list" where
  "sample perm draw count' pool =
     (if count' = 0 then Inr []
      else if count' > 0 then Inr (take (nat count') (perm pool))
      else if pool = [] then Inr []
      else let n = wrap64 (- count')
           in if n < 0 then Inl errMakeslice
              else Inr (map (\<lambda>i. pool ! randInt draw i (length pool)) [0..<nat n]))"

definition hRandField ::
  "((string \<times> string) list \<Rightarrow> (string \<times> string) list) \<Rightarrow> (nat \<Rightarrow> nat \<Rightarrow> nat) \<Rightarrow> time \<Rightarrow> string \<Rightarrow> int \<Rightarrow> bool \<Rightarrow> 's db
     \<Rightarrow> string + string list" where
  "hRandField perm draw now key count' withValues d =
     (case sample perm draw count' (liveFields now (encodeKey key) d) of
        Inl e \<Rightarrow> Inl e
      | Inr fvs \<Rightarrow> Inr (concat (map (\<lambda>(f, v). if withValues then [decodeField f, v] else [decodeField f]) fvs)))"

definition sRandMember ::
  "(string list \<Rightarrow> string list) \<Rightarrow> (nat \<Rightarrow> nat \<Rightarrow> nat) \<Rightarrow> time \<Rightarrow> string \<Rightarrow> int \<Rightarrow> 's db \<Rightarrow> string + string list" where
  "sRandMember perm draw now key count' d = sample perm draw count' (liveMembers now (encodeKey key) d)"

definition zRandMember ::
  "('s ZMember list \<Rightarrow> 's ZMember list) \<Rightarrow> (nat \<Rightarrow> nat \<Rightarrow> nat) \<Rightarrow> time \<Rightarrow> string \<Rightarrow> int \<Rightarrow> 's db \<Rightarrow> string + 's ZMember list" where
  "zRandMember perm draw now key count' d = sample perm draw count' (zLive now (encodeKey key) d)"

definition randomKey :: "(string list \<Rightarrow> string list) \<Rightarrow> time \<Rightarrow> 's db \<Rightarrow> string option" where
  "randomKey perm now d =
     (case perm (map fst (filter (\<lambda>r. live now (snd (snd r))) (kv_meta d))) of
        [] \<Rightarrow> None
      | key # _ \<Rightarrow> Some (decodeKey key))"

section \<open>Lemmas\<close>

lemma insertEach_None:
  assumes "distinct (map fst rs)" "fst ` set rs \<inter> fst ` set t = {}"
  shows "insertEach None rs t = Inr (t @ rs)"
  using assms by (induction rs arbitrary: t) auto

lemma insertEach_Inr: "insertEach busy rs t = Inr t' \<Longrightarrow> t' = t @ rs \<and> (pk_distinct t \<longrightarrow> pk_distinct t')"
proof (induction rs arbitrary: t)
  case (Cons r rs)
  from Cons.prems have b: "busy = None" "fst r \<notin> fst ` set t" "insertEach busy rs (t @ [r]) = Inr t'"
    by (auto split: option.splits if_splits)
  have "t' = t @ r # rs" using Cons.IH [OF b(3)] by simp
  moreover have "pk_distinct t \<longrightarrow> pk_distinct t'" using conjunct2 [OF Cons.IH [OF b(3)]] b(2) by simp
  ultimately show ?case by blast
qed simp

lemma copyRows_Inr:
  assumes "copyRows busy source destination t = Inr t'"
  shows "pk_distinct t \<Longrightarrow> pk_distinct t'" and "k \<noteq> destination \<Longrightarrow> rows_of k t' = rows_of k t"
    and "rows_of destination t' = rows_of destination t @ map (\<lambda>r. ((destination, snd (fst r)), snd r)) (rows_of source t)"
proof -
  note ins = insertEach_Inr [OF assms [unfolded copyRows_def]]
  show "pk_distinct t \<Longrightarrow> pk_distinct t'" using conjunct2 [OF ins] by blast
  show "k \<noteq> destination \<Longrightarrow> rows_of k t' = rows_of k t"
    using ins by (simp add: rows_of_def filter_empty_conv)
  show "rows_of destination t' = rows_of destination t @ map (\<lambda>r. ((destination, snd (fst r)), snd r)) (rows_of source t)"
    using ins by (simp add: rows_of_def filter_map comp_def)
qed

lemma copyRows_empty:
  assumes "pk_distinct t" "rows_of destination t = []"
  shows "copyRows None source destination t =
    Inr (t @ map (\<lambda>r. ((destination, snd (fst r)), snd r)) (rows_of source t))"
  unfolding copyRows_def
proof (rule insertEach_None)
  have "distinct (map (snd \<circ> fst) (filter (\<lambda>_. True) (rows_of source t)))"
    by (rule distinct_subkeys [OF assms(1)])
  then show "distinct (map fst (map (\<lambda>r. ((destination, snd (fst r)), snd r)) (rows_of source t)))"
    by (simp add: comp_def distinct_map inj_on_def)
  have "\<forall>r \<in> set t. fst (fst r) \<noteq> destination" using assms(2) by (auto simp: rows_of_def filter_empty_conv)
  then show "fst ` set (map (\<lambda>r. ((destination, snd (fst r)), snd r)) (rows_of source t)) \<inter> fst ` set t = {}"
    by force
qed

lemma touches_copyData: "destination \<in> K \<Longrightarrow> touches K d (snd (copyData busy kt source destination d))"
  by (cases kt) (auto simp: copyData_def Let_def touches_def rows_def table_simps copyRows_Inr(2) map_add_def
      split: option.splits sum.splits)

lemma wf_copyData [simp]: "wf_db d \<Longrightarrow> wf_db (snd (copyData busy kt source destination d))"
  by (cases kt) (auto simp: copyData_def Let_def wf_db_def copyRows_Inr(1) map_of_eq_None_iff
      split: option.splits sum.splits)

lemma snd_copyKey:
  "snd (copyKey busy now source destination replace d) =
     (let s = encodeKey source; t = encodeKey destination; d = lockKeys [s, t] d
      in if getKeyType now s d = TypeNone \<or> getKeyType now t d \<noteq> TypeNone \<and> \<not> replace then d
         else snd (copyData busy (getKeyType now s d) s t
           (if getKeyType now t d \<noteq> TypeNone then deleteKeyFromAllTables t d else d)))"
  by (auto simp: copyKey_def Let_def split: prod.splits sum.splits)

lemma touches_copyKey [frame_simps]: "touches {encodeKey destination} d (snd (copyKey busy now source destination replace d))"
  unfolding snd_copyKey Let_def
  by (auto intro!: touches_trans [OF touches_lock(2) touches_copyData]
      touches_trans [OF touches_trans [OF touches_lock(2) touches_deleteKeys(1)] touches_copyData])

lemma wf_copyKey [simp]: "wf_db d \<Longrightarrow> wf_db (snd (copyKey busy now source destination replace d))"
  unfolding snd_copyKey Let_def by simp


lemma copyKey_run:
  assumes "getKeyType now (encodeKey src) d \<noteq> TypeNone" "getKeyType now (encodeKey dst) d = TypeNone \<or> replace"
  shows "copyKey busy now src dst replace d =
    (let s = encodeKey src; t = encodeKey dst; d0 = lockKeys [s, t] d;
         p = copyData busy (getKeyType now s d) s t
               (if getKeyType now t d \<noteq> TypeNone then deleteKeyFromAllTables t d0 else d0)
     in (case fst p of Inl e \<Rightarrow> Inl e | Inr _ \<Rightarrow> Inr True, snd p))"
proof -
  have "getKeyType now k (lockKeys ks d) = getKeyType now k d" for k ks by (simp add: getKeyType_def)
  with assms show ?thesis by (auto simp: copyKey_def Let_def split: prod.splits sum.splits)
qed

subsection \<open>What COPY copies\<close>

definition stripped :: "(('k \<times> 'c) \<times> 'v) list \<Rightarrow> ('c \<times> 'v) list" where
  "stripped t = map (\<lambda>r. (snd (fst r), snd r)) t"

text \<open>The data of a key in the table of its type.\<close>

definition payload :: "KeyType \<Rightarrow> string \<Rightarrow> 's db \<Rightarrow> _" where
  "payload kt k d =
     (if kt = TypeString then map_of (kv_strings d) k else None,
      if kt = TypeHash then stripped (rows_of k (kv_hashes d)) else [],
      if kt = TypeList then stripped (rows_of k (kv_lists d)) else [],
      if kt = TypeSet then stripped (rows_of k (kv_sets d)) else [],
      if kt = TypeZSet then stripped (rows_of k (kv_zsets d)) else [])"

definition no_rows :: "string \<Rightarrow> 's db \<Rightarrow> bool" where
  "no_rows k d = (rows k d = (None, None, [], [], [], [], None))"

lemma payload_rows: "rows k d' = rows k d \<Longrightarrow> payload kt k d' = payload kt k d"
  by (simp add: payload_def rows_def)

lemma stripped_copy: "stripped (map (\<lambda>r. ((destination, snd (fst r)), snd r)) t) = stripped t"
  by (simp add: stripped_def)

lemma copyData_payload:
  assumes "wf_db d" "no_rows t d" "kt \<notin> {TypeNone, TypeHLL}"
    and "kt = TypeString \<Longrightarrow> map_of (kv_strings d) s \<noteq> None"
  shows "fst (copyData None kt s t d) = Inr ()"
    and "payload kt t (snd (copyData None kt s t d)) = payload kt s d"
    and "\<exists>e. map_of (kv_meta (snd (copyData None kt s t d))) t = Some (kt, e) \<and> (kt \<noteq> TypeString \<longrightarrow> e = None)"
proof -
  have e: "rows_of t (kv_hashes d) = []" "rows_of t (kv_lists d) = []" "rows_of t (kv_sets d) = []"
      "rows_of t (kv_zsets d) = []" "map_of (kv_strings d) t = None"
    using assms(2) by (simp_all add: no_rows_def rows_def)
  have c: "pk_distinct (kv_hashes d)" "pk_distinct (kv_lists d)" "pk_distinct (kv_sets d)" "pk_distinct (kv_zsets d)"
    using assms(1) by (simp_all add: wf_db_def)
  have app: "rows_of t (x @ map (\<lambda>r. ((t, snd (fst r)), snd r)) (rows_of s y)) =
      rows_of t x @ map (\<lambda>r. ((t, snd (fst r)), snd r)) (rows_of s y)" for x y :: "((string \<times> 'c) \<times> 'v) list"
    by (simp add: rows_of_def filter_map comp_def)
  show "fst (copyData None kt s t d) = Inr ()"
    using assms(3,4) e by (cases kt) (auto simp: copyData_def Let_def copyRows_empty [OF c(1) e(1)]
        copyRows_empty [OF c(2) e(2)] copyRows_empty [OF c(3) e(3)] copyRows_empty [OF c(4) e(4)])
  show "payload kt t (snd (copyData None kt s t d)) = payload kt s d"
    using assms(3,4) e by (cases kt) (auto simp: copyData_def Let_def payload_def copyRows_empty [OF c(1) e(1)]
        copyRows_empty [OF c(2) e(2)] copyRows_empty [OF c(3) e(3)] copyRows_empty [OF c(4) e(4)] app stripped_copy map_add_def)
  show "\<exists>e. map_of (kv_meta (snd (copyData None kt s t d))) t = Some (kt, e) \<and> (kt \<noteq> TypeString \<longrightarrow> e = None)"
    using assms(3,4) e by (cases kt) (auto simp: copyData_def Let_def copyRows_empty [OF c(1) e(1)]
        copyRows_empty [OF c(2) e(2)] copyRows_empty [OF c(3) e(3)] copyRows_empty [OF c(4) e(4)] table_simps)
qed

section \<open>Properties\<close>



text \<open>
  Two gaps of COPY.  When the driver refuses a statement while rows are open,
  as pgx does, COPY of any non-empty hash, list, set or sorted set fails with
  that error.  And COPY of a HyperLogLog answers success although it copies
  nothing: a destination that existed is gone afterwards.
\<close>

theorem copy_gaps:
  assumes "getKeyType now (encodeKey src) d = kt" "kt \<noteq> TypeNone" "kt \<noteq> TypeString"
    and "encodeKey src \<noteq> encodeKey dst"
  shows "(payload kt (encodeKey src) d \<noteq> (None, [], [], [], []) \<longrightarrow>
      fst (copyKey (Some e) now src dst True d) = Inl e)
    \<and> (kt = TypeHLL \<and> getKeyType now (encodeKey dst) d \<noteq> TypeNone \<longrightarrow>
      fst (copyKey busy now src dst True d) = Inr True \<and> no_rows (encodeKey dst) (snd (copyKey busy now src dst True d)))"
proof (intro conjI impI)
  let ?s = "encodeKey src" and ?t = "encodeKey dst"
  define d0 where "d0 = lockKeys [?s, ?t] d"
  define d1 where "d1 = (if getKeyType now ?t d \<noteq> TypeNone then deleteKeyFromAllTables ?t d0 else d0)"
  have run: "copyKey b now src dst True d =
      (case fst (copyData b kt ?s ?t d1) of Inl e \<Rightarrow> Inl e | Inr _ \<Rightarrow> Inr True, snd (copyData b kt ?s ?t d1))" for b
    using assms(1,2) by (subst copyKey_run) (simp_all add: Let_def d0_def d1_def split: if_splits)
  have src: "rows ?s d1 = rows ?s d" using assms(4) by (simp add: d1_def d0_def rows_deleteKeys)
  {
    assume "payload kt ?s d \<noteq> (None, [], [], [], [])"
    then have p: "payload kt ?s d1 \<noteq> (None, [], [], [], [])" using payload_rows [OF src] by simp
    have ins: "insertEach (Some e) rs t = Inl e" if "rs \<noteq> []" for rs t :: "('k \<times> 'v) list"
      using that by (cases rs) simp_all
    have "fst (copyData (Some e) kt ?s ?t d1) = Inl e"
      using p assms(2,3) by (cases kt) (auto simp: payload_def copyData_def Let_def copyRows_def stripped_def ins)
    then show "fst (copyKey (Some e) now src dst True d) = Inl e" by (simp add: run)
  }
  assume h: "kt = TypeHLL \<and> getKeyType now ?t d \<noteq> TypeNone"
  then have "copyKey busy now src dst True d = (Inr True, deleteKeyFromAllTables ?t d0)"
    by (simp add: run copyData_def d1_def)
  then show "fst (copyKey busy now src dst True d) = Inr True" "no_rows ?t (snd (copyKey busy now src dst True d))"
    by (simp_all add: no_rows_def rows_deleteKeys)
qed

theorem copy_gaps_witness:
  "let d = (initSchema :: nat db)\<lparr>kv_meta := [(''a'', (TypeSet, None))], kv_sets := [((''a'', ''x''), None)]\<rparr>
   in fst (copyKey (Some ''conn busy'') 0 ''a'' ''b'' True d) = Inl ''conn busy''"
proof -
  let ?d = "(initSchema :: nat db)\<lparr>kv_meta := [(''a'', (TypeSet, None))], kv_sets := [((''a'', ''x''), None)]\<rparr>"
  have enc: "encodeKey ''a'' = ''a''" "encodeKey ''b'' = ''b''"
    by (simp_all add: encodeKey_def ValidString_ascii in_range_def)
  show ?thesis
    using copy_gaps [of 0 "''a''" ?d TypeSet "''b''" "''conn busy''" None]
    by (simp add: enc getKeyType_def payload_def rows_of_def stripped_def)
qed

text \<open>
  The samplers answer members of the key only.  A positive count gives
  that many distinct ones, or all of them when there are fewer; a negative
  count gives exactly that many draws; the reads change nothing.
\<close>

theorem samples_correct:
  assumes "wf_db d" and perm: "\<And>xs. mset (perm xs) = mset xs" and draw: "\<And>i n. 0 < n \<Longrightarrow> draw i n < n"
    and "int64 c" "c \<noteq> min_int64"
  shows "\<exists>ms. sRandMember perm draw now key c d = Inr ms \<and> set ms \<subseteq> memberSet now key d
    \<and> (c \<ge> 0 \<longrightarrow> distinct ms \<and> length ms = min (nat c) (card (memberSet now key d)))
    \<and> (c < 0 \<and> memberSet now key d \<noteq> {} \<longrightarrow> length ms = nat (- c))"
proof -
  let ?pool = "liveMembers now (encodeKey key) d"
  have pool: "distinct ?pool" "set ?pool = memberSet now key d"
    using liveMembers_distinct [OF assms(1)] by (simp_all add: memberSet_def)
  have p: "distinct (perm ?pool)" "set (perm ?pool) = memberSet now key d" "length (perm ?pool) = card (memberSet now key d)"
    using pool perm [of ?pool] by (metis mset_eq_imp_distinct_iff mset_eq_setD distinct_card mset_eq_length)+
  consider "c = 0" | "c > 0" | "c < 0" "?pool = []" | "c < 0" "?pool \<noteq> []" by linarith
  then show ?thesis
  proof cases
    case 2
    then show ?thesis using p by (auto simp: sRandMember_def sample_def min_def distinct_take dest: in_set_takeD)
  next
    case 4
    have "int64 (- c)" using assms(4,5) by (auto simp: int64_bounds min_int64_def)
    moreover have "?pool ! randInt draw i (length ?pool) \<in> memberSet now key d" for i
      using draw [of "length ?pool" i] 4(2) pool(2) by (metis length_greater_0_conv nth_mem randInt_def not_le)
    ultimately show ?thesis using 4 by (auto simp: sRandMember_def sample_def Let_def)
  qed (use pool in \<open>auto simp: sRandMember_def sample_def\<close>)
qed

theorem samples_correct_witness:
  "let d = (initSchema :: nat db)\<lparr>kv_sets := [((''a'', ''x''), None), ((''a'', ''y''), None)]\<rparr>
   in \<exists>ms. sRandMember rev (\<lambda>i n. i mod n) 0 ''a'' 1 d = Inr ms \<and> distinct ms \<and> length ms = 1"
proof -
  let ?d = "(initSchema :: nat db)\<lparr>kv_sets := [((''a'', ''x''), None), ((''a'', ''y''), None)]\<rparr>"
  have enc: "encodeKey ''a'' = ''a''" by (simp add: encodeKey_def ValidString_ascii in_range_def)
  have "memberSet 0 ''a'' ?d = {''x'', ''y''}" by (simp add: memberSet_def liveMembers_def rows_of_def enc)
  with samples_correct [of ?d rev "\<lambda>i n. i mod n" 1 0 "''a''"] show ?thesis
    by (auto simp: wf_db_def initSchema_def int64_bounds min_int64_def Let_def)
qed

end
