(* ===== verification/FloatOps.thy ===== *)
theory FloatOps
  imports Hashes
begin

text \<open>
  The storage operations of \<^verbatim>\<open>src/internal/storage/querier.go\<close> that need more than the
  tables: INCRBYFLOAT and HINCRBYFLOAT, whose values are float64, and KEYS,
  whose pattern PostgreSQL evaluates.  Parsing and formatting a float64
  (\<^verbatim>\<open>strconv.ParseFloat\<close>, \<^verbatim>\<open>strconv.FormatFloat\<close>) are the arguments \<open>parse\<close> and
  \<open>fmt\<close> over the score type; LIKE is the argument \<open>like\<close>, which refuses a
  pattern with an error or says which keys match it.
\<close>

section \<open>Floating-point increments\<close>

definition incrByFloat ::
  "(string \<Rightarrow> 's option) \<Rightarrow> ('s \<Rightarrow> string) \<Rightarrow> time \<Rightarrow> string \<Rightarrow> ('s :: {plus, zero}) \<Rightarrow> ('s, 's) op" where
  "incrByFloat parse fmt now key delta d =
     (let key = encodeKey key; kt = getKeyType now key d
      in if kt \<noteq> TypeNone \<and> kt \<noteq> TypeString then (Inl errWrongType, d)
         else let current = (case selectString now key d of None \<Rightarrow> Some 0 | Some v \<Rightarrow> parse v)
              in case current of
                   None \<Rightarrow> (Inl ''ERR value is not a valid float'', d)
                 | Some currentValue \<Rightarrow>
                     let newValue = currentValue + delta;
                         d = setMeta key TypeString None d
                     in (Inr newValue, upsertStringValue key (fmt newValue) d))"

definition hIncrByFloat ::
  "(string \<Rightarrow> 's option) \<Rightarrow> ('s \<Rightarrow> string) \<Rightarrow> time \<Rightarrow> string \<Rightarrow> string \<Rightarrow> ('s :: {plus, zero}) \<Rightarrow> ('s, 's) op" where
  "hIncrByFloat parse fmt now key field increment d =
     (let key = encodeKey key; kt = getKeyType now key d
      in if kt \<noteq> TypeNone \<and> kt \<noteq> TypeHash then (Inl errWrongType, d)
         else let enc = encodeField field;
                  current = (case selectField now key enc d of None \<Rightarrow> Some 0 | Some v \<Rightarrow> parse v)
              in case current of
                   None \<Rightarrow> (Inl ''ERR hash value is not a valid float'', d)
                 | Some currentValue \<Rightarrow>
                     let newValue = currentValue + increment;
                         d = setMeta key TypeHash None d
                     in (Inr newValue, upsertField key enc (fmt newValue) d))"

section \<open>KEYS\<close>

definition likePattern :: "string \<Rightarrow> string" where
  "likePattern pattern =
     map (\<lambda>c. if c = CHR ''?'' then CHR ''_'' else c) (map (\<lambda>c. if c = CHR ''*'' then CHR ''%'' else c) pattern)"

definition keys' :: "(string \<Rightarrow> string + (string \<Rightarrow> bool)) \<Rightarrow> time \<Rightarrow> string \<Rightarrow> 's db \<Rightarrow> string + string list" where
  "keys' like now pattern d =
     (case like (likePattern pattern) of
        Inl e \<Rightarrow> Inl e
      | Inr matches \<Rightarrow>
          Inr (map (\<lambda>r. decodeKey (fst r)) (filter (\<lambda>r. matches (fst r) \<and> live now (snd (snd r))) (kv_meta d))))"

end
