(* ===== verification/Frames.thy ===== *)
theory Frames
  imports ListRanges ZSetStores Bitmaps HyperLogLog CopyKey FloatOps
begin

text \<open>
  What each storage operation leaves alone: \<open>framed K d d'\<close> says that from a
  well-formed database an operation leads to a well-formed one and changes
  rows of the keys K only; \<open>quiet\<close> that it does not touch the string table.
  Every writing operation of \<^verbatim>\<open>queryOps\<close> has a lemma of the first kind, every
  one of another data type also one of the second.
\<close>

definition framed :: "string set \<Rightarrow> 's db \<Rightarrow> 's db \<Rightarrow> bool" where
  "framed K d d' = (wf_db d \<longrightarrow> wf_db d' \<and> touches K d d')"

named_theorems framed_ops \<open>frame and well-formedness of the storage operations\<close>
named_theorems quiet_ops \<open>operations that keep the string table\<close>

section \<open>Rules\<close>

lemma framed_refl [intro, simp]: "framed K d d"
  by (simp add: framed_def)

lemma framed_trans: "framed K d d' \<Longrightarrow> framed K d' d'' \<Longrightarrow> framed K d d''"
  by (auto simp: framed_def intro: touches_trans)

lemma framed_mono: "framed K d d' \<Longrightarrow> K \<subseteq> K' \<Longrightarrow> framed K' d d'"
  by (auto simp: framed_def intro: touches_mono)

lemma framedI: "touches K d d' \<Longrightarrow> (wf_db d \<Longrightarrow> wf_db d') \<Longrightarrow> framed K d d'"
  by (simp add: framed_def)

lemma framed_basic [intro]:
  "framed K d (lockKey x d)" "framed K d (lockKeys xs d)"
  "k \<in> K \<Longrightarrow> framed K d (setMeta k kt e d)"
  "k \<in> K \<Longrightarrow> framed K d (deleteKeyFromAllTables k d)"
  "k \<in> K \<Longrightarrow> framed K d (upsertStringValue k v d)"
  "k \<in> K \<Longrightarrow> framed K d (deleteListIdx k idxs d)"
  "k \<in> K \<Longrightarrow> framed K d (deleteZMembers k ms d)"
  by (auto intro!: framedI simp: touches_setMeta touches_deleteKeys touches_deleteListIdx touches_deleteZMembers)

lemma framed_lists: "(\<And>r. r \<in> set (kv_lists d) \<Longrightarrow> fst (fst r) \<notin> K \<Longrightarrow> \<not> P r) \<Longrightarrow>
    framed K d (d\<lparr>kv_lists := delete_rows P (kv_lists d)\<rparr>)"
  by (intro framedI) (auto simp: touches_def rows_def wf_db_def intro!: rows_of_delete_rows)

section \<open>Strings, keys and bitmaps\<close>

lemma framed_strings [framed_ops]:
  "framed {encodeKey key} d (set' now key v t d)"
  "framed {encodeKey key} d (snd (setNX now key v t d))"
  "framed (encodeKey ` fst ` set pairs) d (snd (mSet pairs d))"
  "framed {encodeKey key} d (snd (incr now key delta d))"
  "framed {encodeKey key} d (snd (appendStr key v d))"
  "framed {encodeKey key} d (snd (setRange now key off v d))"
  "framed {encodeKey key} d (snd (getEx now key t p d))"
  "framed {encodeKey key} d (snd (getDel now key d))"
  "framed {encodeKey key} d (snd (getSet now key v d))"
  by (auto intro!: framedI frame_simps)

lemma framed_keys [framed_ops]:
  "framed (encodeKey ` set keys) d (snd (del now keys d))"
  "framed {encodeKey key} d (snd (expire now key t opts d))"
  "framed {encodeKey key} d (snd (expireAt now key t opts d))"
  "framed {encodeKey key} d (snd (persist now key d))"
  "framed {encodeKey old, encodeKey new} d (snd (rename now old new d))"
  "framed {encodeKey destination} d (snd (copyKey busy now src destination replace d))"
  by (auto intro!: framedI frame_simps simp: expire_expireAt)

lemma framed_setBit [framed_ops]: "framed {encodeKey key} d (snd (setBit now key off v d))"
  unfolding setBit_def Let_def by (auto intro: framed_trans [OF framed_basic(3) framed_basic(5)])

lemma framed_bitOp [framed_ops]: "framed {encodeKey dest} d (snd (bitOp now op dest keys d))"
  unfolding bitOp_def Let_def
  by (auto split: option.splits intro: framed_trans [OF framed_basic(4) framed_trans [OF framed_basic(3) framed_basic(5)]])

lemma framed_bitField [framed_ops]:
  assumes "bitField now key ops d = Some (r, d')"
  shows "framed {encodeKey key} d d'"
  using assms unfolding bitField_def Let_def
  by (auto split: option.splits sum.splits prod.splits if_splits
      intro: framed_trans [OF framed_basic(3) framed_basic(5)] framed_trans [OF framed_basic(1) framed_basic(5)])

section \<open>Lists\<close>

lemma framed_insertListRows: "insertListRows key new d = Inr d' \<Longrightarrow> key \<in> K \<Longrightarrow> framed K d d'"
  by (rule framedI [OF touches_insertListRows wf_insertListRows])

lemma quiet_insertListRows: "insertListRows key new d = Inr d' \<Longrightarrow> kv_strings d' = kv_strings d"
  by (auto simp: insertListRows_def Let_def split: if_splits)

lemma quiet_deleteListIdx [simp]: "kv_strings (deleteListIdx key idxs d) = kv_strings d"
  by (simp add: deleteListIdx_def)

lemma framed_lock_meta: "k \<in> K \<Longrightarrow> framed K d (setMeta k kt e (lockKey x d))"
  by (rule framed_trans [OF framed_basic(1) framed_basic(3)])

lemma framed_push [framed_ops]:
  "framed {encodeKey key} d (snd (lPush now key vs d))" "framed {encodeKey key} d (snd (rPush now key vs d))"
  by (auto simp: lPush_def rPush_def Let_def framed_lock_meta split: sum.splits
      intro: framed_trans [OF framed_lock_meta framed_insertListRows])

lemma quiet_push [quiet_ops]:
  "kv_strings (snd (lPush now key vs d)) = kv_strings d" "kv_strings (snd (rPush now key vs d)) = kv_strings d"
  unfolding lPush_def rPush_def Let_def by (auto split: sum.splits dest: quiet_insertListRows)

lemma framed_pops [framed_ops]:
  "framed {encodeKey key} d (snd (lPop key d))" "framed {encodeKey key} d (snd (rPop key d))"
  "framed {encodeKey key} d (snd (lRem key n v d))"
  unfolding lPop_def rPop_def lRem_def Let_def by (auto split: list.splits)

lemma quiet_pops [quiet_ops]:
  "kv_strings (snd (lPop key d)) = kv_strings d" "kv_strings (snd (rPop key d)) = kv_strings d"
  "kv_strings (snd (lRem key n v d)) = kv_strings d"
  unfolding lPop_def rPop_def lRem_def Let_def by (auto split: list.splits)

lemma find_encodeKeys: "find P (encodeKeys keys) = Some k \<Longrightarrow> k \<in> encodeKey ` set keys"
  by (auto simp: encodeKeys_def find_Some_iff dest: nth_mem)

lemma framed_popMulti [framed_ops]:
  "framed (encodeKey ` set keys) d (snd (popMulti now keys asc d))"
  "framed (encodeKey ` set keys) d (snd (popMultiN now keys asc n d))"
  unfolding popMulti_def popMultiN_def Let_def
  by (auto split: option.splits dest!: find_encodeKeys)

lemma quiet_popMulti [quiet_ops]:
  "kv_strings (snd (popMulti now keys asc d)) = kv_strings d"
  "kv_strings (snd (popMultiN now keys asc n d)) = kv_strings d"
  unfolding popMulti_def popMultiN_def Let_def by (auto split: option.splits)

lemmas framed_mpop [framed_ops] =
  framed_popMulti(1) [of keys d now True for keys d now, folded lPopMulti_def]
  framed_popMulti(1) [of keys d now False for keys d now, folded rPopMulti_def]
  framed_popMulti(2) [of keys d now True for keys d now, folded lMPop_def]
  framed_popMulti(2) [of keys d now False for keys d now, folded rMPop_def]

lemmas quiet_mpop [quiet_ops] =
  quiet_popMulti(1) [of now keys True for keys now, folded lPopMulti_def]
  quiet_popMulti(1) [of now keys False for keys now, folded rPopMulti_def]
  quiet_popMulti(2) [of now keys True for keys now, folded lMPop_def]
  quiet_popMulti(2) [of now keys False for keys now, folded rMPop_def]

lemma framed_insertMetaIfAbsent: "k \<in> K \<Longrightarrow> framed K d (insertMetaIfAbsent k kt d)"
  by (intro framedI) (auto simp: insertMetaIfAbsent_def touches_def rows_def map_add_def wf_db_def split: option.splits)

lemma quiet_insertMeta [simp]: "kv_strings (insertMetaIfAbsent k kt d) = kv_strings d"
  by (simp add: insertMetaIfAbsent_def)

lemma framed_rPopLPush [framed_ops]: "framed {encodeKey src, encodeKey dst} d (snd (rPopLPush src dst d))"
proof -
  let ?K = "{encodeKey src, encodeKey dst}"
  have base: "framed ?K d (insertMetaIfAbsent (encodeKey dst) TypeList (deleteListIdx (encodeKey src) idxs (lockKeys ks d)))" for idxs ks
    by (intro framed_trans [OF framed_basic(2) framed_trans [OF framed_basic(6) framed_insertMetaIfAbsent]]) simp_all
  show ?thesis
    unfolding rPopLPush_def Let_def
    by (auto split: list.splits sum.splits intro: base framed_trans [OF base framed_insertListRows])
qed

lemma quiet_rPopLPush [quiet_ops]: "kv_strings (snd (rPopLPush src dst d)) = kv_strings d"
  unfolding rPopLPush_def Let_def by (auto split: list.splits sum.splits dest: quiet_insertListRows)

lemma framed_lTrim [framed_ops]: "framed {encodeKey key} d (lTrim key start stop d)"
proof -
  have "framed {encodeKey key} d (lockKey (encodeKey key) d\<lparr>kv_meta := delete_rows (\<lambda>r. fst r = encodeKey key) (kv_meta d),
      kv_lists := delete_rows (\<lambda>r. fst (fst r) = encodeKey key) (kv_lists d)\<rparr>)"
    by (intro framedI) (auto simp: touches_def rows_def wf_db_def table_simps)
  then show ?thesis
    unfolding lTrim_def Let_def by (auto intro: framed_trans [OF framed_basic(1) framed_basic(6)])
qed

lemma quiet_lTrim [quiet_ops]: "kv_strings (lTrim key start stop d) = kv_strings d"
  by (simp add: lTrim_def Let_def)

lemma framed_updateListVal: "k \<in> K \<Longrightarrow> framed K d (updateListVal k i v d)"
  unfolding updateListVal_def
  by (intro framedI) (auto simp: touches_def rows_def wf_db_def intro!: rows_of_update_rows)

lemma framed_lSet [framed_ops]: "framed {encodeKey key} d (snd (lSet key i v d))"
  by (simp add: lSet_def Let_def framed_updateListVal)

lemma quiet_lSet [quiet_ops]: "kv_strings (snd (lSet key i v d)) = kv_strings d"
  by (simp add: lSet_def updateListVal_def Let_def)


lemma rekey_pk:
  assumes "pk_distinct t" "q \<notin> fst ` set t"
  shows "pk_distinct (rekey_rows (\<lambda>k. k = p) (\<lambda>_. q) t)"
proof -
  have "map fst (rekey_rows (\<lambda>k. k = p) (\<lambda>_. q) t) = map (\<lambda>k. if k = p then q else k) (map fst t)"
    by (simp add: rekey_rows_def)
  moreover have "inj_on (\<lambda>k. if k = p then q else k) (set (map fst t))"
    using assms(2) by (auto simp: inj_on_def)
  ultimately show ?thesis using assms(1) by (metis distinct_map)
qed

lemma shiftRows_props:
  "shiftRows pks t = Some t' \<Longrightarrow> \<forall>p \<in> set pks. fst p = key \<Longrightarrow>
     (pk_distinct t \<longrightarrow> pk_distinct t') \<and> (\<forall>k. k \<noteq> key \<longrightarrow> rows_of k t' = rows_of k t)"
proof (induction pks arbitrary: t)
  case (Cons p pks)
  let ?q = "(fst p, snd p + 1)" and ?t = "rekey_rows (\<lambda>k. k = p) (\<lambda>_. (fst p, snd p + 1)) t"
  from Cons.prems have q: "?q \<notin> fst ` set t" "shiftRows pks ?t = Some t'"
    by (auto simp: Let_def split: if_splits)
  have "rows_of k ?t = rows_of k t" if "k \<noteq> key" for k
    using that Cons.prems(2) by (induction t) (auto simp: rows_of_def rekey_rows_def)
  moreover have "pk_distinct t \<Longrightarrow> pk_distinct ?t" using q(1) by (rule rekey_pk [rotated])
  ultimately show ?case using Cons.IH [OF q(2)] Cons.prems(2) by simp
qed simp

lemma framed_lInsert [framed_ops]: "framed {encodeKey key} d (snd (lInsert key p v before d))"
proof -
  let ?k = "encodeKey key"
  have shift: "framed {?k} d (lockKey ?k d\<lparr>kv_lists := t\<rparr>)"
    if "shiftRows (map fst (filter (\<lambda>r. fst (fst r) = ?k \<and> Q r) (kv_lists d))) (kv_lists d) = Some t" for Q t
    using shiftRows_props [OF that, of ?k]
    by (intro framedI) (auto simp: touches_def rows_def wf_db_def)
  show ?thesis
    unfolding lInsert_def Let_def
    by (auto split: list.splits option.splits sum.splits intro: shift framed_trans [OF shift framed_insertListRows])
qed

lemma quiet_lInsert [quiet_ops]: "kv_strings (snd (lInsert key p v before d)) = kv_strings d"
  unfolding lInsert_def Let_def
  by (auto split: list.splits option.splits sum.splits dest: quiet_insertListRows)

section \<open>Sets and hashes\<close>

lemma framed_sets [framed_ops]:
  "framed {encodeKey key} d (snd (sAdd now key ms d))" "framed {encodeKey key} d (snd (sRem key ms d))"
  using sRem_refines(2,3) [where key = key and ms = ms and d = d] by (auto intro!: framedI frame_simps)

lemma quiet_sets [quiet_ops]:
  "kv_strings (snd (sAdd now key ms d)) = kv_strings d" "kv_strings (snd (sRem key ms d)) = kv_strings d"
  by (simp_all add: sAdd_def sRem_def insertMembers_def Let_def)

lemma framed_storeMembers: "framed {encodeKey dst} d (snd (storeMembers now (encodeKey dst) r d))"
  using framed_trans [OF framed_basic(4) framed_sets(1) [of "encodeKey dst"]]
  by (auto simp: storeMembers_def Let_def split: sum.splits)

lemma framed_setStores [framed_ops]:
  "framed {encodeKey dst} d (snd (sInterStore now dst keys d))"
  "framed {encodeKey dst} d (snd (sUnionStore now dst keys d))"
  "framed {encodeKey dst} d (snd (sDiffStore now dst keys d))"
  by (simp_all add: sInterStore_def sUnionStore_def sDiffStore_def framed_storeMembers)

lemma framed_hashes [framed_ops]:
  "framed {encodeKey key} d (snd (hSet now key fs d))"
  "framed {encodeKey key} d (snd (hDel key flds d))"
  "framed {encodeKey key} d (snd (hIncrBy now key f n d))"
  "framed {encodeKey key} d (snd (hSetNX now key f v d))"
proof -
  show "framed {encodeKey key} d (snd (hSet now key fs d))" by (intro framedI frame_simps wf_hSet)
  show "framed {encodeKey key} d (snd (hDel key flds d))"
    unfolding hDel_def Let_def by (intro framedI) (auto simp: touches_def rows_def wf_db_def intro!: rows_of_delete_rows)
  have up: "framed {k} d (upsertField k f' v' (setMeta k TypeHash None d))" for k f' v'
    by (rule framed_trans [OF framed_basic(3) framedI [OF touches_upsertField wf_upsertField]]) simp_all
  show "framed {encodeKey key} d (snd (hIncrBy now key f n d))"
    unfolding hIncrBy_def Let_def by (auto split: sum.splits option.splits intro: up)
  have "framed {k} d (setMeta k TypeHash None d\<lparr>kv_hashes := kv_hashes d @ [((k, f'), v, None)]\<rparr>)"
    if "(k, f') \<notin> fst ` set (kv_hashes d)" for k f'
  proof (rule framed_trans [OF framed_basic(3) framedI])
    show "touches {k} (setMeta k TypeHash None d) (setMeta k TypeHash None d\<lparr>kv_hashes := kv_hashes d @ [((k, f'), v, None)]\<rparr>)"
      by (auto simp: touches_def rows_def rows_of_def)
    show "wf_db (setMeta k TypeHash None d) \<Longrightarrow>
        wf_db (setMeta k TypeHash None d\<lparr>kv_hashes := kv_hashes d @ [((k, f'), v, None)]\<rparr>)"
      using that by (auto simp: wf_db_def)
  qed simp
  then show "framed {encodeKey key} d (snd (hSetNX now key f v d))"
    unfolding hSetNX_def Let_def by auto
qed

lemma framed_incrByFloat [framed_ops]: "framed {encodeKey key} d (snd (incrByFloat parse fmt now key delta d))"
proof -
  have "framed {k} d (upsertStringValue k v' (setMeta k TypeString None d))" for k v'
    by (rule framed_trans [OF framed_basic(3) framedI [OF touches_upsertString wf_upsertString]]) simp_all
  then show ?thesis unfolding incrByFloat_def Let_def by (auto split: option.splits)
qed

lemma framed_hIncrByFloat [framed_ops]: "framed {encodeKey key} d (snd (hIncrByFloat parse fmt now key f delta d))"
proof -
  have "framed {k} d (upsertField k f' v' (setMeta k TypeHash None d))" for k f' v'
    by (rule framed_trans [OF framed_basic(3) framedI [OF touches_upsertField wf_upsertField]]) simp_all
  then show ?thesis unfolding hIncrByFloat_def Let_def by (auto split: option.splits)
qed

lemma quiet_upsertField [simp]: "kv_strings (upsertField k f v d) = kv_strings d"
  by (simp add: upsertField_def)

lemma quiet_fold_upsertField [simp]: "kv_strings (fold (\<lambda>(f, v). upsertField k f v) new d) = kv_strings d"
  by (induction new arbitrary: d) (auto simp: split_beta)

lemma quiet_hIncrByFloat [quiet_ops]: "kv_strings (snd (hIncrByFloat parse fmt now key f delta d)) = kv_strings d"
  by (auto simp: hIncrByFloat_def Let_def split: option.splits)

lemma quiet_hashes [quiet_ops]:
  "kv_strings (snd (hSet now key fs d)) = kv_strings d" "kv_strings (snd (hDel key flds d)) = kv_strings d"
  "kv_strings (snd (hIncrBy now key f n d)) = kv_strings d" "kv_strings (snd (hSetNX now key f v d)) = kv_strings d"
  by (auto simp: hSet_def hDel_def hIncrBy_def hSetNX_def Let_def split: sum.splits option.splits)

section \<open>Sorted sets and HyperLogLog\<close>

lemma framed_zAdd [framed_ops]: "framed {encodeKey key} d (snd (zAdd now key ms opts d))"
proof -
  let ?k = "encodeKey key" and ?d = "setMeta (encodeKey key) TypeZSet None d"
  obtain a c d' where f: "fold (zAdd_step opts ?k) ms (0, 0, ?d) = (a, c, d')" by (metis prod_cases3)
  have "framed {?k} d d'"
    using zAdd_fold [OF f] by (rule_tac framed_trans [OF framed_basic(3)]) (auto simp: framed_def)
  then show ?thesis by (simp add: zAdd_def Let_def f)
qed

lemma quiet_zAdd [quiet_ops]: "kv_strings (snd (zAdd now key ms opts d)) = kv_strings d"
proof -
  obtain a c d' where f: "fold (zAdd_step opts (encodeKey key)) ms (0, 0, setMeta (encodeKey key) TypeZSet None d) = (a, c, d')"
    by (metis prod_cases3)
  show ?thesis using zAdd_fold [OF f] by (simp add: zAdd_def Let_def f)
qed

lemma framed_zRems [framed_ops]:
  "framed {encodeKey key} d (snd (zRem key ms d))"
  "framed {encodeKey key} d (snd (zRemRangeByScore key a b d))"
  "framed {encodeKey key} d (snd (zRemRangeByRank now key i j d))"
proof -
  show "framed {encodeKey key} d (snd (zRem key ms d))" by (auto simp: zRem_def Let_def)
  show "framed {encodeKey key} d (snd (zRemRangeByScore key a b d))"
    unfolding zRemRangeByScore_def Let_def
    by (intro framedI) (auto simp: touches_def rows_def wf_db_def intro!: rows_of_delete_rows)
  show "framed {encodeKey key} d (snd (zRemRangeByRank now key i j d))"
    unfolding zRemRangeByRank_def Let_def
    using framed_trans [OF framed_basic(1) framed_basic(7) [of "encodeKey key" "{encodeKey key}"]] by auto
qed

lemma quiet_zRems [quiet_ops]:
  "kv_strings (snd (zRem key ms d)) = kv_strings d" "kv_strings (snd (zRemRangeByScore key a b d)) = kv_strings d"
  "kv_strings (snd (zRemRangeByRank now key i j d)) = kv_strings d"
  by (simp_all add: zRem_def zRemRangeByScore_def zRemRangeByRank_def Let_def)

lemma framed_zPops [framed_ops]:
  "framed {encodeKey key} d (snd (zPopMin now key n d))" "framed {encodeKey key} d (snd (zPopMax now key n d))"
  "framed (encodeKey ` set keys) d (snd (zMPopMin now keys n d))"
  "framed (encodeKey ` set keys) d (snd (zMPopMax now keys n d))"
  by (auto simp: zPopMin_def zPopMax_def zPop_def zMPopMin_def zMPopMax_def zMPop_def Let_def
      split: sum.splits option.splits dest!: find_encodeKeys)

lemma quiet_zPops [quiet_ops]:
  "kv_strings (snd (zPopMin now key n d)) = kv_strings d" "kv_strings (snd (zPopMax now key n d)) = kv_strings d"
  "kv_strings (snd (zMPopMin now keys n d)) = kv_strings d" "kv_strings (snd (zMPopMax now keys n d)) = kv_strings d"
  by (auto simp: zPopMin_def zPopMax_def zPop_def zMPopMin_def zMPopMax_def zMPop_def Let_def
      split: sum.splits option.splits)

lemma framed_zUpdate: "framed {k} d (d\<lparr>kv_zsets := AList.update (k, m) v (kv_zsets d)\<rparr>)"
  by (intro framedI) (auto simp: touches_def rows_def wf_db_def intro!: rows_of_update)

lemma framed_zIncrBy [framed_ops]: "framed {encodeKey key} d (snd (zIncrBy key n m d))"
proof -
  let ?k = "encodeKey key"
  define d1 where "d1 = insertMetaIfAbsent ?k TypeZSet (lockKey ?k d)"
  have "framed {?k} d d1" unfolding d1_def
    by (rule framed_trans [OF framed_basic(1) framed_insertMetaIfAbsent]) simp
  moreover have "snd (zIncrBy key n m d) = d1\<lparr>kv_zsets := AList.update (?k, m)
      (case map_of (kv_zsets d1) (?k, m) of Some (s, e) \<Rightarrow> (s + n, e) | None \<Rightarrow> (n, None)) (kv_zsets d1)\<rparr>"
    by (auto simp: zIncrBy_def Let_def d1_def insertMetaIfAbsent_def map_of_eq_None_iff [of "kv_meta d" ?k] split: option.splits)
  ultimately show ?thesis using framed_trans [OF _ framed_zUpdate] by metis
qed

lemma quiet_zIncrBy [quiet_ops]: "kv_strings (snd (zIncrBy key n m d)) = kv_strings d"
  by (auto simp: zIncrBy_def Let_def split: option.splits)

lemma framed_zRangeStore [framed_ops]: "framed {encodeKey dst} d (snd (zRangeStore now dst src spec d))"
proof (cases "zStoreQuery now (encodeKey src) spec (deleteKeyFromAllTables (encodeKey dst) d)")
  case (Inl e)
  then show ?thesis by (auto simp: zRangeStore_def Let_def)
next
  case (Inr ms)
  then show ?thesis using zRangeStore_refines [OF _ Inr] by (fastforce simp: framed_def)
qed

lemma framed_zStoreScores: "framed {encodeKey dst} d (snd (zStoreScores now (encodeKey dst) agg ms d))"
proof -
  have "framed {encodeKey dst} d' (snd (zAdd now (encodeKey dst) xs opts d'))" for d' :: "'a db" and xs opts
    using framed_zAdd [of "encodeKey dst" d' now xs opts] by simp
  then show ?thesis by (auto simp: zStoreScores_def Let_def intro: framed_trans [OF framed_basic(4)])
qed

lemma framed_zStores [framed_ops]:
  "framed {encodeKey dst} d (snd (zUnionStore now dst keys ws agg d))"
  "framed {encodeKey dst} d (snd (zInterStore now dst keys ws agg d))"
  by (auto simp: zUnionStore_def zInterStore_def Let_def framed_zStoreScores split: list.splits option.splits)

lemma framed_hll [framed_ops]:
  "framed {encodeKey key} d (snd (pfAdd now key xs d))" "framed {encodeKey key} d (snd (pfMerge now key ks d))"
  by (auto intro!: framedI frame_simps)

lemma quiet_hll [quiet_ops]:
  "kv_strings (snd (pfAdd now key xs d)) = kv_strings d" "kv_strings (snd (pfMerge now key ks d)) = kv_strings d"
  by (auto simp: pfAdd_def pfMerge_def upsertHLL_def Let_def case_prod_beta)

end
