(* ===== verification/Store.thy ===== *)
theory Store
  imports Frames BitmapProps
begin

text \<open>
  The storage backend: \<^verbatim>\<open>Store\<close> of \<^verbatim>\<open>src/internal/storage/storage.go\<close> and
  \<^verbatim>\<open>TxStore\<close> of \<^verbatim>\<open>src/internal/storage/transaction.go\<close>.  The methods of the
  \<^verbatim>\<open>Backend\<close> interface are the constructors of the command types below; \<open>run\<close>
  is the operation each of them delegates to, \<open>inTx\<close> tells which ones \<^verbatim>\<open>Store\<close>
  wraps in a transaction, and \<open>withTx\<close> is the retry loop around it.

  What the surroundings decide is a parameter: the record \<open>env\<close> holds the
  driver's answer to a statement on a busy connection, the random orders and
  draws, the floating-point estimate, PostgreSQL's LIKE, and the parsing and
  formatting of float64 values; \<open>attempt\<close> is the fate of one try of a transaction.
\<close>

section \<open>Commands and replies\<close>

datatype 's StringCmd =
  Get string | Set string string int | SetNX string string int | MGet "string list"
| MSet "(string \<times> string) list" | Incr string int | Append string string
| GetRange string int int | SetRange string int string | BitField string "BitFieldOp list"
| StrLen string | GetEx string int bool | GetDel string | GetSet string string | IncrByFloat string 's

datatype KeyCmd =
  Del "string list" | Exists "string list" | Expire string int ExpireOptions | TTL string | PTTL string
| Persist string | Keys string | RandomKey | Type string | Rename string string | ExpireAt string int ExpireOptions
| Copy string string bool

datatype BitCmd =
  SetBit string int int | GetBit string int | BitCount string int int bool
| BitOp string string "string list" | BitPos string int int int bool

datatype 's HashCmd =
  HGet string string | HSet string "(string \<times> string) list" | HDel string "string list" | HGetAll string
| HMGet string "string list" | HExists string string | HKeys string | HVals string | HLen string
| HIncrBy string string int | HIncrByFloat string string 's | HSetNX string string string | HRandField string int bool

datatype ListCmd =
  LPush string "string list" | RPush string "string list" | LPop string | RPop string
| LPopMulti "string list" | RPopMulti "string list" | LMPop "string list" int | RMPop "string list" int
| LLen string | LRange string int int | LIndex string int | LRem string int string | LTrim string int int
| RPopLPush string string | LPos string string int int int | LSet string int string
| LInsert string string string bool

datatype SetCmd =
  SAdd string "string list" | SRem string "string list" | SMembers string | SIsMember string string
| SCard string | SMIsMember string "string list" | SInter "string list" | SInterStore string "string list"
| SUnion "string list" | SUnionStore string "string list" | SDiff "string list"
| SDiffStore string "string list" | SInterCard "string list" int | SRandMember string int

datatype 's ZSetCmd =
  ZAdd string "'s ZMember list" ZAddOptions | ZRange string int int | ZScore string string
| ZRem string "string list" | ZCard string | ZRangeByScore string 's 's int int | ZRevRange string int int
| ZRevRangeByScore string 's 's int int | ZRangeByLex string LexBound LexBound int int
| ZRevRangeByLex string LexBound LexBound int int | ZLexCount string LexBound LexBound
| ZRangeStore string string "'s ZRangeStoreSpec" | ZRemRangeByScore string 's 's
| ZRemRangeByRank string int int | ZIncrBy string 's string | ZPopMin string int | ZPopMax string int
| ZMPopMin "string list" int | ZMPopMax "string list" int | ZRank string string | ZRevRank string string
| ZCount string 's 's | ZScan string int string int | ZUnionStore string "string list" "'s list" string
| ZInterStore string "string list" "'s list" string | ZRandMember string int

datatype HllCmd = PFAdd string "string list" | PFCount "string list" | PFMerge string "string list"

datatype 's command =
  StringC "'s StringCmd" | KeyC KeyCmd | BitC BitCmd | HashC "'s HashCmd" | ListC ListCmd | SetC SetCmd
| ZSetC "'s ZSetCmd" | HllC HllCmd | DBSize

datatype 's reply =
  RNil | RUnit | RInt int | RBool bool | RStr string | RType KeyType | RStrs "string list"
| ROpts "string option list" | RBools "bool list" | RInts "int list" | RIntOpts "int option list"
| RPairs "(string \<times> string) list" | RScore 's | RMembers "'s ZMember list"
| RKeyStr string string | RKeyStrs string "string list" | RKeyMembers string "'s ZMember list"
| RScan int "'s ZMember list"

record 's env =
  busy :: "string option"
  permKeys :: "string list \<Rightarrow> string list"
  permFields :: "(string \<times> string) list \<Rightarrow> (string \<times> string) list"
  permMembers :: "string list \<Rightarrow> string list"
  permZ :: "'s ZMember list \<Rightarrow> 's ZMember list"
  draws :: "nat \<Rightarrow> nat \<Rightarrow> nat"
  estimate :: "HyperLogLog \<Rightarrow> int"
  sqlLike :: "string \<Rightarrow> string + (string \<Rightarrow> bool)"
  parseFloat :: "string \<Rightarrow> 's option"
  formatFloat :: "'s \<Rightarrow> string"

section \<open>Delegation to queryOps\<close>

text \<open>Shapes of results: a pure read, a total operation, and a fallible one.\<close>

definition answer :: "'b \<Rightarrow> 's db \<Rightarrow> (string + 'b) \<times> 's db" where
  "answer r d = (Inr r, d)"

definition reads :: "('a \<Rightarrow> 'b) \<Rightarrow> string + 'a \<Rightarrow> 's db \<Rightarrow> (string + 'b) \<times> 's db" where
  "reads f r d = (map_sum id f r, d)"

definition writes :: "('a \<Rightarrow> 'b) \<Rightarrow> 'a \<times> 's db \<Rightarrow> (string + 'b) \<times> 's db" where
  "writes f p = (Inr (f (fst p)), snd p)"

definition tries :: "('a \<Rightarrow> 'b) \<Rightarrow> (string + 'a) \<times> 's db \<Rightarrow> (string + 'b) \<times> 's db" where
  "tries f p = (map_sum id f (fst p), snd p)"

definition optStr :: "string option \<Rightarrow> 's reply" where
  "optStr r = (case r of None \<Rightarrow> RNil | Some v \<Rightarrow> RStr v)"

definition optInt :: "int option \<Rightarrow> 's reply" where
  "optInt r = (case r of None \<Rightarrow> RNil | Some n \<Rightarrow> RInt n)"

definition optScore :: "'s option \<Rightarrow> 's reply" where
  "optScore r = (case r of None \<Rightarrow> RNil | Some s \<Rightarrow> RScore s)"

text \<open>The operation of BITFIELD always returns; the other case is never taken.\<close>

definition bitFieldOp :: "time \<Rightarrow> string \<Rightarrow> BitFieldOp list \<Rightarrow> ('s, int option list) op" where
  "bitFieldOp now key ops d = (case bitField now key ops d of Some r \<Rightarrow> r | None \<Rightarrow> (Inl [], d))"

fun runString :: "('s :: {plus, zero}) env \<Rightarrow> time \<Rightarrow> 's StringCmd \<Rightarrow> ('s, 's reply) op" where
  "runString env now (Get key) d = answer (optStr (get now key d)) d"
| "runString env now (Set key v t) d = answer RUnit (set' now key v t d)"
| "runString env now (SetNX key v t) d = writes RBool (setNX now key v t d)"
| "runString env now (MGet keys) d = answer (ROpts (mGet now keys d)) d"
| "runString env now (MSet pairs) d = tries (\<lambda>_. RUnit) (mSet pairs d)"
| "runString env now (Incr key n) d = tries RInt (incr now key n d)"
| "runString env now (Append key v) d = tries RInt (appendStr key v d)"
| "runString env now (GetRange key i j) d = answer (RStr (getRange now key i j d)) d"
| "runString env now (SetRange key off v) d = tries RInt (setRange now key off v d)"
| "runString env now (BitField key ops) d = tries RIntOpts (bitFieldOp now key ops d)"
| "runString env now (StrLen key) d = answer (RInt (strLen now key d)) d"
| "runString env now (GetEx key t p) d = writes optStr (getEx now key t p d)"
| "runString env now (GetDel key) d = writes optStr (getDel now key d)"
| "runString env now (GetSet key v) d = writes optStr (getSet now key v d)"
| "runString env now (IncrByFloat key delta) d =
     tries RScore (incrByFloat (parseFloat env) (formatFloat env) now key delta d)"

fun runKey :: "'s env \<Rightarrow> time \<Rightarrow> KeyCmd \<Rightarrow> ('s, 's reply) op" where
  "runKey env now (Del keys) d = writes RInt (del now keys d)"
| "runKey env now (Exists keys) d = answer (RInt (exists' now keys d)) d"
| "runKey env now (Expire key t opts) d = writes RBool (expire now key t opts d)"
| "runKey env now (TTL key) d = answer (RInt (ttl' now key d)) d"
| "runKey env now (PTTL key) d = answer (RInt (pttl now key d)) d"
| "runKey env now (Persist key) d = writes RBool (persist now key d)"
| "runKey env now (Keys pattern) d = reads RStrs (keys' (sqlLike env) now pattern d) d"
| "runKey env now RandomKey d = answer (optStr (randomKey (permKeys env) now d)) d"
| "runKey env now (Type key) d = answer (RType (keyType now key d)) d"
| "runKey env now (Rename old new) d = tries (\<lambda>_. RUnit) (rename now old new d)"
| "runKey env now (ExpireAt key t opts) d = writes RBool (expireAt now key t opts d)"
| "runKey env now (Copy src dst replace) d = tries RBool (copyKey (busy env) now src dst replace d)"

fun runBit :: "time \<Rightarrow> BitCmd \<Rightarrow> ('s, 's reply) op" where
  "runBit now (SetBit key off v) d = tries RInt (setBit now key off v d)"
| "runBit now (GetBit key off) d = reads RInt (getBit now key off d) d"
| "runBit now (BitCount key i j useBit) d = answer (RInt (bitCount now key i j useBit d)) d"
| "runBit now (BitOp oper dst keys) d = tries RInt (bitOp now oper dst keys d)"
| "runBit now (BitPos key b i j useBit) d = answer (RInt (bitPos now key b i j useBit d)) d"

fun runHash :: "('s :: {plus, zero}) env \<Rightarrow> time \<Rightarrow> 's HashCmd \<Rightarrow> ('s, 's reply) op" where
  "runHash env now (HGet key f) d = answer (optStr (hGet now key f d)) d"
| "runHash env now (HSet key flds) d = tries RInt (hSet now key flds d)"
| "runHash env now (HDel key flds) d = writes RInt (hDel key flds d)"
| "runHash env now (HGetAll key) d = reads RPairs (hGetAll now key d) d"
| "runHash env now (HMGet key flds) d = answer (ROpts (hMGet now key flds d)) d"
| "runHash env now (HExists key f) d = answer (RBool (hExists now key f d)) d"
| "runHash env now (HKeys key) d = answer (RStrs (hKeys now key d)) d"
| "runHash env now (HVals key) d = answer (RStrs (hVals now key d)) d"
| "runHash env now (HLen key) d = answer (RInt (hLen now key d)) d"
| "runHash env now (HIncrBy key f n) d = tries RInt (hIncrBy now key f n d)"
| "runHash env now (HIncrByFloat key f delta) d =
     tries RScore (hIncrByFloat (parseFloat env) (formatFloat env) now key f delta d)"
| "runHash env now (HSetNX key f v) d = tries RBool (hSetNX now key f v d)"
| "runHash env now (HRandField key n vs) d = reads RStrs (hRandField (permFields env) (draws env) now key n vs d) d"

fun runList :: "time \<Rightarrow> ListCmd \<Rightarrow> ('s, 's reply) op" where
  "runList now (LPush key vs) d = tries RInt (lPush now key vs d)"
| "runList now (RPush key vs) d = tries RInt (rPush now key vs d)"
| "runList now (LPop key) d = writes optStr (lPop key d)"
| "runList now (RPop key) d = writes optStr (rPop key d)"
| "runList now (LPopMulti keys) d = writes (\<lambda>r. case r of None \<Rightarrow> RNil | Some (k, v) \<Rightarrow> RKeyStr k v) (lPopMulti now keys d)"
| "runList now (RPopMulti keys) d = writes (\<lambda>r. case r of None \<Rightarrow> RNil | Some (k, v) \<Rightarrow> RKeyStr k v) (rPopMulti now keys d)"
| "runList now (LMPop keys n) d = writes (\<lambda>r. case r of None \<Rightarrow> RNil | Some (k, vs) \<Rightarrow> RKeyStrs k vs) (lMPop now keys n d)"
| "runList now (RMPop keys n) d = writes (\<lambda>r. case r of None \<Rightarrow> RNil | Some (k, vs) \<Rightarrow> RKeyStrs k vs) (rMPop now keys n d)"
| "runList now (LLen key) d = reads RInt (lLen now key d) d"
| "runList now (LRange key i j) d = reads RStrs (lRange now key i j d) d"
| "runList now (LIndex key i) d = answer (optStr (lIndex now key i d)) d"
| "runList now (LRem key n v) d = tries RInt (lRem key n v d)"
| "runList now (LTrim key i j) d = answer RUnit (lTrim key i j d)"
| "runList now (RPopLPush src dst) d = tries optStr (rPopLPush src dst d)"
| "runList now (LPos key v rank n maxlen) d = answer (RInts (lPos key v rank n maxlen d)) d"
| "runList now (LSet key i v) d = tries (\<lambda>_. RUnit) (lSet key i v d)"
| "runList now (LInsert key p v before) d = tries RInt (lInsert key p v before d)"

fun runSet :: "'s env \<Rightarrow> time \<Rightarrow> SetCmd \<Rightarrow> ('s, 's reply) op" where
  "runSet env now (SAdd key ms) d = tries RInt (sAdd now key ms d)"
| "runSet env now (SRem key ms) d = writes RInt (sRem key ms d)"
| "runSet env now (SMembers key) d = reads RStrs (sMembers now key d) d"
| "runSet env now (SIsMember key m) d = answer (RBool (sIsMember now key m d)) d"
| "runSet env now (SCard key) d = reads RInt (sCard now key d) d"
| "runSet env now (SMIsMember key ms) d = answer (RBools (sMIsMember now key ms d)) d"
| "runSet env now (SInter keys) d = reads RStrs (sInter now keys d) d"
| "runSet env now (SInterStore dst keys) d = tries RInt (sInterStore now dst keys d)"
| "runSet env now (SUnion keys) d = reads RStrs (sUnion now keys d) d"
| "runSet env now (SUnionStore dst keys) d = tries RInt (sUnionStore now dst keys d)"
| "runSet env now (SDiff keys) d = reads RStrs (sDiff now keys d) d"
| "runSet env now (SDiffStore dst keys) d = tries RInt (sDiffStore now dst keys d)"
| "runSet env now (SInterCard keys limit) d = reads RInt (sInterCard now keys limit d) d"
| "runSet env now (SRandMember key n) d = reads RStrs (sRandMember (permMembers env) (draws env) now key n d) d"

fun runZSet :: "('s :: {linorder, plus, times, zero, one}) env \<Rightarrow> time \<Rightarrow> 's ZSetCmd \<Rightarrow> ('s, 's reply) op" where
  "runZSet env now (ZAdd key ms opts) d = tries RInt (zAdd now key ms opts d)"
| "runZSet env now (ZRange key i j) d = answer (RMembers (zRange now key i j d)) d"
| "runZSet env now (ZScore key m) d = answer (optScore (zScore now key m d)) d"
| "runZSet env now (ZRem key ms) d = writes RInt (zRem key ms d)"
| "runZSet env now (ZCard key) d = answer (RInt (zCard now key d)) d"
| "runZSet env now (ZRangeByScore key a b off n) d = reads RMembers (zRangeByScore now key a b off n d) d"
| "runZSet env now (ZRevRange key i j) d = answer (RMembers (zRevRange now key i j d)) d"
| "runZSet env now (ZRevRangeByScore key a b off n) d = reads RMembers (zRevRangeByScore now key a b off n d) d"
| "runZSet env now (ZRangeByLex key a b off n) d = reads RStrs (zRangeByLex now key a b off n d) d"
| "runZSet env now (ZRevRangeByLex key a b off n) d = reads RStrs (zRevRangeByLex now key a b off n d) d"
| "runZSet env now (ZLexCount key a b) d = answer (RInt (zLexCount now key a b d)) d"
| "runZSet env now (ZRangeStore dst src spec) d = tries RInt (zRangeStore now dst src spec d)"
| "runZSet env now (ZRemRangeByScore key a b) d = writes RInt (zRemRangeByScore key a b d)"
| "runZSet env now (ZRemRangeByRank key i j) d = writes RInt (zRemRangeByRank now key i j d)"
| "runZSet env now (ZIncrBy key s m) d = writes RScore (zIncrBy key s m d)"
| "runZSet env now (ZPopMin key n) d = tries RMembers (zPopMin now key n d)"
| "runZSet env now (ZPopMax key n) d = tries RMembers (zPopMax now key n d)"
| "runZSet env now (ZMPopMin keys n) d = writes (\<lambda>r. case r of None \<Rightarrow> RNil | Some (k, ms) \<Rightarrow> RKeyMembers k ms) (zMPopMin now keys n d)"
| "runZSet env now (ZMPopMax keys n) d = writes (\<lambda>r. case r of None \<Rightarrow> RNil | Some (k, ms) \<Rightarrow> RKeyMembers k ms) (zMPopMax now keys n d)"
| "runZSet env now (ZRank key m) d = answer (optInt (zRank now key m d)) d"
| "runZSet env now (ZRevRank key m) d = answer (optInt (zRevRank now key m d)) d"
| "runZSet env now (ZCount key a b) d = answer (RInt (zCount now key a b d)) d"
| "runZSet env now (ZScan key cur pat n) d = reads (\<lambda>(c, ms). RScan c ms) (zScan now key cur pat n d) d"
| "runZSet env now (ZUnionStore dst keys ws agg) d = tries RInt (zUnionStore now dst keys ws agg d)"
| "runZSet env now (ZInterStore dst keys ws agg) d = tries RInt (zInterStore now dst keys ws agg d)"
| "runZSet env now (ZRandMember key n) d = reads RMembers (zRandMember (permZ env) (draws env) now key n d) d"

fun runHll :: "'s env \<Rightarrow> time \<Rightarrow> HllCmd \<Rightarrow> ('s, 's reply) op" where
  "runHll env now (PFAdd key xs) d = tries RInt (pfAdd now key xs d)"
| "runHll env now (PFCount keys) d = answer (RInt (pfCount (estimate env) now keys d)) d"
| "runHll env now (PFMerge dst keys) d = tries (\<lambda>_. RUnit) (pfMerge now dst keys d)"

primrec run :: "('s :: {linorder, plus, times, zero, one}) env \<Rightarrow> time \<Rightarrow> 's command \<Rightarrow> ('s, 's reply) op" where
  "run env now (StringC c) = runString env now c"
| "run env now (KeyC c) = runKey env now c"
| "run env now (BitC c) = runBit now c"
| "run env now (HashC c) = runHash env now c"
| "run env now (ListC c) = runList now c"
| "run env now (SetC c) = runSet env now c"
| "run env now (ZSetC c) = runZSet env now c"
| "run env now (HllC c) = runHll env now c"
| "run env now DBSize = (\<lambda>d. answer (RInt (dbSize now d)) d)"


text \<open>The methods that \<^verbatim>\<open>Store\<close> runs inside a transaction; the others use the pool directly.\<close>

fun inTx :: "'s command \<Rightarrow> bool" where
  "inTx (StringC c) =
     (case c of Get _ \<Rightarrow> False | MGet _ \<Rightarrow> False | GetRange _ _ _ \<Rightarrow> False | StrLen _ \<Rightarrow> False | _ \<Rightarrow> True)"
| "inTx (KeyC c) =
     (case c of Exists _ \<Rightarrow> False | TTL _ \<Rightarrow> False | PTTL _ \<Rightarrow> False | Keys _ \<Rightarrow> False | RandomKey \<Rightarrow> False | Type _ \<Rightarrow> False | _ \<Rightarrow> True)"
| "inTx (BitC c) = (case c of SetBit _ _ _ \<Rightarrow> True | BitOp _ _ _ \<Rightarrow> True | _ \<Rightarrow> False)"
| "inTx (HashC c) =
     (case c of HSet _ _ \<Rightarrow> True | HIncrBy _ _ _ \<Rightarrow> True | HIncrByFloat _ _ _ \<Rightarrow> True | HSetNX _ _ _ \<Rightarrow> True | _ \<Rightarrow> False)"
| "inTx (ListC c) =
     (case c of LLen _ \<Rightarrow> False | LRange _ _ _ \<Rightarrow> False | LIndex _ _ \<Rightarrow> False | LRem _ _ _ \<Rightarrow> False
      | LPos _ _ _ _ _ \<Rightarrow> False | _ \<Rightarrow> True)"
| "inTx (SetC c) =
     (case c of SAdd _ _ \<Rightarrow> True | SInterStore _ _ \<Rightarrow> True | SUnionStore _ _ \<Rightarrow> True | SDiffStore _ _ \<Rightarrow> True | _ \<Rightarrow> False)"
| "inTx (ZSetC c) =
     (case c of ZAdd _ _ _ \<Rightarrow> True | ZRangeStore _ _ _ \<Rightarrow> True | ZRemRangeByRank _ _ _ \<Rightarrow> True | ZIncrBy _ _ _ \<Rightarrow> True
      | ZPopMin _ _ \<Rightarrow> True | ZPopMax _ _ \<Rightarrow> True | ZMPopMin _ _ \<Rightarrow> True | ZMPopMax _ _ \<Rightarrow> True
      | ZUnionStore _ _ _ _ \<Rightarrow> True | ZInterStore _ _ _ _ \<Rightarrow> True | _ \<Rightarrow> False)"
| "inTx (HllC c) = (case c of PFCount _ \<Rightarrow> False | _ \<Rightarrow> True)"
| "inTx DBSize = False"

section \<open>Transactions with retry\<close>

datatype pg_error = PgError string string | OtherError string

primrec isRetryableError :: "pg_error \<Rightarrow> bool" where
  "isRetryableError (PgError code msg) = (code = ''40P01'' \<or> code = ''40001'')"
| "isRetryableError (OtherError msg) = False"

definition maxDeadlockRetries :: nat where
  "maxDeadlockRetries = 3"

text \<open>
  One try: \<^verbatim>\<open>Begin\<close> fails, PostgreSQL ends the transaction in the middle of the
  function, \<^verbatim>\<open>Commit\<close> fails without taking effect, or everything goes through.
\<close>

datatype attempt = BeginFails pg_error | StatementFails pg_error | CommitFails pg_error | Completes

text \<open>
  \<^verbatim>\<open>execTx\<close>: the deferred rollback undoes the work of a failed try, the end of a
  transaction releases its advisory locks.
\<close>

primrec execTx :: "attempt \<Rightarrow> ('s, 'a) op \<Rightarrow> 's db \<Rightarrow> (pg_error + 'a) \<times> 's db" where
  "execTx (BeginFails e) fn d = (Inl e, d)"
| "execTx (StatementFails e) fn d = (Inl e, d)"
| "execTx (CommitFails e) fn d =
     (case fn d of (Inl msg, _) \<Rightarrow> (Inl (OtherError msg), d) | (Inr _, _) \<Rightarrow> (Inl e, d))"
| "execTx Completes fn d =
     (case fn d of (Inl msg, _) \<Rightarrow> (Inl (OtherError msg), d) | (Inr r, d') \<Rightarrow> (Inr r, d'\<lparr>held := held d\<rparr>))"

text \<open>
  The loop of \<^verbatim>\<open>withTx\<close>: \<open>sched\<close> gives the fate of each try, \<open>cancelled\<close> whether the
  context ends while the loop backs off after it.  The result is paired with the
  number of the last try; None is the return after the loop.
\<close>

function withTxLoop ::
  "(nat \<Rightarrow> attempt) \<Rightarrow> (nat \<Rightarrow> bool) \<Rightarrow> ('s, 'a) op \<Rightarrow> nat \<Rightarrow> 's db \<Rightarrow> ((pg_error + 'a) \<times> 's db \<times> nat) option" where
  "withTxLoop sched cancelled fn attempt d =
     (if attempt > maxDeadlockRetries then None
      else case execTx (sched attempt) fn d of
             (Inr r, d) \<Rightarrow> Some (Inr r, d, attempt)
           | (Inl err, d) \<Rightarrow>
               if \<not> isRetryableError err \<or> attempt = maxDeadlockRetries then Some (Inl err, d, attempt)
               else if cancelled attempt then Some (Inl (OtherError ''context canceled''), d, attempt)
               else withTxLoop sched cancelled fn (attempt + 1) d)"
  by pat_completeness auto

termination withTxLoop
  by (relation "measure (\<lambda>(_, _, _, attempt, _). Suc maxDeadlockRetries - attempt)") auto

declare withTxLoop.simps [simp del]

definition withTx ::
  "(nat \<Rightarrow> attempt) \<Rightarrow> (nat \<Rightarrow> bool) \<Rightarrow> ('s, 'a) op \<Rightarrow> 's db \<Rightarrow> ((pg_error + 'a) \<times> 's db \<times> nat) option" where
  "withTx sched cancelled fn d = withTxLoop sched cancelled fn 0 d"

text \<open>
  A method of \<^verbatim>\<open>Store\<close>.  Without \<^verbatim>\<open>withTx\<close> the statements run one by one on the pool; the
  methods that do so execute at most one writing statement, whose failure has no effect.
\<close>

definition storeExec ::
  "('s :: {linorder, plus, times, zero, one}) env \<Rightarrow> (nat \<Rightarrow> attempt) \<Rightarrow> (nat \<Rightarrow> bool) \<Rightarrow> time \<Rightarrow> 's command \<Rightarrow> 's db
     \<Rightarrow> (pg_error + 's reply) \<times> 's db" where
  "storeExec env sched cancelled now c d =
     (if inTx c
      then case withTx sched cancelled (run env now c) d of
             Some (r, d', _) \<Rightarrow> (r, d')
           | None \<Rightarrow> (Inr RNil, d)
      else case run env now c d of
             (Inl msg, _) \<Rightarrow> (Inl (OtherError msg), d)
           | (Inr r, d') \<Rightarrow> (Inr r, d'\<lparr>held := held d\<rparr>))"

text \<open>\<^verbatim>\<open>FlushDB\<close> truncates table after table outside a transaction; \<open>failing\<close> is the statement that fails.\<close>

definition truncations :: "('s db \<Rightarrow> 's db) list" where
  "truncations = [kv_strings_update (\<lambda>_. []), kv_hashes_update (\<lambda>_. []), kv_lists_update (\<lambda>_. []),
     kv_sets_update (\<lambda>_. []), kv_zsets_update (\<lambda>_. []), kv_hyperloglog_update (\<lambda>_. []), kv_meta_update (\<lambda>_. [])]"

definition flushDB :: "(nat \<times> pg_error) option \<Rightarrow> 's db \<Rightarrow> (pg_error + unit) \<times> 's db" where
  "flushDB failing d =
     (case failing of
        Some (n, e) \<Rightarrow> if n < length (truncations :: ('s db \<Rightarrow> 's db) list) then (Inl e, fold (\<lambda>f. f) (take n truncations) d)
                       else (Inr (), fold (\<lambda>f. f) truncations d)
      | None \<Rightarrow> (Inr (), fold (\<lambda>f. f) truncations d))"

section \<open>Explicit transactions\<close>

text \<open>
  \<^verbatim>\<open>TxStore\<close>: the database as the transaction sees it.  A statement that fails
  with a PostgreSQL error leaves the transaction aborted, after which every
  statement is refused and a commit rolls back.
\<close>

record 's TxStore =
  txdb :: "'s db"
  txdone :: bool
  aborted :: bool

definition BeginTx :: "'s db \<Rightarrow> 's TxStore" where
  "BeginTx d = \<lparr>txdb = d\<lparr>held := []\<rparr>, txdone = False, aborted = False\<rparr>"

definition isPgError :: "string \<Rightarrow> bool" where
  "isPgError msg = HasPrefix msg ''ERROR: ''"

definition errAborted :: string where
  "errAborted = ''ERROR: current transaction is aborted, commands ignored until end of transaction block (SQLSTATE 25P02)''"

definition txExec ::
  "('s :: {linorder, plus, times, zero, one}) env \<Rightarrow> time \<Rightarrow> 's command \<Rightarrow> 's TxStore \<Rightarrow> (string + 's reply) \<times> 's TxStore" where
  "txExec env now c t =
     (if aborted t then (Inl errAborted, t)
      else case run env now c (txdb t) of
             (Inl msg, d) \<Rightarrow> (Inl msg, t\<lparr>txdb := d, aborted := isPgError msg\<rparr>)
           | (Inr r, d) \<Rightarrow> (Inr r, t\<lparr>txdb := d\<rparr>))"

definition LockKeys :: "string list \<Rightarrow> 's TxStore \<Rightarrow> 's TxStore" where
  "LockKeys keys t = t\<lparr>txdb := lockKeys (map encodeKey keys) (txdb t)\<rparr>"

text \<open>\<^verbatim>\<open>Commit\<close> and \<^verbatim>\<open>Rollback\<close> against the committed database d.\<close>

definition Commit :: "'s TxStore \<Rightarrow> 's db \<Rightarrow> (string + unit) \<times> 's TxStore \<times> 's db" where
  "Commit t d =
     (if txdone t then (Inl ''transaction already completed'', t, d)
      else if aborted t then (Inl ''commit unexpectedly resulted in rollback'', t\<lparr>txdone := True\<rparr>, d)
      else (Inr (), t\<lparr>txdone := True\<rparr>, (txdb t)\<lparr>held := held d\<rparr>))"

definition Rollback :: "'s TxStore \<Rightarrow> 's TxStore" where
  "Rollback t = (if txdone t then t else t\<lparr>txdone := True\<rparr>)"

section \<open>Lemmas\<close>

text \<open>The keys a command may write, as the database names them.\<close>

fun writeKeys :: "'s command \<Rightarrow> string list" where
  "writeKeys (StringC c) =
     (case c of Set key _ _ \<Rightarrow> [key] | SetNX key _ _ \<Rightarrow> [key] | MSet pairs \<Rightarrow> map fst pairs | Incr key _ \<Rightarrow> [key]
      | Append key _ \<Rightarrow> [key] | SetRange key _ _ \<Rightarrow> [key] | BitField key _ \<Rightarrow> [key] | GetEx key _ _ \<Rightarrow> [key]
      | GetDel key \<Rightarrow> [key] | GetSet key _ \<Rightarrow> [key] | IncrByFloat key _ \<Rightarrow> [key] | _ \<Rightarrow> [])"
| "writeKeys (KeyC c) =
     (case c of Del keys \<Rightarrow> keys | Expire key _ _ \<Rightarrow> [key] | Persist key \<Rightarrow> [key] | Rename old new \<Rightarrow> [old, new]
      | ExpireAt key _ _ \<Rightarrow> [key] | Copy _ dst _ \<Rightarrow> [dst] | _ \<Rightarrow> [])"
| "writeKeys (BitC c) = (case c of SetBit key _ _ \<Rightarrow> [key] | BitOp _ dst _ \<Rightarrow> [dst] | _ \<Rightarrow> [])"
| "writeKeys (HashC c) =
     (case c of HSet key _ \<Rightarrow> [key] | HDel key _ \<Rightarrow> [key] | HIncrBy key _ _ \<Rightarrow> [key] | HIncrByFloat key _ _ \<Rightarrow> [key] | HSetNX key _ _ \<Rightarrow> [key] | _ \<Rightarrow> [])"
| "writeKeys (ListC c) =
     (case c of LPush key _ \<Rightarrow> [key] | RPush key _ \<Rightarrow> [key] | LPop key \<Rightarrow> [key] | RPop key \<Rightarrow> [key]
      | LPopMulti keys \<Rightarrow> keys | RPopMulti keys \<Rightarrow> keys | LMPop keys _ \<Rightarrow> keys | RMPop keys _ \<Rightarrow> keys
      | LRem key _ _ \<Rightarrow> [key] | LTrim key _ _ \<Rightarrow> [key] | RPopLPush src dst \<Rightarrow> [src, dst] | LSet key _ _ \<Rightarrow> [key]
      | LInsert key _ _ _ \<Rightarrow> [key] | _ \<Rightarrow> [])"
| "writeKeys (SetC c) =
     (case c of SAdd key _ \<Rightarrow> [key] | SRem key _ \<Rightarrow> [key] | SInterStore dst _ \<Rightarrow> [dst] | SUnionStore dst _ \<Rightarrow> [dst]
      | SDiffStore dst _ \<Rightarrow> [dst] | _ \<Rightarrow> [])"
| "writeKeys (ZSetC c) =
     (case c of ZAdd key _ _ \<Rightarrow> [key] | ZRem key _ \<Rightarrow> [key] | ZRangeStore dst _ _ \<Rightarrow> [dst] | ZRemRangeByScore key _ _ \<Rightarrow> [key]
      | ZRemRangeByRank key _ _ \<Rightarrow> [key] | ZIncrBy key _ _ \<Rightarrow> [key] | ZPopMin key _ \<Rightarrow> [key] | ZPopMax key _ \<Rightarrow> [key]
      | ZMPopMin keys _ \<Rightarrow> keys | ZMPopMax keys _ \<Rightarrow> keys | ZUnionStore dst _ _ _ \<Rightarrow> [dst] | ZInterStore dst _ _ _ \<Rightarrow> [dst] | _ \<Rightarrow> [])"
| "writeKeys (HllC c) = (case c of PFAdd key _ \<Rightarrow> [key] | PFMerge dst _ \<Rightarrow> [dst] | PFCount _ \<Rightarrow> [])"
| "writeKeys DBSize = []"

lemma snd_shapes [simp]:
  "snd (answer r d) = d" "snd (reads f x d) = d" "snd (writes g p) = snd p" "snd (tries h q) = snd q"
  by (simp_all add: answer_def reads_def writes_def tries_def)

lemma framed_bitFieldOp [framed_ops]: "framed {encodeKey key} d (snd (bitFieldOp now key ops d))"
  by (auto simp: bitFieldOp_def split: option.splits intro: framed_bitField)

lemma framed_empty: "framed K d d"
  by simp

lemma framed_run: "framed (encodeKey ` set (writeKeys c)) d (snd (run env now c d))"
proof (cases c)
  case (StringC x)
  then show ?thesis by (cases x) (simp_all add: framed_ops)
next
  case (KeyC x)
  then show ?thesis by (cases x) (simp_all add: framed_ops)
next
  case (BitC x)
  then show ?thesis by (cases x) (simp_all add: framed_ops)
next
  case (HashC x)
  then show ?thesis by (cases x) (simp_all add: framed_ops)
next
  case (ListC x)
  then show ?thesis by (cases x) (simp_all add: framed_ops)
next
  case (SetC x)
  then show ?thesis by (cases x) (simp_all add: framed_ops)
next
  case (ZSetC x)
  then show ?thesis by (cases x) (simp_all add: framed_ops)
next
  case (HllC x)
  then show ?thesis by (cases x) (simp_all add: framed_ops)
qed simp


lemma framed_held: "framed K d d' \<Longrightarrow> framed K d (d'\<lparr>held := h\<rparr>)"
  by (auto simp: framed_def touches_def rows_def wf_db_def)

subsection \<open>The retry loop\<close>

lemma execTx_cases:
  assumes "execTx a fn d = (r, d')"
  shows "(\<exists>e. r = Inl e \<and> d' = d) \<or> (\<exists>x d1. r = Inr x \<and> fn d = (Inr x, d1) \<and> d' = d1\<lparr>held := held d\<rparr>)"
  using assms by (cases a) (auto split: prod.splits sum.splits)

lemma withTxLoop_cases:
  assumes "attempt \<le> maxDeadlockRetries"
  shows "\<exists>r d' n. withTxLoop sched cancelled fn attempt d = Some (r, d', n) \<and> attempt \<le> n \<and> n \<le> maxDeadlockRetries
    \<and> ((\<exists>e. r = Inl e \<and> d' = d) \<or> (\<exists>x d1. r = Inr x \<and> fn d = (Inr x, d1) \<and> d' = d1\<lparr>held := held d\<rparr>))"
  using assms
proof (induction "maxDeadlockRetries - attempt" arbitrary: attempt)
  case 0
  then have last: "attempt = maxDeadlockRetries" by simp
  obtain r d' where ex: "execTx (sched attempt) fn d = (r, d')" by fastforce
  note c = execTx_cases [OF ex]
  have "withTxLoop sched cancelled fn attempt d = Some (r, d', attempt)"
    by (subst withTxLoop.simps) (simp add: ex last [symmetric] split: sum.splits)
  with c last show ?case by blast
next
  case (Suc m)
  obtain r d' where ex: "execTx (sched attempt) fn d = (r, d')" by fastforce
  note c = execTx_cases [OF ex]
  have rec: "attempt < maxDeadlockRetries" "m = maxDeadlockRetries - (attempt + 1)" using Suc(2) by linarith+
  show ?case
  proof (cases "\<exists>e. r = Inl e \<and> isRetryableError e \<and> \<not> cancelled attempt")
    case True
    then have d': "d' = d" using c by auto
    from True d' rec(1) have step: "withTxLoop sched cancelled fn attempt d = withTxLoop sched cancelled fn (attempt + 1) d"
      by (subst withTxLoop.simps) (auto simp: ex)
    from Suc(1) [OF rec(2)] rec(1) obtain r' d1 n where
      "withTxLoop sched cancelled fn (attempt + 1) d = Some (r', d1, n)" "attempt + 1 \<le> n" "n \<le> maxDeadlockRetries"
      "(\<exists>e. r' = Inl e \<and> d1 = d) \<or> (\<exists>x d2. r' = Inr x \<and> fn d = (Inr x, d2) \<and> d1 = d2\<lparr>held := held d\<rparr>)"
      by auto
    then show ?thesis unfolding step by (metis Suc_eq_plus1 Suc_leD)
  next
    case False
    then have "\<exists>r'. withTxLoop sched cancelled fn attempt d = Some (r', d', attempt) \<and> (r' = r \<or> (\<exists>e. r = Inl e) \<and> (\<exists>e. r' = Inl e))"
      using rec(1) by (subst withTxLoop.simps) (auto simp: ex split: sum.splits)
    with c rec(1) show ?thesis by (metis Inl_Inr_False less_imp_le order_refl)
  qed
qed

lemma withTxLoop_retries:
  assumes "\<And>i. attempt \<le> i \<Longrightarrow> i < n \<Longrightarrow> \<not> cancelled i \<and>
      (\<exists>e. isRetryableError e \<and> (sched i = BeginFails e \<or> sched i = StatementFails e \<or> sched i = CommitFails e))"
    and "sched n = Completes" "fn d = (Inr x, d1)" "attempt \<le> n" "n \<le> maxDeadlockRetries"
  shows "withTxLoop sched cancelled fn attempt d = Some (Inr x, d1\<lparr>held := held d\<rparr>, n)"
  using assms
proof (induction "n - attempt" arbitrary: attempt)
  case 0
  then have "attempt = n" by simp
  with 0 show ?case by (subst withTxLoop.simps) simp
next
  case (Suc m)
  then have lt: "attempt < n" by simp
  obtain e where e: "isRetryableError e" "sched attempt = BeginFails e \<or> sched attempt = StatementFails e \<or> sched attempt = CommitFails e"
    "\<not> cancelled attempt"
    using Suc.prems(1) [of attempt] lt by auto
  have "execTx (sched attempt) fn d = (Inl e, d)" using e(2) Suc.prems(3) by auto
  then have "withTxLoop sched cancelled fn attempt d = withTxLoop sched cancelled fn (attempt + 1) d"
    using e lt Suc.prems(5) by (subst withTxLoop.simps) auto
  also have "\<dots> = Some (Inr x, d1\<lparr>held := held d\<rparr>, n)"
    using Suc.prems lt Suc.hyps(2) by (intro Suc.hyps(1)) auto
  finally show ?case .
qed

subsection \<open>Waiting for locks\<close>

text \<open>
  A session is the list of keys it locks and how many of the locks it already
  holds; it waits for a session that holds the next one.
\<close>

definition waits_for :: "(string list \<times> nat) list \<Rightarrow> (nat \<times> nat) set" where
  "waits_for ss = {(i, j). i < length ss \<and> j < length ss \<and>
     (case ss ! i of (keys, pos) \<Rightarrow> pos < length (lockOrder keys) \<and>
       lockOrder keys ! pos \<in> set (take (snd (ss ! j)) (lockOrder (fst (ss ! j)))))}"

lemma waits_for_trancl:
  assumes "(i, j) \<in> (waits_for ss)\<^sup>+" "snd (ss ! j) < length (lockOrder (fst (ss ! j)))"
  shows "snd (ss ! i) < length (lockOrder (fst (ss ! i)))
    \<and> lockOrder (fst (ss ! i)) ! snd (ss ! i) < lockOrder (fst (ss ! j)) ! snd (ss ! j)"
  using assms
proof (induction rule: trancl_induct)
  let ?w = "\<lambda>i. lockOrder (fst (ss ! i)) ! snd (ss ! i)" and ?p = "\<lambda>i. snd (ss ! i) < length (lockOrder (fst (ss ! i)))"
  have step: "?p i \<and> ?w i < ?w j" if w: "(i, j) \<in> waits_for ss" and p: "?p j" for i j
  proof -
    have i: "?p i" and m: "?w i \<in> set (take (snd (ss ! j)) (lockOrder (fst (ss ! j))))"
      using w by (auto simp: waits_for_def split: prod.splits)
    then obtain k where "k < snd (ss ! j)" "?w i = lockOrder (fst (ss ! j)) ! k"
      using p by (auto simp: in_set_conv_nth)
    with p i show ?thesis using sorted_wrt_nth_less [OF lockOrder_sorted, of k "snd (ss ! j)" "fst (ss ! j)"] by simp
  qed
  {
    case (base y)
    then show ?case by (rule step)
  next
    case (step y z)
    then have "?p y \<and> ?w y < ?w z" using \<open>\<And>i j. (i, j) \<in> waits_for ss \<Longrightarrow> ?p j \<Longrightarrow> ?p i \<and> ?w i < ?w j\<close> by blast
    with step.IH show ?case by (meson order_less_trans)
  }
qed

section \<open>Properties\<close>



text \<open>
  C9.  The retry loop of \<^verbatim>\<open>withTx\<close> returns after at most four tries.  A success has run the
  function to completion exactly once on the database it started from, a
  failure has left that database unchanged.
\<close>

theorem withtx_atomic:
  "\<exists>r d' n. withTx sched cancelled fn d = Some (r, d', n) \<and> n \<le> 3
     \<and> ((\<exists>e. r = Inl e \<and> d' = d) \<or> (\<exists>x d1. r = Inr x \<and> fn d = (Inr x, d1) \<and> d' = d1\<lparr>held := held d\<rparr>))"
  using withTxLoop_cases [of 0 sched cancelled fn d] by (simp add: withTx_def maxDeadlockRetries_def)

text \<open>
  C10.  Deadlocks and serialization failures are overcome: when at most three tries in a row fail
  with such an error, at whatever point, and the next one goes through, the
  command succeeds with the result of one run.
\<close>

theorem withtx_recovers:
  assumes "\<And>i. i < n \<Longrightarrow> \<not> cancelled i \<and>
      (\<exists>e. isRetryableError e \<and> (sched i = BeginFails e \<or> sched i = StatementFails e \<or> sched i = CommitFails e))"
    and "sched n = Completes" "fn d = (Inr x, d1)" "n \<le> 3"
  shows "withTx sched cancelled fn d = Some (Inr x, d1\<lparr>held := held d\<rparr>, n)"
  using withTxLoop_retries [of 0 n cancelled sched fn d x d1] assms by (simp add: withTx_def maxDeadlockRetries_def)

theorem withtx_recovers_witness:
  "withTx (\<lambda>i. if i < 3 then StatementFails (PgError ''40P01'' ''deadlock detected'') else Completes) (\<lambda>_. False)
     (\<lambda>d. (Inr (dbSize 0 d), d)) (initSchema :: nat db) = Some (Inr 0, initSchema, 3)"
  using withtx_recovers [of 3 "\<lambda>_. False" "\<lambda>i. if i < 3 then StatementFails (PgError ''40P01'' ''deadlock detected'') else Completes"
      "\<lambda>d. (Inr (dbSize 0 d), d)" "initSchema :: nat db" 0 initSchema]
  by (auto simp: dbSize_def initSchema_def)


end
