(* ===== verification/Cache.thy ===== *)
theory Cache
  imports Glob KeyCodec
begin

text \<open>
  The in-memory cache of \<^verbatim>\<open>src/internal/cache/cache.go\<close>, the key policy of
  \<^verbatim>\<open>src/internal/cache/cached_store.go\<close> and the messages of
  \<^verbatim>\<open>src/internal/cache/invalidator.go\<close>.  Each method holds the mutex from
  start to end, so it is one step on the state.  A notification payload is
  modelled after \<^verbatim>\<open>json.Unmarshal\<close>; None is a payload that does not parse.
\<close>

section \<open>The cache\<close>

record entry =
  eValue :: string
  eExpires :: int

record Cache =
  items :: "(string \<times> entry) list"
  cacheTTL :: int
  maxSize :: int

definition cleanupIntervalOf :: "int \<Rightarrow> int \<Rightarrow> int" where
  "cleanupIntervalOf ttl interval =
     (if interval = 0
      then (let i = ttl div 2 in if i < 10000000 then 10000000 else i)
      else interval)"

definition newCache :: "int \<Rightarrow> int \<Rightarrow> Cache" where
  "newCache ttl size' = \<lparr>items = [], cacheTTL = ttl, maxSize = size'\<rparr>"

definition cacheGet :: "int \<Rightarrow> string \<Rightarrow> Cache \<Rightarrow> string option" where
  "cacheGet now key c =
     (case map_of (items c) key of
        None \<Rightarrow> None
      | Some e \<Rightarrow> if now > eExpires e then None else Some (eValue e))"

definition cacheSet :: "int \<Rightarrow> string \<Rightarrow> string \<Rightarrow> Cache \<Rightarrow> Cache" where
  "cacheSet now key value' c =
     (if maxSize c > 0 \<and> int (length (items c)) \<ge> maxSize c \<and> map_of (items c) key = None then c
      else c\<lparr>items := AList.update key \<lparr>eValue = value', eExpires = now + cacheTTL c\<rparr> (items c)\<rparr>)"

definition cacheDelete :: "string \<Rightarrow> Cache \<Rightarrow> Cache" where
  "cacheDelete key c = c\<lparr>items := AList.delete key (items c)\<rparr>"

definition DeleteMulti :: "string list \<Rightarrow> Cache \<Rightarrow> Cache" where
  "DeleteMulti keys c = fold cacheDelete keys c"

definition Invalidate :: "string \<Rightarrow> Cache \<Rightarrow> Cache" where
  "Invalidate key c = cacheDelete key c"

definition Flush :: "Cache \<Rightarrow> Cache" where
  "Flush c = c\<lparr>items := []\<rparr>"

definition Size :: "Cache \<Rightarrow> int" where
  "Size c = int (length (items c))"

definition cleanup :: "int \<Rightarrow> Cache \<Rightarrow> Cache" where
  "cleanup now c = c\<lparr>items := filter (\<lambda>(k, e). \<not> now > eExpires e) (items c)\<rparr>"

section \<open>Key policy\<close>

fun starIndex :: "string \<Rightarrow> nat option" where
  "starIndex [] = None"
| "starIndex (c # s) = (if c = CHR ''*'' then Some 0 else map_option Suc (starIndex s))"

definition matchGlobSimple :: "string \<Rightarrow> string \<Rightarrow> bool" where
  "matchGlobSimple pattern str =
     (if pattern = str then True
      else if HasSuffix pattern ''*'' then HasPrefix str (butlast pattern)
      else if HasPrefix pattern ''*'' then HasSuffix str (tl pattern)
      else case starIndex pattern of
             Some idx \<Rightarrow> HasPrefix str (take idx pattern) \<and> HasSuffix str (drop (idx + 1) pattern)
           | None \<Rightarrow> False)"

definition matchesAnyPattern :: "string \<Rightarrow> string list \<Rightarrow> bool" where
  "matchesAnyPattern key patterns = list_ex (\<lambda>pattern. matchGlobSimple pattern key) patterns"

definition shouldCache :: "string list \<Rightarrow> string list \<Rightarrow> string \<Rightarrow> bool" where
  "shouldCache includePatterns excludePatterns key =
     (if includePatterns \<noteq> [] \<and> matchesAnyPattern key includePatterns then True
      else if excludePatterns \<noteq> [] \<and> matchesAnyPattern key excludePatterns then False
      else True)"

section \<open>Invalidation messages\<close>

record invalidationPayload =
  Keys :: "string list"
  FlushAll :: bool
  Encoded :: bool

definition InvalidateKeys :: "string list \<Rightarrow> invalidationPayload option" where
  "InvalidateKeys keys =
     (if keys = [] then None
      else Some \<lparr>Keys = map EncodeToString keys, FlushAll = False, Encoded = True\<rparr>)"

definition InvalidateFlush :: invalidationPayload where
  "InvalidateFlush = \<lparr>Keys = [], FlushAll = True, Encoded = False\<rparr>"

definition processNotification :: "invalidationPayload option \<Rightarrow> Cache \<Rightarrow> Cache" where
  "processNotification payload c =
     (case payload of
        None \<Rightarrow> c
      | Some msg \<Rightarrow>
          if FlushAll msg then Flush c
          else fold (\<lambda>key c. cacheDelete
                 (if Encoded msg then (case DecodeString key of Some k \<Rightarrow> k | None \<Rightarrow> key) else key) c)
               (Keys msg) c)"

section \<open>Lemmas\<close>

lemma map_of_cacheSet:
  "map_of (items (cacheSet now k v c)) k' =
     (if maxSize c > 0 \<and> int (length (items c)) \<ge> maxSize c \<and> map_of (items c) k = None then map_of (items c) k'
      else if k' = k then Some \<lparr>eValue = v, eExpires = now + cacheTTL c\<rparr> else map_of (items c) k')"
  by (simp add: cacheSet_def update_conv')

lemma map_of_cacheDelete: "map_of (items (cacheDelete k c)) k' = (if k' = k then None else map_of (items c) k')"
  by (simp add: cacheDelete_def delete_conv')

lemma map_of_DeleteMulti: "map_of (items (DeleteMulti ks c)) k = (if k \<in> set ks then None else map_of (items c) k)"
  unfolding DeleteMulti_def by (induction ks arbitrary: c) (auto simp: map_of_cacheDelete)

lemma cacheDelete_same [simp]:
  "cacheTTL (cacheDelete k c) = cacheTTL c" "maxSize (cacheDelete k c) = maxSize c"
  by (simp_all add: cacheDelete_def)

lemma DeleteMulti_same [simp]: "cacheTTL (DeleteMulti ks c) = cacheTTL c" "maxSize (DeleteMulti ks c) = maxSize c"
  unfolding DeleteMulti_def by (induction ks arbitrary: c) simp_all

lemma map_of_cleanup:
  "distinct (map fst (items c)) \<Longrightarrow> map_of (items (cleanup now c)) k =
     (case map_of (items c) k of None \<Rightarrow> None | Some e \<Rightarrow> if now > eExpires e then None else Some e)"
proof -
  have "distinct (map fst xs) \<Longrightarrow> map_of (filter (\<lambda>(k, e). \<not> now > eExpires e) xs) k =
     (case map_of xs k of None \<Rightarrow> None | Some e \<Rightarrow> if now > eExpires e then None else Some e)"
    for xs :: "(string \<times> entry) list"
  proof (induction xs)
    case (Cons x xs)
    then have "map_of xs (fst x) = None" by (simp add: map_of_eq_None_iff)
    with Cons show ?case by (cases x) (auto split: option.splits)
  qed simp
  then show "distinct (map fst (items c)) \<Longrightarrow> ?thesis" by (simp add: cleanup_def)
qed

text \<open>
  A cache is well-formed when its keys are distinct, its size respects the
  limit, and no entry outlives the configured time.
\<close>

definition cache_ok :: "int \<Rightarrow> Cache \<Rightarrow> bool" where
  "cache_ok now c = (distinct (map fst (items c)) \<and> (maxSize c > 0 \<longrightarrow> Size c \<le> maxSize c)
     \<and> (\<forall>(k, e) \<in> set (items c). eExpires e \<le> now + cacheTTL c))"

lemma cache_ok_newCache: "cache_ok now (newCache ttl n)"
  by (simp add: cache_ok_def newCache_def Size_def)

lemma length_update: "length (AList.update k v al) = (if k \<in> fst ` set al then length al else Suc (length al))"
  by (induction al) auto

lemma set_update_sub: "set (AList.update k v al) \<subseteq> insert (k, v) (set al)"
  by (induction al) auto

lemma cache_ok_cacheSet:
  assumes "cache_ok now c"
  shows "cache_ok now (cacheSet now k v c)"
proof (cases "maxSize c > 0 \<and> int (length (items c)) \<ge> maxSize c \<and> map_of (items c) k = None")
  case True
  then show ?thesis using assms by (simp add: cacheSet_def)
next
  case False
  have "\<forall>(k', e) \<in> set (AList.update k \<lparr>eValue = v, eExpires = now + cacheTTL c\<rparr> (items c)). eExpires e \<le> now + cacheTTL c"
    using assms by (auto simp: cache_ok_def dest!: set_mp [OF set_update_sub])
  with False assms show ?thesis
    by (auto simp: cacheSet_def cache_ok_def Size_def length_update map_of_eq_None_iff distinct_update)
qed

lemma cache_ok_cacheDelete: "cache_ok now c \<Longrightarrow> cache_ok now (cacheDelete k c)"
  by (auto simp: cache_ok_def cacheDelete_def Size_def AList.delete_eq distinct_map_filter
      intro: order_trans [OF of_nat_mono [OF length_filter_le]])

lemma cache_ok_DeleteMulti: "cache_ok now c \<Longrightarrow> cache_ok now (DeleteMulti ks c)"
  unfolding DeleteMulti_def by (induction ks arbitrary: c) (auto intro: cache_ok_cacheDelete)

lemma cache_ok_Flush: "cache_ok now (Flush c)"
  by (auto simp: cache_ok_def Flush_def Size_def)

lemma cache_ok_cleanup: "cache_ok now c \<Longrightarrow> cache_ok now (cleanup now' c)"
  by (auto simp: cache_ok_def cleanup_def Size_def distinct_map_filter intro: order_trans [OF of_nat_mono [OF length_filter_le]])

lemma cache_ok_later: "cache_ok now c \<Longrightarrow> now \<le> now' \<Longrightarrow> cache_ok now' c"
  by (fastforce simp: cache_ok_def)

lemma fold_cacheDelete: "fold (\<lambda>key. cacheDelete (f key)) ks c = DeleteMulti (map f ks) c"
  unfolding DeleteMulti_def by (induction ks arbitrary: c) simp_all

lemma processNotification_deletes: "\<exists>ks. processNotification p c = DeleteMulti ks c \<or> processNotification p c = Flush c"
proof (cases p)
  case (Some msg)
  then show ?thesis unfolding processNotification_def fold_cacheDelete by auto
qed (auto simp: processNotification_def DeleteMulti_def intro: exI [of _ "[]"])

subsection \<open>Patterns with one star\<close>

definition literal :: "string \<Rightarrow> bool" where
  "literal p = (CHR ''*'' \<notin> set p \<and> CHR ''?'' \<notin> set p)"

lemma glob_literal_append: "literal p \<Longrightarrow> glob (p @ r) s \<longleftrightarrow> (\<exists>t. s = p @ t \<and> glob r t)"
proof (induction p arbitrary: s)
  case (Cons c p)
  then show ?case by (cases s) (auto simp: literal_def)
qed simp

lemma glob_star: "glob (CHR ''*'' # q) s \<longleftrightarrow> (\<exists>m t. s = m @ t \<and> glob q t)"
proof (induction s)
  case (Cons c s)
  have "(\<exists>m t. c # s = m @ t \<and> glob q t) \<longleftrightarrow> glob q (c # s) \<or> (\<exists>m t. s = m @ t \<and> glob q t)"
    by (metis append_Cons append_Nil append_eq_Cons_conv)
  with Cons show ?case by simp
qed simp

lemma glob_one_star:
  assumes "literal p" "literal q"
  shows "glob (p @ CHR ''*'' # q) s \<longleftrightarrow> (\<exists>m. s = p @ m @ q)"
proof -
  have "glob q t \<longleftrightarrow> t = q" for t using glob_literal_append [OF assms(2), of "[]" t] by simp
  then show ?thesis by (auto simp: glob_literal_append [OF assms(1)] glob_star)
qed

lemma starIndex_literal: "literal p \<Longrightarrow> starIndex (p @ CHR ''*'' # q) = Some (length p)"
  by (induction p) (auto simp: literal_def)

lemma matchGlobSimple_one_star:
  assumes "literal p" "literal q"
  shows "matchGlobSimple (p @ CHR ''*'' # q) s \<longleftrightarrow> s = p @ CHR ''*'' # q \<or> prefix p s \<and> suffix q s"
proof (cases q rule: rev_cases)
  case Nil
  then show ?thesis by (auto simp: matchGlobSimple_def suffix_def)
next
  case (snoc q' c)
  then have ns: "\<not> suffix ''*'' (p @ CHR ''*'' # q)" using assms(2) by (auto simp: suffix_def literal_def)
  show ?thesis
  proof (cases p)
    case Nil
    then show ?thesis using ns by (auto simp: matchGlobSimple_def)
  next
    case (Cons a p')
    then have "\<not> prefix ''*'' (p @ CHR ''*'' # q)" using assms(1) by (auto simp: literal_def)
    then show ?thesis
      using ns by (auto simp: matchGlobSimple_def starIndex_literal [OF assms(1)])
  qed
qed

section \<open>Properties\<close>

text \<open>
  C39.  The cache stays within its bounds: every method keeps the keys distinct,
  the number of entries at most \<^verbatim>\<open>maxSize\<close> when one is set, and every expiry at
  most the configured time ahead of the clock, so no lookup ever answers an entry older than that.
\<close>

theorem cache_bounded:
  assumes "cache_ok now c"
  shows "cache_ok now (cacheSet now k v c) \<and> cache_ok now (cacheDelete k c) \<and> cache_ok now (DeleteMulti ks c)
    \<and> cache_ok now (Flush c) \<and> cache_ok now (cleanup now c) \<and> cache_ok now (processNotification p c)
    \<and> (now' > now + cacheTTL c \<longrightarrow> cacheGet now' k c = None)"
proof -
  have "cacheGet now' k c = None" if "now' > now + cacheTTL c"
    using assms that by (fastforce simp: cacheGet_def cache_ok_def split: option.splits dest: map_of_SomeD)
  moreover have "cache_ok now (processNotification p c)"
    using processNotification_deletes [of p c] assms by (metis cache_ok_DeleteMulti cache_ok_Flush)
  ultimately show ?thesis
    using assms by (simp add: cache_ok_cacheSet cache_ok_cacheDelete cache_ok_DeleteMulti cache_ok_Flush cache_ok_cleanup)
qed

theorem cache_bounded_witness:
  "let c = cacheSet 0 ''k'' ''v'' (newCache 10 2)
   in cacheGet 5 ''k'' c = Some ''v'' \<and> cacheGet 11 ''k'' c = None \<and> cache_ok 0 (cacheSet 0 ''l'' ''w'' c)"
proof -
  let ?c = "cacheSet 0 ''k'' ''v'' (newCache 10 2)"
  have "cache_ok 0 ?c" "cacheTTL ?c = 10" "cacheGet 5 ''k'' ?c = Some ''v''"
    by (simp_all add: cache_ok_def cacheSet_def newCache_def Size_def cacheGet_def)
  then show ?thesis
    using cache_bounded [of 0 ?c "''l''" "''w''" "[]" None 11] cache_bounded [of 0 ?c "''k''" "''w''" "[]" None 11]
    by (simp add: Let_def)
qed

text \<open>
  A broadcast reaches its peers intact: the payload of \<^verbatim>\<open>InvalidateKeys\<close>, processed by another
  instance, deletes exactly the given keys there, binary keys included, and
  the flush payload empties the cache.
\<close>

theorem invalidation_roundtrip:
  "processNotification (InvalidateKeys keys) c = DeleteMulti keys c
   \<and> items (processNotification (Some InvalidateFlush) c) = []"
proof -
  have "fold (\<lambda>key. cacheDelete (case DecodeString key of Some k \<Rightarrow> k | None \<Rightarrow> key)) (map EncodeToString keys) c =
      fold cacheDelete keys c"
    by (simp add: fold_map comp_def DecodeString_EncodeToString)
  then show ?thesis
    by (auto simp: processNotification_def InvalidateKeys_def InvalidateFlush_def DeleteMulti_def Flush_def)
qed

text \<open>
  The cache policy understands patterns with one star: on keys at least as long as the
  pattern's literal text it decides the glob semantics.  On shorter keys a
  star in the middle can match although the glob does not: \<^verbatim>\<open>a*a\<close> matches \<^verbatim>\<open>a\<close>.
\<close>

theorem cache_policy_glob:
  assumes "literal p" "literal q" "length p + length q \<le> length s"
  shows "(matchGlobSimple (p @ CHR ''*'' # q) s \<longleftrightarrow> glob (p @ CHR ''*'' # q) s)
    \<and> matchGlobSimple ''a*a'' ''a'' \<and> \<not> glob ''a*a'' ''a''"
proof -
  have "prefix p s \<and> suffix q s \<longleftrightarrow> (\<exists>m. s = p @ m @ q)"
  proof
    assume "prefix p s \<and> suffix q s"
    then obtain x where x: "s = p @ x" by (auto elim: prefixE)
    from \<open>prefix p s \<and> suffix q s\<close> obtain y where y: "s = y @ q" by (auto elim: suffixE)
    from x y have "p @ x = y @ q" by simp
    then consider us where "p = y @ us" "us @ x = q" | us where "p @ us = y" "x = us @ q"
      by (auto simp: append_eq_append_conv2)
    then have "\<exists>m. x = m @ q" using assms(3) x by cases auto
    with x show "\<exists>m. s = p @ m @ q" by blast
  qed (auto simp: prefix_def suffix_def)
  moreover have "(s = p @ CHR ''*'' # q) \<longrightarrow> (\<exists>m. s = p @ m @ q)" by (metis append_Cons append_Nil)
  ultimately have "matchGlobSimple (p @ CHR ''*'' # q) s \<longleftrightarrow> glob (p @ CHR ''*'' # q) s"
    by (auto simp: matchGlobSimple_one_star [OF assms(1,2)] glob_one_star [OF assms(1,2)])
  moreover have "matchGlobSimple ''a*a'' ''a''" "\<not> glob ''a*a'' ''a''"
    by (simp_all add: matchGlobSimple_def suffix_def)
  ultimately show ?thesis by blast
qed

theorem cache_policy_glob_witness: "matchGlobSimple ''user:*'' ''user:1'' \<longleftrightarrow> glob ''user:*'' ''user:1''"
  using cache_policy_glob [of "''user:''" "''''" "''user:1''"] by (simp add: literal_def)

end
