(* ===== verification/CachedStore.thy ===== *)
theory CachedStore
  imports Store Cache
begin

text \<open>
  \<^verbatim>\<open>CachedStore\<close> of \<^verbatim>\<open>src/internal/cache/cached_store.go\<close> and \<^verbatim>\<open>CachingTx\<close> of
  \<^verbatim>\<open>src/internal/cache/caching_tx.go\<close> over the storage commands of \<open>Store\<close>.
  \<open>invalidated\<close> lists the cached keys each method drops after a success,
  \<open>marked\<close> the keys a method of an explicit transaction records for the commit.  One
  call of a method is one step, except where the interleaving of two calls is
  the point: \<open>getLookup\<close> and \<open>getFill\<close> are the two halves of a read that misses.
\<close>

section \<open>The wrapper\<close>

record CachedStore =
  cache :: Cache
  includePatterns :: "string list"
  excludePatterns :: "string list"
  hasInvalidator :: bool
  outbox :: "invalidationPayload list"

definition NewCachedStore :: "Cache \<Rightarrow> string list \<Rightarrow> string list \<Rightarrow> bool \<Rightarrow> CachedStore" where
  "NewCachedStore c incl excl broadcast =
     \<lparr>cache = c, includePatterns = incl, excludePatterns = excl, hasInvalidator = broadcast, outbox = []\<rparr>"

definition invalidateMulti :: "string list \<Rightarrow> CachedStore \<Rightarrow> CachedStore" where
  "invalidateMulti keys s =
     (let s = s\<lparr>cache := DeleteMulti keys (cache s)\<rparr>
      in if hasInvalidator s
         then s\<lparr>outbox := outbox s @ (case InvalidateKeys keys of Some p \<Rightarrow> [p] | None \<Rightarrow> [])\<rparr> else s)"

definition flushCache :: "CachedStore \<Rightarrow> CachedStore" where
  "flushCache s =
     (let s = s\<lparr>cache := Flush (cache s)\<rparr>
      in if hasInvalidator s then s\<lparr>outbox := outbox s @ [InvalidateFlush]\<rparr> else s)"

definition bitFieldHasWrites :: "BitFieldOp list \<Rightarrow> bool" where
  "bitFieldHasWrites ops = list_ex (\<lambda>oper. OpType oper \<noteq> ''GET'' \<and> OpType oper \<noteq> ''OVERFLOW'') ops"

definition when' :: "bool \<Rightarrow> string list \<Rightarrow> string list" where
  "when' b keys = (if b then keys else [])"

text \<open>
  What a method invalidates once its backend call has succeeded.  DEL sees its
  argument after \<^verbatim>\<open>queryOps.del\<close> has encoded and sorted that very slice in place.
\<close>

fun invalidatedString :: "'s StringCmd \<Rightarrow> 's reply \<Rightarrow> string list" where
  "invalidatedString (Set key _ _) r = [key]"
| "invalidatedString (SetNX key _ _) r = when' (r = RBool True) [key]"
| "invalidatedString (MSet pairs) r = remdups (map fst pairs)"
| "invalidatedString (Incr key _) r = [key]"
| "invalidatedString (Append key _) r = [key]"
| "invalidatedString (SetRange key _ _) r = [key]"
| "invalidatedString (BitField key ops) r = when' (bitFieldHasWrites ops) [key]"
| "invalidatedString (GetEx key _ _) r = [key]"
| "invalidatedString (GetDel key) r = [key]"
| "invalidatedString (GetSet key _) r = [key]"
| "invalidatedString (IncrByFloat key _) r = [key]"
| "invalidatedString _ r = []"

fun invalidatedKey :: "KeyCmd \<Rightarrow> 's reply \<Rightarrow> string list" where
  "invalidatedKey (Del keys) r = del_keys keys"
| "invalidatedKey (Expire key _ _) r = when' (r = RBool True) [key]"
| "invalidatedKey (Persist key) r = [key]"
| "invalidatedKey (Rename old new) r = [old, new]"
| "invalidatedKey (ExpireAt key _ _) r = when' (r = RBool True) [key]"
| "invalidatedKey (Copy _ dst _) r = when' (r = RBool True) [dst]"
| "invalidatedKey _ r = []"

fun invalidatedBit :: "BitCmd \<Rightarrow> string list" where
  "invalidatedBit (SetBit key _ _) = [key]"
| "invalidatedBit (BitOp _ dst _) = [dst]"
| "invalidatedBit _ = []"

fun invalidatedHash :: "'s HashCmd \<Rightarrow> 's reply \<Rightarrow> string list" where
  "invalidatedHash (HIncrBy key _ _) r = [key]"
| "invalidatedHash (HIncrByFloat key _ _) r = [key]"
| "invalidatedHash (HSetNX key _ _) r = when' (r = RBool True) [key]"
| "invalidatedHash _ r = []"

fun invalidatedList :: "ListCmd \<Rightarrow> string list" where
  "invalidatedList (LRem key _ _) = [key]"
| "invalidatedList (LTrim key _ _) = [key]"
| "invalidatedList (RPopLPush src dst) = [src, dst]"
| "invalidatedList (LSet key _ _) = [key]"
| "invalidatedList (LInsert key _ _ _) = [key]"
| "invalidatedList _ = []"

fun invalidatedSet :: "SetCmd \<Rightarrow> string list" where
  "invalidatedSet (SInterStore dst _) = [dst]"
| "invalidatedSet (SUnionStore dst _) = [dst]"
| "invalidatedSet (SDiffStore dst _) = [dst]"
| "invalidatedSet _ = []"

fun invalidatedZSet :: "'s ZSetCmd \<Rightarrow> 's reply \<Rightarrow> string list" where
  "invalidatedZSet (ZRangeStore dst _ _) r = [dst]"
| "invalidatedZSet (ZRemRangeByScore key _ _) r = [key]"
| "invalidatedZSet (ZRemRangeByRank key _ _) r = [key]"
| "invalidatedZSet (ZIncrBy key _ _) r = [key]"
| "invalidatedZSet (ZPopMin key _) r = [key]"
| "invalidatedZSet (ZPopMax key _) r = when' (r \<noteq> RMembers []) [key]"
| "invalidatedZSet (ZUnionStore dst _ _ _) r = [dst]"
| "invalidatedZSet (ZInterStore dst _ _ _) r = [dst]"
| "invalidatedZSet _ r = []"

fun invalidatedHll :: "HllCmd \<Rightarrow> string list" where
  "invalidatedHll (PFAdd key _) = [key]"
| "invalidatedHll (PFMerge dst _) = [dst]"
| "invalidatedHll (PFCount _) = []"

primrec invalidated :: "'s command \<Rightarrow> 's reply \<Rightarrow> string list" where
  "invalidated (StringC c) r = invalidatedString c r"
| "invalidated (KeyC c) r = invalidatedKey c r"
| "invalidated (BitC c) r = invalidatedBit c"
| "invalidated (HashC c) r = invalidatedHash c r"
| "invalidated (ListC c) r = invalidatedList c"
| "invalidated (SetC c) r = invalidatedSet c"
| "invalidated (ZSetC c) r = invalidatedZSet c r"
| "invalidated (HllC c) r = invalidatedHll c"
| "invalidated DBSize r = []"

text \<open>\<^verbatim>\<open>CachedStore.Get\<close>: the lookup, the fetch from the backend, and the fill.\<close>

definition mayCache :: "CachedStore \<Rightarrow> string \<Rightarrow> bool" where
  "mayCache s key = shouldCache (includePatterns s) (excludePatterns s) key"

definition getLookup :: "time \<Rightarrow> string \<Rightarrow> CachedStore \<Rightarrow> string option" where
  "getLookup now key s = (if mayCache s key then cacheGet now key (cache s) else None)"

definition getFill :: "time \<Rightarrow> string \<Rightarrow> string option \<Rightarrow> CachedStore \<Rightarrow> CachedStore" where
  "getFill now key result s =
     (case result of
        Some v \<Rightarrow> if mayCache s key then s\<lparr>cache := cacheSet now key v (cache s)\<rparr> else s
      | None \<Rightarrow> s)"

definition cachedGet :: "time \<Rightarrow> string \<Rightarrow> CachedStore \<times> 's db \<Rightarrow> string option \<times> CachedStore \<times> 's db" where
  "cachedGet now key = (\<lambda>(s, d).
     case getLookup now key s of
       Some v \<Rightarrow> (Some v, s, d)
     | None \<Rightarrow> let result = get now key d in (result, getFill now key result s, d))"

definition cachedExec ::
  "('s :: {linorder, plus, times, zero, one}) env \<Rightarrow> (nat \<Rightarrow> attempt) \<Rightarrow> (nat \<Rightarrow> bool) \<Rightarrow> time \<Rightarrow> 's command
     \<Rightarrow> CachedStore \<times> 's db \<Rightarrow> (pg_error + 's reply) \<times> CachedStore \<times> 's db" where
  "cachedExec env sched cancelled now c = (\<lambda>(s, d).
     case c of
       StringC (Get key) \<Rightarrow> (let (r, s, d) = cachedGet now key (s, d) in (Inr (optStr r), s, d))
     | _ \<Rightarrow>
         (case storeExec env sched cancelled now c d of
            (Inl e, d) \<Rightarrow> (Inl e, s, d)
          | (Inr r, d) \<Rightarrow>
              (Inr r, (case invalidated c r of [] \<Rightarrow> s | keys \<Rightarrow> invalidateMulti keys s), d)))"

definition cachedFlushDB ::
  "(nat \<times> pg_error) option \<Rightarrow> CachedStore \<times> 's db \<Rightarrow> (pg_error + unit) \<times> CachedStore \<times> 's db" where
  "cachedFlushDB failing = (\<lambda>(s, d).
     case flushDB failing d of
       (Inl e, d) \<Rightarrow> (Inl e, s, d)
     | (Inr _, d) \<Rightarrow> (Inr (), flushCache s, d))"

section \<open>Transactions over the cache\<close>

record 's CachingTx =
  innerTx :: "'s TxStore"
  dirty :: "string list"

definition newCachingTx :: "'s TxStore \<Rightarrow> 's CachingTx" where
  "newCachingTx t = \<lparr>innerTx = t, dirty = []\<rparr>"

text \<open>The keys the overridden methods mark; \<^verbatim>\<open>ZRangeStore\<close> is not overridden.\<close>

fun markedZSet :: "'s ZSetCmd \<Rightarrow> 's reply \<Rightarrow> string list" where
  "markedZSet (ZRemRangeByScore key _ _) r = [key]"
| "markedZSet (ZRemRangeByRank key _ _) r = [key]"
| "markedZSet (ZIncrBy key _ _) r = [key]"
| "markedZSet (ZPopMin key _) r = when' (r \<noteq> RMembers []) [key]"
| "markedZSet (ZPopMax key _) r = when' (r \<noteq> RMembers []) [key]"
| "markedZSet (ZUnionStore dst _ _ _) r = [dst]"
| "markedZSet (ZInterStore dst _ _ _) r = [dst]"
| "markedZSet _ r = []"

primrec marked :: "'s command \<Rightarrow> 's reply \<Rightarrow> string list" where
  "marked (StringC c) r = invalidatedString c r"
| "marked (KeyC c) r = invalidatedKey c r"
| "marked (BitC c) r = invalidatedBit c"
| "marked (HashC c) r = invalidatedHash c r"
| "marked (ListC c) r = invalidatedList c"
| "marked (SetC c) r = invalidatedSet c"
| "marked (ZSetC c) r = markedZSet c r"
| "marked (HllC c) r = invalidatedHll c"
| "marked DBSize r = []"

definition mark :: "string list \<Rightarrow> 's CachingTx \<Rightarrow> 's CachingTx" where
  "mark keys t = t\<lparr>dirty := remdups (dirty t @ keys)\<rparr>"

definition cachingTxExec ::
  "('s :: {linorder, plus, times, zero, one}) env \<Rightarrow> time \<Rightarrow> 's command \<Rightarrow> 's CachingTx \<Rightarrow> (string + 's reply) \<times> 's CachingTx" where
  "cachingTxExec env now c t =
     (case txExec env now c (innerTx t) of
        (Inl e, i) \<Rightarrow> (Inl e, t\<lparr>innerTx := i\<rparr>)
      | (Inr r, i) \<Rightarrow> (Inr r, mark (marked c r) (t\<lparr>innerTx := i\<rparr>)))"

definition cachingCommit :: "'s CachingTx \<Rightarrow> CachedStore \<times> 's db \<Rightarrow> (string + unit) \<times> 's CachingTx \<times> CachedStore \<times> 's db" where
  "cachingCommit t = (\<lambda>(s, d).
     case Commit (innerTx t) d of
       (Inl e, i, d) \<Rightarrow> (Inl e, t\<lparr>innerTx := i\<rparr>, s, d)
     | (Inr _, i, d) \<Rightarrow>
         (Inr (), t\<lparr>innerTx := i\<rparr>, (if dirty t \<noteq> [] then invalidateMulti (dirty t) s else s), d))"

definition cachingRollback :: "'s CachingTx \<Rightarrow> 's CachingTx" where
  "cachingRollback t = t\<lparr>dirty := [], innerTx := Rollback (innerTx t)\<rparr>"

text \<open>A whole transaction: begin, the commands in order, commit.\<close>

fun txCommands ::
  "('s :: {linorder, plus, times, zero, one}) env \<Rightarrow> time \<Rightarrow> 's command list \<Rightarrow> 's CachingTx \<Rightarrow> (string + 's reply) list \<times> 's CachingTx" where
  "txCommands env now [] t = ([], t)"
| "txCommands env now (c # cs) t =
     (let (r, t) = cachingTxExec env now c t; (rs, t) = txCommands env now cs t in (r # rs, t))"

definition cachedTx ::
  "('s :: {linorder, plus, times, zero, one}) env \<Rightarrow> time \<Rightarrow> 's command list \<Rightarrow> CachedStore \<times> 's db \<Rightarrow> CachedStore \<times> 's db" where
  "cachedTx env now cs = (\<lambda>(s, d).
     let (rs, t) = txCommands env now cs (newCachingTx (BeginTx d));
         (r, t, s, d) = cachingCommit t (s, d)
     in (s, d))"


section \<open>Coherence\<close>

text \<open>A key that is stored under its own name and cannot be the encoding of another one.\<close>

definition plain :: "string \<Rightarrow> bool" where
  "plain k = (pg_text k \<and> \<not> HasPrefix k binaryPrefix)"

lemma plain_encodeKey: "plain k \<Longrightarrow> encodeKey k = k"
  by (simp add: plain_def encodeKey_text)

lemma plain_only: "plain k \<Longrightarrow> encodeKey k' = k \<Longrightarrow> k' = k"
  by (cases "pg_text k'") (auto simp: plain_def encodeKey_text encodeKey_binary)

lemma plain_not_in: "plain k \<Longrightarrow> k \<notin> set ks \<Longrightarrow> k \<notin> encodeKey ` set ks"
  by (metis imageE plain_only)

subsection \<open>Commands change the string of a key only if they invalidate it\<close>

lemma setNX_False: "\<not> fst (setNX now key v t d) \<Longrightarrow> kv_strings (snd (setNX now key v t d)) = kv_strings d"
  by (auto simp: setNX_def Let_def)

lemma expireAt_False: "\<not> fst (expireAt now key t opts d) \<Longrightarrow> kv_strings (snd (expireAt now key t opts d)) = kv_strings d"
  by (auto simp: expireAt_def Let_def split: option.splits)

lemma copyKey_False:
  "fst (copyKey b now src dst rep d) = Inr False \<Longrightarrow> kv_strings (snd (copyKey b now src dst rep d)) = kv_strings d"
  by (auto simp: copyKey_def Let_def split: prod.splits sum.splits if_splits)

lemma bitFieldStep_read:
  assumes "OpType oper = ''GET'' \<or> OpType oper = ''OVERFLOW''" "bitFieldStep oper (data, rs, m) = Some (Inr (data', rs', m'))"
  shows "m' = m"
  using assms by (auto simp: bitFieldStep_def Let_def split: option.splits prod.splits if_splits)

lemma bitFieldLoop_read:
  "\<not> bitFieldHasWrites ops \<Longrightarrow> bitFieldLoop ops (data, rs, m) = Some (Inr (data', rs', m')) \<Longrightarrow> m' = m"
proof (induction ops arbitrary: data rs m)
  case (Cons oper ops)
  from Cons.prems(2) obtain st where st: "bitFieldStep oper (data, rs, m) = Some (Inr st)"
    "bitFieldLoop ops st = Some (Inr (data', rs', m'))"
    by (auto split: option.splits sum.splits)
  obtain data1 rs1 m1 where "st = (data1, rs1, m1)" by (metis prod_cases3)
  with st Cons show ?case using bitFieldStep_read [of oper data rs m data1 rs1 m1] by (auto simp: bitFieldHasWrites_def)
qed simp

lemma bitFieldOp_read:
  assumes "\<not> bitFieldHasWrites ops"
  shows "kv_strings (snd (bitFieldOp now key ops d)) = kv_strings d"
proof (cases "bitField now key ops d")
  case (Some r)
  then show ?thesis
    by (auto simp: bitFieldOp_def bitField_def Let_def split: option.splits sum.splits prod.splits if_splits
        dest!: bitFieldLoop_read [OF assms])
qed (simp add: bitFieldOp_def)

lemma fst_shapes [simp]:
  "fst (answer r d) = Inr r" "fst (reads f x d) = map_sum id f x" "fst (writes g p) = Inr (g (fst p))"
  "fst (tries h q) = map_sum id h (fst q)"
  by (simp_all add: answer_def reads_def writes_def tries_def)

lemma string_effect:
  assumes "fst (run env now c d) = Inr r"
  shows "kv_strings (snd (run env now c d)) = kv_strings d
    \<or> encodeKey ` set (writeKeys c) \<subseteq> encodeKey ` set (invalidated c r)"
proof (cases c)
  case (StringC x)
  then show ?thesis using assms by (cases x) (auto simp: when'_def intro!: setNX_False bitFieldOp_read)
next
  case (KeyC x)
  then show ?thesis
    using assms
    by (cases x) (auto simp: when'_def expire_expireAt map_sum_Inr del_keys_def encodeKeys_def image_image
        intro!: expireAt_False copyKey_False)
next
  case (BitC x)
  then show ?thesis by (cases x) auto
next
  case (HashC x)
  then show ?thesis by (cases x) (simp_all add: quiet_ops)
next
  case (ListC x)
  then show ?thesis by (cases x) (simp_all add: quiet_ops)
next
  case (SetC x)
  then show ?thesis by (cases x) (simp_all add: quiet_ops)
next
  case (ZSetC x)
  then show ?thesis by (cases x) (simp_all add: quiet_ops)
next
  case (HllC x)
  then show ?thesis by (cases x) (simp_all add: quiet_ops)
qed simp

lemma string_kept:
  assumes "wf_db d" "plain k" "run env now c d = (Inr r, d')" "k \<notin> set (invalidated c r)"
  shows "map_of (kv_strings d') k = map_of (kv_strings d) k"
proof -
  have "kv_strings d' = kv_strings d \<or> encodeKey ` set (writeKeys c) \<subseteq> encodeKey ` set (invalidated c r)"
    using string_effect [of env now c d r] assms(3) by simp
  moreover have "k \<notin> encodeKey ` set (invalidated c r)" using plain_not_in [OF assms(2,4)] .
  moreover have "touches (encodeKey ` set (writeKeys c)) d d'"
    using framed_run [of c d env now] assms(1,3) by (simp add: framed_def)
  ultimately show ?thesis by (auto simp: touches_def rows_def)
qed


subsection \<open>The system\<close>

text \<open>
  One instance with its cache, the database, the clock, and the keys whose
  string row a sweep has removed (a history variable).  Commands, transactions and background work
  interleave as whole steps.  A transaction step is restricted to commands
  that mark what they write: no \<^verbatim>\<open>ZRangeStore\<close>, and no command that fails in Go
  code after it has changed a string.
\<close>

record 's sys =
  store :: CachedStore
  database :: "'s db"
  clock :: time
  swept :: "string set"

definition marks_writes ::
  "('s :: {linorder, plus, times, zero, one}) env \<Rightarrow> time \<Rightarrow> 's command \<Rightarrow> 's TxStore \<Rightarrow> bool" where
  "marks_writes env now c t =
     ((\<forall>dst src spec. c \<noteq> ZSetC (ZRangeStore dst src spec))
      \<and> (case run env now c (txdb t) of
           (Inl msg, d) \<Rightarrow> isPgError msg \<or> kv_strings d = kv_strings (txdb t)
         | (Inr _, _) \<Rightarrow> True))"

fun all_marked ::
  "('s :: {linorder, plus, times, zero, one}) env \<Rightarrow> time \<Rightarrow> 's command list \<Rightarrow> 's CachingTx \<Rightarrow> bool" where
  "all_marked env now [] t = True"
| "all_marked env now (c # cs) t =
     (marks_writes env now c (innerTx t) \<and> all_marked env now cs (snd (cachingTxExec env now c t)))"

inductive sys_step :: "('s :: {linorder, plus, times, zero, one}) env \<Rightarrow> 's sys \<Rightarrow> 's sys \<Rightarrow> bool" for env where
  sys_command:
    "cachedExec env sched cancelled (clock w) c (store w, database w) = (r, s, d) \<Longrightarrow>
     sys_step env w (w\<lparr>store := s, database := d\<rparr>)"
| sys_flush:
    "cachedFlushDB None (store w, database w) = (r, s, d) \<Longrightarrow> sys_step env w (w\<lparr>store := s, database := d\<rparr>)"
| sys_transaction:
    "all_marked env (clock w) cs (newCachingTx (BeginTx (database w))) \<Longrightarrow>
     cachedTx env (clock w) cs (store w, database w) = (s, d) \<Longrightarrow>
     sys_step env w (w\<lparr>store := s, database := d\<rparr>)"
| sys_cleanup:
    "sys_step env w (w\<lparr>store := (store w)\<lparr>cache := cleanup (clock w) (cache (store w))\<rparr>\<rparr>)"
| sys_notification:
    "sys_step env w (w\<lparr>store := (store w)\<lparr>cache := processNotification p (cache (store w))\<rparr>\<rparr>)"
| sys_sweep:
    "d = deleteExpiredKeys acquired locked (clock w) (database w) \<Longrightarrow>
     sys_step env w (w\<lparr>database := d, swept := swept w \<union>
       {k. map_of (kv_strings (database w)) k \<noteq> None \<and> map_of (kv_strings d) k = None}\<rparr>)"
| sys_tick: "clock w \<le> now \<Longrightarrow> sys_step env w (w\<lparr>clock := now\<rparr>)"

inductive sys_reaches :: "('s :: {linorder, plus, times, zero, one}) env \<Rightarrow> 's sys \<Rightarrow> 's sys \<Rightarrow> bool" for env where
  sys_start: "sys_reaches env w w"
| sys_next: "sys_reaches env w w' \<Longrightarrow> sys_step env w' w'' \<Longrightarrow> sys_reaches env w w''"

inductive_cases sys_stepE: "sys_step env w w'"

text \<open>Every cached value is the one the string table holds, unless a sweep has removed the row.\<close>

definition coherent :: "string set \<Rightarrow> Cache \<Rightarrow> 's db \<Rightarrow> bool" where
  "coherent K c d = (\<forall>k e. plain k \<longrightarrow> map_of (items c) k = Some e \<longrightarrow>
     (case map_of (kv_strings d) k of Some (v, _) \<Rightarrow> v = eValue e | None \<Rightarrow> k \<in> K))"

definition sys_inv :: "'s sys \<Rightarrow> bool" where
  "sys_inv w = (wf_db (database w) \<and> cache_ok (clock w) (cache (store w)) \<and> coherent (swept w) (cache (store w)) (database w))"

subsection \<open>Preservation\<close>

lemma coherent_delete:
  assumes "coherent K c d" "\<And>k. plain k \<Longrightarrow> k \<notin> set ks \<Longrightarrow> map_of (kv_strings d') k = map_of (kv_strings d) k"
  shows "coherent K (DeleteMulti ks c) d'"
  using assms by (auto simp: coherent_def map_of_DeleteMulti)

lemma coherent_subset:
  assumes "coherent K c d" "\<And>k e. map_of (items c') k = Some e \<Longrightarrow> map_of (items c) k = Some e"
  shows "coherent K c' d"
  using assms by (fastforce simp: coherent_def)

lemma coherent_Flush: "coherent K (Flush c) d"
  by (simp add: coherent_def Flush_def)

lemma cache_invalidateMulti [simp]: "cache (invalidateMulti ks s) = DeleteMulti ks (cache s)"
  by (simp add: invalidateMulti_def Let_def)

lemma cache_flushCache [simp]: "cache (flushCache s) = Flush (cache s)"
  by (simp add: flushCache_def Let_def)

lemma storeExec_Inr:
  assumes "storeExec env sched cancelled now c d = (Inr r, d')"
  shows "\<exists>d1. run env now c d = (Inr r, d1) \<and> d' = d1\<lparr>held := held d\<rparr>"
proof (cases "inTx c")
  case True
  obtain r1 d1 n where "withTx sched cancelled (run env now c) d = Some (r1, d1, n)"
    "(\<exists>e. r1 = Inl e \<and> d1 = d) \<or> (\<exists>x d2. r1 = Inr x \<and> run env now c d = (Inr x, d2) \<and> d1 = d2\<lparr>held := held d\<rparr>)"
    using withTxLoop_cases [of 0 sched cancelled "run env now c" d] by (auto simp: withTx_def)
  with True assms show ?thesis by (auto simp: storeExec_def)
next
  case False
  then show ?thesis using assms by (auto simp: storeExec_def split: prod.splits sum.splits)
qed

lemma storeExec_Inl: "storeExec env sched cancelled now c d = (Inl e, d') \<Longrightarrow> d' = d"
proof -
  assume e: "storeExec env sched cancelled now c d = (Inl e, d')"
  show "d' = d"
  proof (cases "inTx c")
    case True
    obtain r1 d1 n where "withTx sched cancelled (run env now c) d = Some (r1, d1, n)"
      "(\<exists>e. r1 = Inl e \<and> d1 = d) \<or> (\<exists>x d2. r1 = Inr x \<and> run env now c d = (Inr x, d2) \<and> d1 = d2\<lparr>held := held d\<rparr>)"
      using withTxLoop_cases [of 0 sched cancelled "run env now c" d] by (auto simp: withTx_def)
    with True e show ?thesis by (auto simp: storeExec_def)
  next
    case False
    then show ?thesis using e by (auto simp: storeExec_def split: prod.splits sum.splits)
  qed
qed

lemma storeExec_wf:
  assumes "wf_db d" "storeExec env sched cancelled now c d = (r, d')"
  shows "wf_db d'"
proof (cases r)
  case (Inl x)
  then show ?thesis using assms storeExec_Inl by blast
next
  case (Inr x)
  obtain d1 where d1: "run env now c d = (Inr x, d1)" "d' = d1\<lparr>held := held d\<rparr>"
    using storeExec_Inr assms(2) Inr by blast
  show ?thesis using framed_run [of c d env now] framed_held assms(1) by (simp add: d1 framed_def wf_db_def)
qed

lemma invalidate_coherent:
  assumes "coherent K (cache s) d" "\<And>k. plain k \<Longrightarrow> k \<notin> set ks \<Longrightarrow> map_of (kv_strings d') k = map_of (kv_strings d) k"
  shows "coherent K (cache (case ks of [] \<Rightarrow> s | _ \<Rightarrow> invalidateMulti ks s)) d'"
proof -
  have "coherent K (DeleteMulti ks (cache s)) d'" using assms by (rule coherent_delete)
  then show ?thesis by (cases ks) (simp_all add: DeleteMulti_def)
qed

lemma getFill_coherent:
  assumes "coherent K (cache s) d"
  shows "coherent K (cache (getFill now key (get now key d) s)) d"
proof (cases "get now key d")
  case (Some v)
  then obtain e where "map_of (kv_strings d) (encodeKey key) = Some (v, e)"
    by (auto simp: get_def selectString_def Let_def split: option.splits if_splits)
  with assms Some show ?thesis
    by (auto simp: getFill_def coherent_def map_of_cacheSet plain_encodeKey split: if_splits)
qed (simp add: getFill_def assms)

lemma cachedGet_keeps:
  assumes "cachedGet now key (s, d) = (r, s', d')" "coherent K (cache s) d" "cache_ok now (cache s)"
  shows "d' = d \<and> coherent K (cache s') d \<and> cache_ok now (cache s')"
proof (cases "getLookup now key s")
  case None
  with assms(1) have "d' = d" "s' = getFill now key (get now key d) s" by (auto simp: cachedGet_def Let_def)
  then show ?thesis
    using getFill_coherent [OF assms(2)] assms(3) by (auto simp: getFill_def cache_ok_cacheSet split: option.splits)
qed (use assms in \<open>auto simp: cachedGet_def\<close>)

lemma cachedExec_get:
  "cachedExec env sched cancelled now (StringC (Get key)) (s, d) =
     (let (r, s, d) = cachedGet now key (s, d) in (Inr (optStr r), s, d))"
  by (simp add: cachedExec_def)

lemma cachedExec_other:
  assumes "\<not> (\<exists>key. c = StringC (Get key))"
  shows "cachedExec env sched cancelled now c (s, d) =
    (case storeExec env sched cancelled now c d of
       (Inl e, d) \<Rightarrow> (Inl e, s, d)
     | (Inr r, d) \<Rightarrow> (Inr r, (case invalidated c r of [] \<Rightarrow> s | keys \<Rightarrow> invalidateMulti keys s), d))"
proof (cases c)
  case (StringC x)
  show ?thesis using assms unfolding StringC by (cases x; hypsubst; simp add: cachedExec_def)
qed (hypsubst, simp add: cachedExec_def)+

lemma cachedExec_keeps:
  assumes "cachedExec env sched cancelled now c (s, d) = (r, s', d')"
    and inv: "wf_db d" "coherent K (cache s) d" "cache_ok now (cache s)"
  shows "wf_db d' \<and> coherent K (cache s') d' \<and> cache_ok now (cache s')"
proof (cases "\<exists>key. c = StringC (Get key)")
  case True
  then show ?thesis using assms
    by (auto simp: cachedExec_get Let_def split: prod.splits dest!: cachedGet_keeps [where K = K])
next
  case False
  then have e: "cachedExec env sched cancelled now c (s, d) =
    (case storeExec env sched cancelled now c d of
       (Inl e, d) \<Rightarrow> (Inl e, s, d)
     | (Inr r, d) \<Rightarrow> (Inr r, (case invalidated c r of [] \<Rightarrow> s | keys \<Rightarrow> invalidateMulti keys s), d))"
    by (rule cachedExec_other)
  obtain x d1 where x: "storeExec env sched cancelled now c d = (x, d1)" by (cases "storeExec env sched cancelled now c d")
  show ?thesis
  proof (cases x)
    case (Inl err)
    then show ?thesis using e x assms storeExec_Inl [of env sched cancelled now c d err d1] by auto
  next
    case (Inr y)
    obtain d2 where d2: "run env now c d = (Inr y, d2)" "d1 = d2\<lparr>held := held d\<rparr>"
      using storeExec_Inr [OF x [unfolded Inr]] by blast
    have kept: "map_of (kv_strings d1) k = map_of (kv_strings d) k" if "plain k" "k \<notin> set (invalidated c y)" for k
      using string_kept [OF inv(1) that(1) d2(1) that(2)] d2(2) by simp
    have eqs: "d' = d1" "s' = (case invalidated c y of [] \<Rightarrow> s | _ \<Rightarrow> invalidateMulti (invalidated c y) s)"
      using assms(1) e x Inr by (auto split: list.splits)
    have "coherent K (cache s') d'" unfolding eqs by (rule invalidate_coherent [OF inv(2) kept])
    moreover have "cache_ok now (cache s')"
      using inv(3) cache_ok_DeleteMulti by (auto simp: eqs split: list.splits)
    moreover have "wf_db d'" using storeExec_wf [OF inv(1) x] eqs(1) by simp
    ultimately show ?thesis by blast
  qed
qed

lemma flush_keeps:
  assumes "cachedFlushDB None (s, d) = (r, s', d')"
  shows "wf_db d' \<and> coherent K (cache s') d' \<and> cache_ok now (cache s')"
proof -
  have "d' = fold (\<lambda>f. f) truncations d" "s' = flushCache s"
    using assms by (auto simp: cachedFlushDB_def flushDB_def)
  then show ?thesis
    using cache_ok_Flush [of now "cache s"] by (simp add: truncations_def wf_db_def coherent_Flush)
qed


text \<open>A transaction has marked every plain key whose string it changed.\<close>

definition tx_inv :: "'s db \<Rightarrow> 's CachingTx \<Rightarrow> bool" where
  "tx_inv d t = (wf_db (txdb (innerTx t)) \<and> \<not> txdone (innerTx t) \<and> (\<not> aborted (innerTx t) \<longrightarrow>
     (\<forall>k. plain k \<longrightarrow> k \<notin> set (dirty t) \<longrightarrow> map_of (kv_strings (txdb (innerTx t))) k = map_of (kv_strings d) k)))"

lemma marked_invalidated:
  assumes "\<And>dst src spec. c \<noteq> ZSetC (ZRangeStore dst src spec)" "wf_db d" "plain k"
    "run env now c d = (Inr r, d')" "k \<notin> set (marked c r)"
  shows "map_of (kv_strings d') k = map_of (kv_strings d) k"
proof (cases c)
  case (ZSetC x)
  have d': "d' = snd (run env now c d)" using assms(4) by simp
  show ?thesis
  proof (cases "k \<in> set (invalidatedZSet x r)")
    case True
    then have "kv_strings d' = kv_strings d" using assms(1,5) ZSetC unfolding d'
      by (cases x) (auto simp: quiet_ops when'_def split: if_splits)
    then show ?thesis by simp
  next
    case False
    then show ?thesis using string_kept [OF assms(2,3,4)] ZSetC by simp
  qed
qed (use string_kept [OF assms(2-4)] assms(5) in simp_all)

lemma tx_inv_step:
  assumes "tx_inv d t" "marks_writes env now c (innerTx t)"
  shows "tx_inv d (snd (cachingTxExec env now c t))"
proof (cases "aborted (innerTx t)")
  case False
  obtain x d' where x: "run env now c (txdb (innerTx t)) = (x, d')" by (cases "run env now c (txdb (innerTx t))")
  have wf: "wf_db (txdb (innerTx t))" "wf_db d'"
    using assms(1) framed_run [of c "txdb (innerTx t)" env now] x by (simp_all add: tx_inv_def framed_def)
  show ?thesis
  proof (cases x)
    case (Inl msg)
    then show ?thesis using assms False x wf
      by (auto simp: tx_inv_def cachingTxExec_def txExec_def marks_writes_def)
  next
    case (Inr r)
    have "map_of (kv_strings d') k = map_of (kv_strings (txdb (innerTx t))) k" if "plain k" "k \<notin> set (marked c r)" for k
      using marked_invalidated [OF _ wf(1) that(1) x [unfolded Inr] that(2)] assms(2) by (auto simp: marks_writes_def)
    then show ?thesis using assms False x wf Inr
      by (auto simp: tx_inv_def cachingTxExec_def txExec_def mark_def)
  qed
qed (use assms in \<open>auto simp: tx_inv_def cachingTxExec_def txExec_def\<close>)

lemma tx_inv_commands:
  "tx_inv d t \<Longrightarrow> all_marked env now cs t \<Longrightarrow> tx_inv d (snd (txCommands env now cs t))"
proof (induction cs arbitrary: t)
  case (Cons c cs)
  then have "tx_inv d (snd (txCommands env now cs (snd (cachingTxExec env now c t))))"
    using tx_inv_step [of d t env now c] by simp
  then show ?case by (simp add: Let_def case_prod_unfold)
qed simp

lemma cachedTx_keeps:
  assumes "cachedTx env now cs (s, d) = (s', d')" "all_marked env now cs (newCachingTx (BeginTx d))"
    and inv: "wf_db d" "coherent K (cache s) d" "cache_ok now (cache s)"
  shows "wf_db d' \<and> coherent K (cache s') d' \<and> cache_ok now (cache s')"
proof -
  define t where "t = snd (txCommands env now cs (newCachingTx (BeginTx d)))"
  have "tx_inv d (newCachingTx (BeginTx d))"
    using inv(1) by (simp add: tx_inv_def newCachingTx_def BeginTx_def wf_db_def)
  then have t: "tx_inv d t" unfolding t_def using assms(2) by (rule tx_inv_commands)
  have run: "(s', d') = snd (snd (cachingCommit t (s, d)))"
    using assms(1) by (auto simp: cachedTx_def t_def Let_def split: prod.splits)
  show ?thesis
  proof (cases "aborted (innerTx t)")
    case True
    then show ?thesis using t run inv by (auto simp: cachingCommit_def Commit_def tx_inv_def)
  next
    case False
    then have eqs: "d' = (txdb (innerTx t))\<lparr>held := held d\<rparr>" "s' = (case dirty t of [] \<Rightarrow> s | _ \<Rightarrow> invalidateMulti (dirty t) s)"
      using t run by (auto simp: cachingCommit_def Commit_def tx_inv_def split: list.splits)
    have kept: "map_of (kv_strings d') k = map_of (kv_strings d) k" if "plain k" "k \<notin> set (dirty t)" for k
      using t False that by (simp add: eqs tx_inv_def)
    have "coherent K (cache s') d'" unfolding eqs(2) by (rule invalidate_coherent [OF inv(2) kept])
    moreover have "cache_ok now (cache s')" using inv(3) cache_ok_DeleteMulti by (auto simp: eqs(2) split: list.splits)
    moreover have "wf_db d'" using t by (simp add: eqs(1) tx_inv_def wf_db_def)
    ultimately show ?thesis by blast
  qed
qed

text \<open>The sweeper only removes rows.\<close>

lemma map_of_filter_sub: "distinct (map fst t) \<Longrightarrow> map_of (filter P t) k = Some v \<Longrightarrow> map_of t k = Some v"
  by (auto dest!: map_of_SomeD)

lemma pk_distinct_sweepTable: "pk_distinct t \<Longrightarrow> pk_distinct (sweepTable now keyOf expOf keys gone t)"
  by (simp add: sweepTable_def Let_def distinct_map_filter)

lemma sweep_keeps:
  assumes "wf_db d"
  shows "wf_db (deleteExpiredKeys acquired locked now d)
    \<and> (map_of (kv_strings (deleteExpiredKeys acquired locked now d)) k = Some v \<longrightarrow> map_of (kv_strings d) k = Some v)"
proof -
  have "wf_db (sweepKeys now keys d) \<and> (map_of (kv_strings (sweepKeys now keys d)) k = Some v \<longrightarrow> map_of (kv_strings d) k = Some v)"
    for keys
    using assms map_of_filter_sub [of "kv_strings d" _ k v]
    by (auto simp: sweepKeys_def Let_def wf_db_def pk_distinct_sweepTable sweepTable_def [where t = "kv_strings d"])
       (simp_all add: delete_rows_def distinct_map_filter)
  then show ?thesis using assms by (auto simp: deleteExpiredKeys_def Let_def)
qed

lemma sweep_coherent:
  assumes "wf_db d" "coherent K c d" "d' = deleteExpiredKeys acquired locked now d"
  shows "coherent (K \<union> {k. map_of (kv_strings d) k \<noteq> None \<and> map_of (kv_strings d') k = None}) c d'"
  unfolding coherent_def
proof (intro allI impI)
  fix k e
  assume "plain k" "map_of (items c) k = Some e"
  with assms(2) have c: "case map_of (kv_strings d) k of Some (v, _) \<Rightarrow> v = eValue e | None \<Rightarrow> k \<in> K" by (simp add: coherent_def)
  show "case map_of (kv_strings d') k of None \<Rightarrow> k \<in> K \<union> {k. map_of (kv_strings d) k \<noteq> None \<and> map_of (kv_strings d') k = None}
      | Some (v, _) \<Rightarrow> v = eValue e"
  proof (cases "map_of (kv_strings d') k")
    case (Some p)
    then have "map_of (kv_strings d) k = Some p" using sweep_keeps [OF assms(1)] assms(3) by blast
    then show ?thesis using c Some by simp
  qed (use c in \<open>auto split: option.splits\<close>)
qed

lemma sys_inv_step: "sys_step env w w' \<Longrightarrow> sys_inv w \<Longrightarrow> sys_inv w'"
proof (induction rule: sys_step.induct)
  case (sys_cleanup w)
  then have "coherent (swept w) (cleanup (clock w) (cache (store w))) (database w)"
    by (rule_tac coherent_subset [of "swept w" "cache (store w)"])
      (auto simp: sys_inv_def cache_ok_def map_of_cleanup split: option.splits if_splits)
  with sys_cleanup show ?case by (simp add: sys_inv_def cache_ok_cleanup)
next
  case (sys_notification w p)
  then have "coherent (swept w) (processNotification p (cache (store w))) (database w)
      \<and> cache_ok (clock w) (processNotification p (cache (store w)))"
    using processNotification_deletes [of p "cache (store w)"]
    by (auto simp: sys_inv_def cache_ok_DeleteMulti cache_ok_Flush coherent_Flush intro: coherent_delete)
  with sys_notification show ?case by (simp add: sys_inv_def)
next
  case (sys_command sched cancelled w c r s d)
  then show ?case using cachedExec_keeps [of env sched cancelled "clock w" c "store w" "database w" r s d "swept w"]
    by (simp add: sys_inv_def)
next
  case (sys_flush w r s d)
  then show ?case using flush_keeps [of "store w" "database w" r s d "swept w" "clock w"] by (simp add: sys_inv_def)
next
  case (sys_transaction w cs s d)
  then show ?case using cachedTx_keeps [of env "clock w" cs "store w" "database w" s d "swept w"] by (simp add: sys_inv_def)
next
  case (sys_sweep d acquired locked w)
  then show ?case
    using sweep_keeps [of "database w" acquired locked "clock w"] sweep_coherent [of "database w" "swept w" "cache (store w)" d]
    by (auto simp: sys_inv_def)
next
  case (sys_tick w now)
  then show ?case using cache_ok_later by (auto simp: sys_inv_def)
qed

lemma sys_inv_reaches: "sys_reaches env w w' \<Longrightarrow> sys_inv w \<Longrightarrow> sys_inv w'"
  by (induction rule: sys_reaches.induct) (auto intro: sys_inv_step)

definition startSys :: "int \<Rightarrow> int \<Rightarrow> string list \<Rightarrow> string list \<Rightarrow> bool \<Rightarrow> time \<Rightarrow> 's db \<Rightarrow> 's sys" where
  "startSys ttl n incl excl broadcast now d =
     \<lparr>store = NewCachedStore (newCache ttl n) incl excl broadcast, database = d, clock = now, swept = {}\<rparr>"

lemma sys_inv_start: "wf_db d \<Longrightarrow> sys_inv (startSys ttl n incl excl broadcast now d)"
  by (simp add: sys_inv_def startSys_def NewCachedStore_def cache_ok_newCache) (simp add: coherent_def newCache_def)


subsection \<open>Entries that survive a change\<close>

lemma get_deleted: "get now key (deleteKeyFromAllTables (encodeKey key) d) = None"
  using rows_deleteKeys(1) [of "encodeKey key" "encodeKey key" d] by (simp add: get_def selectString_def rows_def)

lemma fill_hit:
  "mayCache s key \<Longrightarrow> maxSize (cache s) = 0 \<Longrightarrow> 0 \<le> cacheTTL (cache s) \<Longrightarrow>
   fst (cachedGet now key (getFill now key (Some v) s, d)) = Some v"
  by (simp add: cachedGet_def getLookup_def getFill_def mayCache_def cacheGet_def map_of_cacheSet)

lemma storeExec_completes:
  "run env now c d = (Inr r, d') \<Longrightarrow> storeExec env (\<lambda>_. Completes) cancelled now c d = (Inr r, d'\<lparr>held := held d\<rparr>)"
  by (simp add: storeExec_def withTx_def withTxLoop.simps [of _ _ _ 0])

lemma get_held [simp]: "get now key (d\<lparr>held := h\<rparr>) = get now key d"
  by (simp add: get_def selectString_def)

lemma binary_not_encoded: "\<not> pg_text k \<Longrightarrow> \<not> HasPrefix k binaryPrefix \<Longrightarrow> encodeKey k \<noteq> k"
  by (metis encodeKey_binary prefixI)

lemma del_stays:
  assumes "\<not> pg_text key" "\<not> HasPrefix key binaryPrefix" "keyType now key d \<noteq> TypeNone"
  shows "\<exists>r s' d'. cachedExec env (\<lambda>_. Completes) cancelled now (KeyC (Del [key])) (s, d) = (Inr r, s', d')
     \<and> get now key d' = None \<and> map_of (items (cache s')) key = map_of (items (cache s)) key \<and> mayCache s' key = mayCache s key"
proof -
  have "run env now (KeyC (Del [key])) d = (Inr (RInt 1), deleteKeyFromAllTables (encodeKey key) d)"
    using assms(3) by (simp add: del_def del_keys_def encodeKeys_def keyType_def writes_def)
  from storeExec_completes [OF this] show ?thesis
    using binary_not_encoded [OF assms(1,2)]
    by (auto simp: cachedExec_def get_deleted del_keys_def encodeKeys_def map_of_DeleteMulti mayCache_def invalidateMulti_def Let_def)
qed

lemma flush_stays:
  "cachedFlushDB (Some (1, e)) (s, d) = (Inl e, s, d\<lparr>kv_strings := []\<rparr>)"
  by (simp add: cachedFlushDB_def flushDB_def truncations_def)

lemma tx_stays:
  assumes "zRangeStore now dst src spec (d\<lparr>held := []\<rparr>) = (Inr n, d1)"
  shows "cachedTx env now [ZSetC (ZRangeStore dst src spec)] (s, d) = (s, d1\<lparr>held := held d\<rparr>)"
  using assms by (simp add: cachedTx_def newCachingTx_def BeginTx_def cachingTxExec_def txExec_def tries_def mark_def
    cachingCommit_def Commit_def)

lemma getFill_mayCache [simp]: "mayCache (getFill now k v s) key = mayCache s key"
  by (simp add: getFill_def mayCache_def split: option.split)

lemma fill_kept:
  assumes "map_of (items (cache s')) key = map_of (items (cache (getFill now key (Some v) s))) key" "mayCache s' key"
    "mayCache s key" "maxSize (cache s) = 0" "0 \<le> cacheTTL (cache s)"
  shows "fst (cachedGet now key (s', d)) = Some v"
  using assms by (simp add: cachedGet_def getLookup_def getFill_def mayCache_def cacheGet_def map_of_cacheSet)

section \<open>Properties\<close>



definition testEnv :: "int env" where
  "testEnv = \<lparr>busy = None, permKeys = id, permFields = id, permMembers = id, permZ = id, draws = \<lambda>_ _. 0, estimate = \<lambda>_. 0,
     sqlLike = \<lambda>_. Inr (\<lambda>_. True), parseFloat = \<lambda>_. None, formatFloat = \<lambda>_. []\<rparr>"


text \<open>
  C40.  Where the cache goes stale, on a key that is cached with its value.  A
  GET that has read the old value before a SET and fills the cache after the
  invalidation keeps serving it; a FLUSHDB that fails after its first
  statement leaves the cache full; ZRANGESTORE inside a transaction replaces a
  string that stays cached; and a DEL of a binary key leaves it cached, because the
  caller's slice already holds the encoded name when it is invalidated.
\<close>

theorem cache_gaps:
  assumes "wf_db d" "get now key d = Some old" "mayCache s key" "maxSize (cache s) = 0" "0 \<le> cacheTTL (cache s)"
    "filled = getFill now key (get now key d) s"
  shows "fst (cachedGet now key (getFill now key (get now key d) (invalidateMulti [key] s), set' now key new 0 d)) = Some old
    \<and> (let (r, s', d') = cachedFlushDB (Some (1, e)) (filled, d)
        in get now key d' = None \<and> fst (cachedGet now key (s', d')) = Some old)
    \<and> (sBy spec = ZRangeByIndex \<longrightarrow>
        (let (s', d') = cachedTx env now [ZSetC (ZRangeStore key src spec)] (filled, d)
         in get now key d' = None \<and> fst (cachedGet now key (s', d')) = Some old))
    \<and> (\<not> pg_text key \<and> \<not> HasPrefix key binaryPrefix \<and> keyType now key d \<noteq> TypeNone \<longrightarrow>
        (\<exists>r s' d'. cachedExec env (\<lambda>_. Completes) cancelled now (KeyC (Del [key])) (filled, d) = (Inr r, s', d')
           \<and> get now key d' = None \<and> fst (cachedGet now key (s', d')) = Some old))"
proof (intro conjI impI)
  have hit: "fst (cachedGet now key (filled, d')) = Some old" for d' :: "'a db"
    using fill_hit [OF assms(3-5)] by (simp add: assms(6,2))
  show "fst (cachedGet now key (getFill now key (get now key d) (invalidateMulti [key] s), set' now key new 0 d)) = Some old"
    unfolding assms(2) using assms(3-5) by (intro fill_hit) (simp_all add: mayCache_def invalidateMulti_def Let_def)
  show "let (r, s', d') = cachedFlushDB (Some (1, e)) (filled, d)
          in get now key d' = None \<and> fst (cachedGet now key (s', d')) = Some old"
    unfolding flush_stays using hit by (simp add: get_def selectString_def)
next
  assume ix: "sBy spec = ZRangeByIndex"
  have wf: "wf_db (d\<lparr>held := []\<rparr>)" using assms(1) by (simp add: wf_db_def)
  obtain ms where "zStoreQuery now (encodeKey src) spec (deleteKeyFromAllTables (encodeKey key) (d\<lparr>held := []\<rparr>)) = Inr ms"
    using ix by (simp add: zStoreQuery_def)
  then obtain n d1 where "zRangeStore now key src spec (d\<lparr>held := []\<rparr>) = (Inr n, d1)"
    "map_of (kv_strings d1) (encodeKey key) = None" using zRangeStore_refines [OF wf] by blast
  then show "let (s', d') = cachedTx env now [ZSetC (ZRangeStore key src spec)] (filled, d)
      in get now key d' = None \<and> fst (cachedGet now key (s', d')) = Some old"
    using tx_stays [of now key src spec d n d1 env filled] fill_hit [OF assms(3-5), of now old "d1\<lparr>held := held d\<rparr>"]
    unfolding assms(6,2) by (simp add: get_def selectString_def)
next
  assume "\<not> pg_text key \<and> \<not> HasPrefix key binaryPrefix \<and> keyType now key d \<noteq> TypeNone"
  then obtain r s' d' where "cachedExec env (\<lambda>_. Completes) cancelled now (KeyC (Del [key])) (filled, d) = (Inr r, s', d')"
    "get now key d' = None" "map_of (items (cache s')) key = map_of (items (cache filled)) key" "mayCache s' key = mayCache filled key"
    using del_stays [of key now d env cancelled filled] by blast
  moreover from this have "fst (cachedGet now key (s', d')) = Some old"
    using fill_kept [OF _ _ assms(3-5), of s' now old d'] by (simp add: assms(6,2) getFill_mayCache assms(3))
  ultimately show "\<exists>r s' d'. cachedExec env (\<lambda>_. Completes) cancelled now (KeyC (Del [key])) (filled, d) = (Inr r, s', d')
      \<and> get now key d' = None \<and> fst (cachedGet now key (s', d')) = Some old" by blast
qed

theorem cache_gaps_witness:
  "let d = set' 0 ''k'' ''old'' 0 (initSchema :: int db);
       s = NewCachedStore (newCache 10 0) [] [] False
   in fst (cachedGet 0 ''k'' (getFill 0 ''k'' (get 0 ''k'' d) (invalidateMulti [''k''] s), set' 0 ''k'' ''new'' 0 d)) = Some ''old''
      \<and> get 0 ''k'' (set' 0 ''k'' ''new'' 0 d) = Some ''new''"
proof -
  let ?d = "set' 0 ''k'' ''old'' 0 (initSchema :: int db)" and ?s = "NewCachedStore (newCache 10 0) [] [] False"
  have g: "get 0 ''k'' ?d = Some ''old''" "get 0 ''k'' (set' 0 ''k'' ''new'' 0 ?d) = Some ''new''" "wf_db ?d"
    by (simp_all add: get_set' expiryOf_def)
  have s: "mayCache ?s ''k''" "maxSize (cache ?s) = 0" "0 \<le> cacheTTL (cache ?s)"
    by (simp_all add: mayCache_def shouldCache_def NewCachedStore_def newCache_def)
  show ?thesis using conjunct1 [OF cache_gaps [OF g(3,1) s refl, of "''new''"]] g(2) by (simp add: Let_def)
qed

end
