(* ===== verification/HandlerBase.thy ===== *)
theory HandlerBase
  imports Store Resp
begin

text \<open>
  What the command handlers of \<^verbatim>\<open>src/internal/handler\<close> share.  A handler works on
  any implementation of \<^verbatim>\<open>storage.Operations\<close>: the record \<open>operations\<close> holds the
  method call (a \<open>command\<close> with its result), the clock, the time that passes between two
  readings of it, the two methods of the list notifier (None: the wait never ends), the wait for a timer (True: the context ended first) and whether the
  context has ended, all over an implementation state \<^typ>\<open>'st\<close>.  A handler
  returns a reply, or the message of a run-time panic as \<open>Inl\<close>; no goroutine
  recovers, so a panic ends the process.

  The record \<open>Handler\<close> has the fields of the Go struct (whether a notifier is set)
  and the platform names that INFO reports.  A float64 is a value of the score type; what the handlers need of it
  (parsing, formatting, infinities, the constants 1e-9 and 1e308, conversions of
  durations) is the record \<open>floats\<close>.  The elements of a Go map are visited in the order of an association list.
\<close>

section \<open>Operations\<close>

record ('st, 's) operations =
  exec :: "'s command \<Rightarrow> 'st \<Rightarrow> (string + 's reply) \<times> 'st"
  clockOf :: "'st \<Rightarrow> time"
  elapse :: "'st \<Rightarrow> 'st"
  notifyPush :: "string \<Rightarrow> 'st \<Rightarrow> 'st"
  waitForKeys :: "string list \<Rightarrow> int \<Rightarrow> 'st \<Rightarrow> (string \<times> 'st) option"
  waitTimer :: "int \<Rightarrow> 'st \<Rightarrow> bool \<times> 'st"
  ctxDone :: "'st \<Rightarrow> bool"

record ctx =
  resp3 :: bool
  noBlock :: bool

record Handler =
  password :: string
  startTime :: time
  listNotifier :: bool
  blockingPollInterval :: int
  goos :: string
  goarch :: string

record 's floats =
  ParseFloat :: "string \<Rightarrow> 's option"
  FormatFloat :: "'s \<Rightarrow> string"
  posInf :: 's
  negInf :: 's
  tiny :: 's
  huge :: 's
  negHuge :: 's
  fsub :: "'s \<Rightarrow> 's \<Rightarrow> 's"
  toDuration :: "'s \<Rightarrow> int"
  wholeSeconds :: "int \<Rightarrow> int"
  wholeDays :: "int \<Rightarrow> int"

type_synonym 'st handled = "(string + Value) \<times> 'st"

definition panics :: "string \<Rightarrow> bool" where
  "panics e = HasPrefix e ''runtime error: ''"

definition says :: "Value \<Rightarrow> 'st \<Rightarrow> 'st handled" where
  "says v st = (Inr v, st)"

definition panic :: "string \<Rightarrow> 'st \<Rightarrow> 'st handled" where
  "panic e st = (Inl e, st)"

text \<open>A method call with the handler's error branch \<open>bad\<close> and its continuation.\<close>

definition callThen ::
  "(string \<Rightarrow> Value) \<Rightarrow> ('st, 's) operations \<Rightarrow> 's command \<Rightarrow> ('s reply \<Rightarrow> 'st \<Rightarrow> 'st handled) \<Rightarrow> 'st \<Rightarrow> 'st handled" where
  "callThen bad ops c k st =
     (case exec ops c st of
        (Inl e, st) \<Rightarrow> if panics e then panic e st else says (bad e) st
      | (Inr r, st) \<Rightarrow> k r st)"

definition call ::
  "(string \<Rightarrow> Value) \<Rightarrow> ('s reply \<Rightarrow> Value) \<Rightarrow> ('st, 's) operations \<Rightarrow> 's command \<Rightarrow> 'st \<Rightarrow> 'st handled" where
  "call bad good ops c = callThen bad ops c (\<lambda>r. says (good r))"

fun Contains :: "string \<Rightarrow> string \<Rightarrow> bool" where
  "Contains [] sub = (sub = [])"
| "Contains (c # s) sub = (HasPrefix (c # s) sub \<or> Contains s sub)"

text \<open>The error branch that recognises a type error by its text.\<close>

definition errTyped :: "string \<Rightarrow> Value" where
  "errTyped e = (if Contains e ''WRONGTYPE'' then ErrWrongType else Err e)"

section \<open>Results\<close>

fun intOf :: "'s reply \<Rightarrow> int" where
  "intOf (RInt n) = n" | "intOf _ = 0"

fun boolOf :: "'s reply \<Rightarrow> bool" where
  "boolOf (RBool b) = b" | "boolOf _ = False"

fun strOf :: "'s reply \<Rightarrow> string option" where
  "strOf (RStr s) = Some s" | "strOf _ = None"

fun strsOf :: "'s reply \<Rightarrow> string list" where
  "strsOf (RStrs xs) = xs" | "strsOf _ = []"

fun pairsOf :: "'s reply \<Rightarrow> (string \<times> string) list" where
  "pairsOf (RPairs ps) = ps" | "pairsOf _ = []"

fun membersOf :: "'s reply \<Rightarrow> 's ZMember list" where
  "membersOf (RMembers ms) = ms" | "membersOf _ = []"

fun typeOf :: "'s reply \<Rightarrow> KeyType" where
  "typeOf (RType t) = t" | "typeOf _ = TypeNone"

definition intV :: "'s reply \<Rightarrow> Value" where
  "intV r = IntVal (intOf r)"

definition bit :: "bool \<Rightarrow> Value" where
  "bit b = IntVal (if b then 1 else 0)"

definition boolV :: "'s reply \<Rightarrow> Value" where
  "boolV r = bit (boolOf r)"

definition okV :: "'s reply \<Rightarrow> Value" where
  "okV r = OK"

definition bulkOpt :: "string option \<Rightarrow> Value" where
  "bulkOpt r = (case r of None \<Rightarrow> NullBulk | Some v \<Rightarrow> Bulk v)"

definition strV :: "'s reply \<Rightarrow> Value" where
  "strV r = bulkOpt (strOf r)"

definition bulksV :: "'s reply \<Rightarrow> Value" where
  "bulksV r = Arr (map Bulk (strsOf r))"

fun optsV :: "'s reply \<Rightarrow> Value" where
  "optsV (ROpts vs) = Arr (map bulkOpt vs)" | "optsV _ = Arr []"

fun bitsV :: "'s reply \<Rightarrow> Value" where
  "bitsV (RBools bs) = Arr (map bit bs)" | "bitsV _ = Arr []"

fun intOptV :: "'s reply \<Rightarrow> Value" where
  "intOptV (RInt n) = IntVal n" | "intOptV _ = NullBulk"

fun intOptsV :: "'s reply \<Rightarrow> Value" where
  "intOptsV (RIntOpts ns) = Arr (map (\<lambda>r. case r of None \<Rightarrow> NullBulk | Some n \<Rightarrow> IntVal n) ns)"
| "intOptsV _ = Arr []"

definition flatPairs :: "(string \<times> string) list \<Rightarrow> Value list" where
  "flatPairs ps = concat (map (\<lambda>(f, v). [Bulk f, Bulk v]) ps)"

definition membersV :: "'s floats \<Rightarrow> bool \<Rightarrow> 's ZMember list \<Rightarrow> Value" where
  "membersV fl withScores ms =
     (if withScores then Arr (concat (map (\<lambda>(m, s). [Bulk m, Bulk (FormatFloat fl s)]) ms))
      else Arr (map (\<lambda>(m, s). Bulk m) ms))"

fun scoreV :: "'s floats \<Rightarrow> 's reply \<Rightarrow> Value" where
  "scoreV fl (RScore s) = Bulk (FormatFloat fl s)" | "scoreV fl _ = NullBulk"

section \<open>Arguments\<close>

definition arg :: "Value list \<Rightarrow> nat \<Rightarrow> string" where
  "arg args i = vBulk (args ! i)"

definition bulks :: "Value list \<Rightarrow> string list" where
  "bulks args = map vBulk args"

text \<open>The pairs of a slice, and the Go map built from them (a later pair overwrites).\<close>

fun pairUp :: "string list \<Rightarrow> (string \<times> string) list" where
  "pairUp (k # v # rest) = (k, v) # pairUp rest"
| "pairUp _ = []"

definition toMap :: "(string \<times> string) list \<Rightarrow> (string \<times> string) list" where
  "toMap ps = fold (\<lambda>(k, v) m. AList.update k v m) ps []"

fun ToLower :: "string \<Rightarrow> string" where
  "ToLower (a # b # c # s) =
     (if a = CHR 0xC4 \<and> b = CHR 0xB0 then CHR ''i'' # ToLower (c # s)
      else if a = CHR 0xE2 \<and> b = CHR 0x84 \<and> c = CHR 0xAA then CHR ''k'' # ToLower s
      else lower_char a # ToLower (b # c # s))"
| "ToLower [a, b] = (if a = CHR 0xC4 \<and> b = CHR 0xB0 then ''i'' else [lower_char a, lower_char b])"
| "ToLower [a] = [lower_char a]"
| "ToLower [] = []"

section \<open>Times\<close>

definition seconds :: "int \<Rightarrow> int" where
  "seconds n = wrap64 (n * 1000000000)"

definition millis :: "int \<Rightarrow> int" where
  "millis n = wrap64 (n * 1000000)"

text \<open>\<^verbatim>\<open>time.Unix\<close> adds the seconds between year 1 and 1970 in an int64.\<close>

definition timeUnix :: "int \<Rightarrow> time" where
  "timeUnix n = (wrap64 (n + 62135596800) - 62135596800) * 1000000000"

definition timeUnixMilli :: "int \<Rightarrow> time" where
  "timeUnixMilli n = n * 1000000"

text \<open>\<^verbatim>\<open>time.Until\<close> saturates.\<close>

definition until :: "time \<Rightarrow> time \<Rightarrow> int" where
  "until now t = max min_int64 (min max_int64 (t - now))"

definition errInt :: string where
  "errInt = ''value is not an integer or out of range''"

definition errSyntax :: string where
  "errSyntax = ''syntax error''"

definition quoted :: "string \<Rightarrow> string" where
  "quoted s = [CHR 0x27] @ s @ [CHR 0x27]"

text \<open>A \<^verbatim>\<open>make\<close> with a length that is negative or beyond the address space panics.\<close>

definition makeable :: "int \<Rightarrow> bool" where
  "makeable n = (0 \<le> n \<and> n * 16 \<le> 281474976710656)"

definition errMakeLen :: string where
  "errMakeLen = ''runtime error: makeslice: len out of range''"

text \<open>
  The arguments of a handler whose parsing may also panic: \<open>Inl\<close> is what the
  handler returns at once.
\<close>

type_synonym 'a parsed = "(string + Value) + 'a"

definition stops :: "string + Value \<Rightarrow> 'st \<Rightarrow> 'st handled" where
  "stops r st = (r, st)"

text \<open>\<^verbatim>\<open>make([]string, numkeys)\<close> filled from the arguments after the count.\<close>

definition takeKeys :: "int \<Rightarrow> string list \<Rightarrow> (string list) parsed" where
  "takeKeys numkeys args =
     (if \<not> makeable numkeys then Inl (Inl errMakeLen)
      else if nat numkeys > length args then Inl (Inl errPanicIndex)
      else Inr (take (nat numkeys) args))"

end
