(* ===== verification/HandlerStrings.thy ===== *)
theory HandlerStrings
  imports HandlerBase
begin

text \<open>
  The string, key, bitmap and HyperLogLog handlers of
  \<^verbatim>\<open>src/internal/handler/handler_ops.go\<close>.  Option loops are recursive functions
  over the remaining arguments.  \<^verbatim>\<open>resp.Err\<close> adds the prefix ERR where it is
  missing, so messages are written without it.
\<close>

section \<open>String commands\<close>

definition getOp :: "('st, 's) operations \<Rightarrow> Value list \<Rightarrow> 'st \<Rightarrow> 'st handled" where
  "getOp ops args =
     (if length args \<noteq> 1 then says (ErrWrongArgs ''get'')
      else call Err strV ops (StringC (Get (arg args 0))))"

record SetOptions =
  soTTL :: int
  soNX :: bool
  soXX :: bool
  soKeepTTL :: bool
  soGet :: bool

definition setExpiryOption :: "time \<Rightarrow> string \<Rightarrow> int \<Rightarrow> int" where
  "setExpiryOption now opt n =
     (if opt = ''EX'' then seconds n
      else if opt = ''PX'' then millis n
      else if opt = ''EXAT'' then until now (timeUnix n)
      else until now (timeUnixMilli n))"

fun setOptions :: "time \<Rightarrow> string list \<Rightarrow> SetOptions \<Rightarrow> Value + SetOptions" where
  "setOptions now [] o' = Inr o'"
| "setOptions now (a # rest) o' =
     (let opt = ToUpper a
      in if opt \<in> {''EX'', ''PX'', ''EXAT'', ''PXAT''}
         then (case rest of
                 [] \<Rightarrow> Inl (Err errSyntax)
               | v # rest' \<Rightarrow>
                   (case ParseInt v of
                      Inl _ \<Rightarrow> Inl (Err errInt)
                    | Inr n \<Rightarrow> setOptions now rest' (o'\<lparr>soTTL := setExpiryOption now opt n\<rparr>)))
         else setOptions now rest
                (if opt = ''NX'' then o'\<lparr>soNX := True\<rparr>
                 else if opt = ''XX'' then o'\<lparr>soXX := True\<rparr>
                 else if opt = ''KEEPTTL'' then o'\<lparr>soKeepTTL := True\<rparr>
                 else if opt = ''GET'' then o'\<lparr>soGet := True\<rparr>
                 else o'))"

definition noSetOptions :: SetOptions where
  "noSetOptions = \<lparr>soTTL = 0, soNX = False, soXX = False, soKeepTTL = False, soGet = False\<rparr>"

text \<open>The write, once the expiry and the old value (with GET) are known.\<close>

definition setWrite ::
  "('st, 's) operations \<Rightarrow> string \<Rightarrow> string \<Rightarrow> SetOptions \<Rightarrow> int \<Rightarrow> string option \<Rightarrow> 'st \<Rightarrow> 'st handled" where
  "setWrite ops key value' o' ttl old =
     (let reply' = (if soGet o' then bulkOpt old else OK);
          unmet = (if soGet o' then reply' else NullBulk);
          write = call Err (\<lambda>_. reply') ops (StringC (Set key value' ttl))
      in if soNX o'
         then callThen Err ops (StringC (SetNX key value' ttl)) (\<lambda>r. says (if boolOf r then reply' else unmet))
         else if soXX o'
         then (if soGet o' then (if old \<noteq> None then write else says unmet)
               else callThen Err ops (StringC (Get key)) (\<lambda>r. if strOf r \<noteq> None then write else says unmet))
         else write)"

text \<open>SET with the time at which its options are read.\<close>

definition setOpAt :: "time \<Rightarrow> ('st, 's) operations \<Rightarrow> Value list \<Rightarrow> 'st \<Rightarrow> 'st handled" where
  "setOpAt now ops args =
     (if length args < 2 then says (ErrWrongArgs ''set'')
      else case setOptions now (bulks (drop 2 args)) noSetOptions of
             Inl e \<Rightarrow> says e
           | Inr o' \<Rightarrow>
               let key = arg args 0; value' = arg args 1;
                   withOld = (\<lambda>ttl. if soGet o'
                      then callThen Err ops (StringC (Get key)) (\<lambda>r. setWrite ops key value' o' ttl (strOf r))
                      else setWrite ops key value' o' ttl None)
               in if soKeepTTL o' \<and> soTTL o' = 0
                  then callThen Err ops (KeyC (TTL key)) (\<lambda>r. withOld (if intOf r > 0 then seconds (intOf r) else 0))
                  else withOld (soTTL o'))"

definition setOp :: "('st, 's) operations \<Rightarrow> Value list \<Rightarrow> 'st \<Rightarrow> 'st handled" where
  "setOp ops args st = setOpAt (clockOf ops st) ops args st"

definition setnxOp :: "('st, 's) operations \<Rightarrow> Value list \<Rightarrow> 'st \<Rightarrow> 'st handled" where
  "setnxOp ops args =
     (if length args \<noteq> 2 then says (ErrWrongArgs ''setnx'')
      else call Err boolV ops (StringC (SetNX (arg args 0) (arg args 1) 0)))"

definition setexOp :: "('st, 's) operations \<Rightarrow> Value list \<Rightarrow> 'st \<Rightarrow> 'st handled" where
  "setexOp ops args =
     (if length args \<noteq> 3 then says (ErrWrongArgs ''setex'')
      else case ParseInt (arg args 1) of
             Inl _ \<Rightarrow> says (Err errInt)
           | Inr secs \<Rightarrow> call Err okV ops (StringC (Set (arg args 0) (arg args 2) (seconds secs))))"

definition mgetOp :: "('st, 's) operations \<Rightarrow> Value list \<Rightarrow> 'st \<Rightarrow> 'st handled" where
  "mgetOp ops args =
     (if args = [] then says (ErrWrongArgs ''mget'')
      else call Err optsV ops (StringC (MGet (bulks args))))"

definition msetOp :: "('st, 's) operations \<Rightarrow> Value list \<Rightarrow> 'st \<Rightarrow> 'st handled" where
  "msetOp ops args =
     (if length args < 2 \<or> length args mod 2 \<noteq> 0 then says (ErrWrongArgs ''mset'')
      else call Err okV ops (StringC (MSet (toMap (pairUp (bulks args))))))"

definition incrOp :: "('st, 's) operations \<Rightarrow> Value list \<Rightarrow> 'st \<Rightarrow> 'st handled" where
  "incrOp ops args =
     (if length args \<noteq> 1 then says (ErrWrongArgs ''incr'')
      else call Err intV ops (StringC (Incr (arg args 0) 1)))"

definition decrOp :: "('st, 's) operations \<Rightarrow> Value list \<Rightarrow> 'st \<Rightarrow> 'st handled" where
  "decrOp ops args =
     (if length args \<noteq> 1 then says (ErrWrongArgs ''decr'')
      else call Err intV ops (StringC (Incr (arg args 0) (-1))))"

definition incrbyOp :: "('st, 's) operations \<Rightarrow> Value list \<Rightarrow> 'st \<Rightarrow> 'st handled" where
  "incrbyOp ops args =
     (if length args \<noteq> 2 then says (ErrWrongArgs ''incrby'')
      else case ParseInt (arg args 1) of
             Inl _ \<Rightarrow> says (Err errInt)
           | Inr delta \<Rightarrow> call Err intV ops (StringC (Incr (arg args 0) delta)))"

definition decrbyOp :: "('st, 's) operations \<Rightarrow> Value list \<Rightarrow> 'st \<Rightarrow> 'st handled" where
  "decrbyOp ops args =
     (if length args \<noteq> 2 then says (ErrWrongArgs ''decrby'')
      else case ParseInt (arg args 1) of
             Inl _ \<Rightarrow> says (Err errInt)
           | Inr delta \<Rightarrow> call Err intV ops (StringC (Incr (arg args 0) (wrap64 (- delta)))))"

definition appendCmdOp :: "('st, 's) operations \<Rightarrow> Value list \<Rightarrow> 'st \<Rightarrow> 'st handled" where
  "appendCmdOp ops args =
     (if length args \<noteq> 2 then says (ErrWrongArgs ''append'')
      else call Err intV ops (StringC (Append (arg args 0) (arg args 1))))"

definition getrangeOp :: "('st, 's) operations \<Rightarrow> Value list \<Rightarrow> 'st \<Rightarrow> 'st handled" where
  "getrangeOp ops args =
     (if length args \<noteq> 3 then says (ErrWrongArgs ''getrange'')
      else case (ParseInt (arg args 1), ParseInt (arg args 2)) of
             (Inr start, Inr stop) \<Rightarrow>
               call Err (\<lambda>r. Bulk (case strOf r of Some s \<Rightarrow> s | None \<Rightarrow> [])) ops (StringC (GetRange (arg args 0) start stop))
           | _ \<Rightarrow> says (Err errInt))"

definition setrangeOp :: "('st, 's) operations \<Rightarrow> Value list \<Rightarrow> 'st \<Rightarrow> 'st handled" where
  "setrangeOp ops args =
     (if length args \<noteq> 3 then says (ErrWrongArgs ''setrange'')
      else case ParseInt (arg args 1) of
             Inl _ \<Rightarrow> says (Err errInt)
           | Inr offset \<Rightarrow>
               if offset < 0 then says (Err ''offset is out of range'')
               else call Err intV ops (StringC (SetRange (arg args 0) offset (arg args 2))))"

definition parseBitfieldOffset :: "string \<Rightarrow> string \<Rightarrow> string + int" where
  "parseBitfieldOffset offsetStr encoding =
     (let bad = ''ERR bit offset is not an integer or out of range''
      in if offsetStr \<noteq> [] \<and> hd offsetStr = CHR ''#''
         then (case ParseInt (tl offsetStr) of
                 Inl _ \<Rightarrow> Inl bad
               | Inr multiplier \<Rightarrow>
                   let bitWidth = (if length encoding > 1
                                   then (case ParseInt (tl encoding) of Inr bw \<Rightarrow> bw | Inl _ \<Rightarrow> 8) else 8)
                   in Inr (wrap64 (multiplier * bitWidth)))
         else (case ParseInt offsetStr of Inl _ \<Rightarrow> Inl bad | Inr off \<Rightarrow> Inr off))"

fun bitfieldParse :: "string \<Rightarrow> string list \<Rightarrow> Value + BitFieldOp list" where
  "bitfieldParse overflow [] = Inr []"
| "bitfieldParse overflow (a # rest) =
     (let opType = ToUpper a
      in if opType = ''GET''
         then (case rest of
                 enc # off # rest' \<Rightarrow>
                   (case parseBitfieldOffset off enc of
                      Inl e \<Rightarrow> Inl (Err e)
                    | Inr offset \<Rightarrow>
                        map_sum id (\<lambda>bops. \<lparr>OpType = ''GET'', Encoding = enc, Offset = offset, OpValue = 0, Overflow = []\<rparr> # bops)
                          (bitfieldParse overflow rest'))
               | _ \<Rightarrow> Inl (Err errSyntax))
         else if opType = ''SET'' \<or> opType = ''INCRBY''
         then (case rest of
                 enc # off # v # rest' \<Rightarrow>
                   (case parseBitfieldOffset off enc of
                      Inl e \<Rightarrow> Inl (Err e)
                    | Inr offset \<Rightarrow>
                        (case ParseInt v of
                           Inl _ \<Rightarrow> Inl (Err errInt)
                         | Inr n \<Rightarrow>
                             map_sum id (\<lambda>bops. \<lparr>OpType = opType, Encoding = enc, Offset = offset, OpValue = n, Overflow = overflow\<rparr> # bops)
                               (bitfieldParse overflow rest')))
               | _ \<Rightarrow> Inl (Err errSyntax))
         else if opType = ''OVERFLOW''
         then (case rest of
                 [] \<Rightarrow> Inl (Err errSyntax)
               | m # rest' \<Rightarrow>
                   if ToUpper m \<in> {''WRAP'', ''SAT'', ''FAIL''} then bitfieldParse (ToUpper m) rest'
                   else Inl (Err ''Invalid OVERFLOW type specified''))
         else Inl (Err errSyntax))"

definition bitfieldOp :: "('st, 's) operations \<Rightarrow> Value list \<Rightarrow> 'st \<Rightarrow> 'st handled" where
  "bitfieldOp ops args =
     (if args = [] then says (ErrWrongArgs ''bitfield'')
      else case bitfieldParse ''WRAP'' (bulks (tl args)) of
             Inl e \<Rightarrow> says e
           | Inr bops \<Rightarrow> call Err intOptsV ops (StringC (BitField (arg args 0) bops)))"

definition strlenOp :: "('st, 's) operations \<Rightarrow> Value list \<Rightarrow> 'st \<Rightarrow> 'st handled" where
  "strlenOp ops args =
     (if length args \<noteq> 1 then says (ErrWrongArgs ''strlen'')
      else call errTyped intV ops (StringC (StrLen (arg args 0))))"

fun getexOptions :: "time \<Rightarrow> string list \<Rightarrow> int \<times> bool \<Rightarrow> Value + (int \<times> bool)" where
  "getexOptions now [] o' = Inr o'"
| "getexOptions now (a # rest) (ttl, persist') =
     (let opt = ToUpper a
      in if opt \<in> {''EX'', ''PX'', ''EXAT'', ''PXAT''}
         then (case rest of
                 [] \<Rightarrow> Inl (Err errSyntax)
               | v # rest' \<Rightarrow>
                   (case ParseInt v of
                      Inl _ \<Rightarrow> Inl (Err errInt)
                    | Inr n \<Rightarrow> getexOptions now rest' (setExpiryOption now opt n, persist')))
         else if opt = ''PERSIST'' then getexOptions now rest (ttl, True)
         else Inl (Err errSyntax))"

definition getexOpAt :: "time \<Rightarrow> ('st, 's) operations \<Rightarrow> Value list \<Rightarrow> 'st \<Rightarrow> 'st handled" where
  "getexOpAt now ops args =
     (if args = [] then says (ErrWrongArgs ''getex'')
      else case getexOptions now (bulks (tl args)) (0, False) of
             Inl e \<Rightarrow> says e
           | Inr (ttl, persist') \<Rightarrow> call errTyped strV ops (StringC (GetEx (arg args 0) ttl persist')))"

definition getexOp :: "('st, 's) operations \<Rightarrow> Value list \<Rightarrow> 'st \<Rightarrow> 'st handled" where
  "getexOp ops args st = getexOpAt (clockOf ops st) ops args st"

definition getdelOp :: "('st, 's) operations \<Rightarrow> Value list \<Rightarrow> 'st \<Rightarrow> 'st handled" where
  "getdelOp ops args =
     (if length args \<noteq> 1 then says (ErrWrongArgs ''getdel'')
      else call errTyped strV ops (StringC (GetDel (arg args 0))))"

definition getsetOp :: "('st, 's) operations \<Rightarrow> Value list \<Rightarrow> 'st \<Rightarrow> 'st handled" where
  "getsetOp ops args =
     (if length args \<noteq> 2 then says (ErrWrongArgs ''getset'')
      else call errTyped strV ops (StringC (GetSet (arg args 0) (arg args 1))))"

definition incrbyfloatOp :: "'s floats \<Rightarrow> ('st, 's) operations \<Rightarrow> Value list \<Rightarrow> 'st \<Rightarrow> 'st handled" where
  "incrbyfloatOp fl ops args =
     (if length args \<noteq> 2 then says (ErrWrongArgs ''incrbyfloat'')
      else case ParseFloat fl (arg args 1) of
             None \<Rightarrow> says (Err ''value is not a valid float'')
           | Some delta \<Rightarrow> call errTyped (scoreV fl) ops (StringC (IncrByFloat (arg args 0) delta)))"

section \<open>Key commands\<close>

definition delOp :: "('st, 's) operations \<Rightarrow> Value list \<Rightarrow> 'st \<Rightarrow> 'st handled" where
  "delOp ops args =
     (if args = [] then says (ErrWrongArgs ''del'')
      else call Err intV ops (KeyC (Del (bulks args))))"

definition existsOp :: "('st, 's) operations \<Rightarrow> Value list \<Rightarrow> 'st \<Rightarrow> 'st handled" where
  "existsOp ops args =
     (if args = [] then says (ErrWrongArgs ''exists'')
      else call Err intV ops (KeyC (Exists (bulks args))))"

fun expireFlags :: "string list \<Rightarrow> ExpireOptions \<Rightarrow> Value + ExpireOptions" where
  "expireFlags [] o' = Inr o'"
| "expireFlags (a # rest) o' =
     (let opt = ToUpper a
      in if opt = ''NX'' then expireFlags rest (o'\<lparr>ExpireOptions.NX := True\<rparr>)
         else if opt = ''XX'' then expireFlags rest (o'\<lparr>ExpireOptions.XX := True\<rparr>)
         else if opt = ''GT'' then expireFlags rest (o'\<lparr>ExpireOptions.GT := True\<rparr>)
         else if opt = ''LT'' then expireFlags rest (o'\<lparr>ExpireOptions.LT := True\<rparr>)
         else Inl (Err (''Unsupported option '' @ a)))"

definition parseExpireOptions :: "Value list \<Rightarrow> Value + ExpireOptions" where
  "parseExpireOptions args =
     (case expireFlags (bulks args) \<lparr>ExpireOptions.NX = False, XX = False, GT = False, LT = False\<rparr> of
        Inl e \<Rightarrow> Inl e
      | Inr o' \<Rightarrow>
          if ExpireOptions.NX o' \<and> (ExpireOptions.XX o' \<or> ExpireOptions.GT o' \<or> ExpireOptions.LT o')
          then Inl (Err ''NX and XX, GT or LT options at the same time are not compatible'')
          else if ExpireOptions.GT o' \<and> ExpireOptions.LT o'
          then Inl (Err ''GT and LT options at the same time are not compatible'')
          else Inr o')"

text \<open>The common body of the four expiry handlers; the method call is \<open>c\<close>.\<close>

definition expireWith ::
  "string \<Rightarrow> (int \<Rightarrow> ExpireOptions \<Rightarrow> KeyCmd) \<Rightarrow> ('st, 's) operations \<Rightarrow> Value list \<Rightarrow> 'st \<Rightarrow> 'st handled" where
  "expireWith name c ops args =
     (if length args < 2 then says (ErrWrongArgs name)
      else case ParseInt (arg args 1) of
             Inl _ \<Rightarrow> says (Err errInt)
           | Inr n \<Rightarrow>
               (case parseExpireOptions (drop 2 args) of
                  Inl e \<Rightarrow> says e
                | Inr opts \<Rightarrow> call Err boolV ops (KeyC (c n opts))))"

definition expireOp :: "('st, 's) operations \<Rightarrow> Value list \<Rightarrow> 'st \<Rightarrow> 'st handled" where
  "expireOp ops args = expireWith ''expire'' (\<lambda>n. Expire (arg args 0) (seconds n)) ops args"

definition pexpireOp :: "('st, 's) operations \<Rightarrow> Value list \<Rightarrow> 'st \<Rightarrow> 'st handled" where
  "pexpireOp ops args = expireWith ''pexpire'' (\<lambda>n. Expire (arg args 0) (millis n)) ops args"

definition expireatOp :: "('st, 's) operations \<Rightarrow> Value list \<Rightarrow> 'st \<Rightarrow> 'st handled" where
  "expireatOp ops args = expireWith ''expireat'' (\<lambda>n. ExpireAt (arg args 0) (timeUnix n)) ops args"

definition pexpireatOp :: "('st, 's) operations \<Rightarrow> Value list \<Rightarrow> 'st \<Rightarrow> 'st handled" where
  "pexpireatOp ops args = expireWith ''pexpireat'' (\<lambda>n. ExpireAt (arg args 0) (timeUnixMilli n)) ops args"

definition objectEncoding :: "KeyType \<Rightarrow> Value" where
  "objectEncoding kt =
     (case kt of
        TypeNone \<Rightarrow> Err ''no such key''
      | TypeString \<Rightarrow> Bulk ''raw''
      | TypeHash \<Rightarrow> Bulk ''listpack''
      | TypeList \<Rightarrow> Bulk ''quicklist''
      | TypeSet \<Rightarrow> Bulk ''listpack''
      | TypeZSet \<Rightarrow> Bulk ''skiplist''
      | _ \<Rightarrow> Bulk ''raw'')"

definition objectOp :: "('st, 's) operations \<Rightarrow> Value list \<Rightarrow> 'st \<Rightarrow> 'st handled" where
  "objectOp ops args =
     (if args = [] then says (ErrWrongArgs ''object'')
      else let sub = ToUpper (arg args 0)
           in if sub = ''ENCODING''
              then (if length args \<noteq> 2 then says (ErrWrongArgs ''object encoding'')
                    else call Err (\<lambda>r. objectEncoding (typeOf r)) ops (KeyC (Type (arg args 1))))
              else if sub = ''HELP''
              then says (Arr [Bulk ''OBJECT <subcommand> [<arg> ...]. Subcommands are:'', Bulk ''ENCODING <key>'',
                     Bulk ''    Return the kind of internal representation used to store the value at <key>.''])
              else if sub \<in> {''FREQ'', ''IDLETIME'', ''REFCOUNT''}
              then says (Err ''An LFU maxmemory policy is not selected, access frequency not tracked. Please note that when switching between maxmemory policies at runtime LFU and LRU data will take some time to adjust.'')
              else says (Err (''Unknown subcommand or wrong number of arguments for '' @ quoted (ToLower (arg args 0))
                     @ ''. Try OBJECT HELP.'')))"

definition randomKeyOp :: "('st, 's) operations \<Rightarrow> Value list \<Rightarrow> 'st \<Rightarrow> 'st handled" where
  "randomKeyOp ops args =
     (if args \<noteq> [] then says (ErrWrongArgs ''randomkey'')
      else call Err strV ops (KeyC RandomKey))"

definition copyOp :: "('st, 's) operations \<Rightarrow> Value list \<Rightarrow> 'st \<Rightarrow> 'st handled" where
  "copyOp ops args =
     (if length args < 2 then says (ErrWrongArgs ''copy'')
      else let replace = (\<exists>a \<in> set (bulks (drop 2 args)). ToUpper a = ''REPLACE'')
           in call Err boolV ops (KeyC (Copy (arg args 0) (arg args 1) replace)))"

definition ttlOp :: "('st, 's) operations \<Rightarrow> Value list \<Rightarrow> 'st \<Rightarrow> 'st handled" where
  "ttlOp ops args =
     (if length args \<noteq> 1 then says (ErrWrongArgs ''ttl'')
      else call Err intV ops (KeyC (TTL (arg args 0))))"

definition pttlOp :: "('st, 's) operations \<Rightarrow> Value list \<Rightarrow> 'st \<Rightarrow> 'st handled" where
  "pttlOp ops args =
     (if length args \<noteq> 1 then says (ErrWrongArgs ''pttl'')
      else call Err intV ops (KeyC (PTTL (arg args 0))))"

definition persistOp :: "('st, 's) operations \<Rightarrow> Value list \<Rightarrow> 'st \<Rightarrow> 'st handled" where
  "persistOp ops args =
     (if length args \<noteq> 1 then says (ErrWrongArgs ''persist'')
      else call Err boolV ops (KeyC (Persist (arg args 0))))"

definition keysOp :: "('st, 's) operations \<Rightarrow> Value list \<Rightarrow> 'st \<Rightarrow> 'st handled" where
  "keysOp ops args =
     (if length args \<noteq> 1 then says (ErrWrongArgs ''keys'')
      else call Err bulksV ops (KeyC (Keys (arg args 0))))"

definition typeCmdOp :: "('st, 's) operations \<Rightarrow> Value list \<Rightarrow> 'st \<Rightarrow> 'st handled" where
  "typeCmdOp ops args =
     (if length args \<noteq> 1 then says (ErrWrongArgs ''type'')
      else call Err (\<lambda>r. SimpleVal (keyTypeName (typeOf r))) ops (KeyC (Type (arg args 0))))"

definition renameOp :: "('st, 's) operations \<Rightarrow> Value list \<Rightarrow> 'st \<Rightarrow> 'st handled" where
  "renameOp ops args =
     (if length args \<noteq> 2 then says (ErrWrongArgs ''rename'')
      else call Err okV ops (KeyC (Rename (arg args 0) (arg args 1))))"

definition unlinkOp :: "('st, 's) operations \<Rightarrow> Value list \<Rightarrow> 'st \<Rightarrow> 'st handled" where
  "unlinkOp ops args = delOp ops args"

section \<open>HyperLogLog commands\<close>

definition pfaddOp :: "('st, 's) operations \<Rightarrow> Value list \<Rightarrow> 'st \<Rightarrow> 'st handled" where
  "pfaddOp ops args =
     (if args = [] then says (ErrWrongArgs ''pfadd'')
      else call errTyped intV ops (HllC (PFAdd (arg args 0) (bulks (tl args)))))"

definition pfcountOp :: "('st, 's) operations \<Rightarrow> Value list \<Rightarrow> 'st \<Rightarrow> 'st handled" where
  "pfcountOp ops args =
     (if args = [] then says (ErrWrongArgs ''pfcount'')
      else call errTyped intV ops (HllC (PFCount (bulks args))))"

definition pfmergeOp :: "('st, 's) operations \<Rightarrow> Value list \<Rightarrow> 'st \<Rightarrow> 'st handled" where
  "pfmergeOp ops args =
     (if length args < 2 then says (ErrWrongArgs ''pfmerge'')
      else call errTyped okV ops (HllC (PFMerge (arg args 0) (bulks (tl args)))))"

section \<open>Bitmap commands\<close>

definition errBitOffset :: string where
  "errBitOffset = ''bit offset is not an integer or out of range''"

definition errBit :: string where
  "errBit = ''bit is not an integer or out of range''"

definition setbitOp :: "('st, 's) operations \<Rightarrow> Value list \<Rightarrow> 'st \<Rightarrow> 'st handled" where
  "setbitOp ops args =
     (if length args \<noteq> 3 then says (ErrWrongArgs ''setbit'')
      else case ParseInt (arg args 1) of
             Inl _ \<Rightarrow> says (Err errBitOffset)
           | Inr offset \<Rightarrow>
               if offset < 0 then says (Err errBitOffset)
               else case ParseInt (arg args 2) of
                      Inl _ \<Rightarrow> says (Err errBit)
                    | Inr v \<Rightarrow>
                        if v \<noteq> 0 \<and> v \<noteq> 1 then says (Err errBit)
                        else call errTyped intV ops (BitC (SetBit (arg args 0) offset v)))"

definition getbitOp :: "('st, 's) operations \<Rightarrow> Value list \<Rightarrow> 'st \<Rightarrow> 'st handled" where
  "getbitOp ops args =
     (if length args \<noteq> 2 then says (ErrWrongArgs ''getbit'')
      else case ParseInt (arg args 1) of
             Inl _ \<Rightarrow> says (Err errBitOffset)
           | Inr offset \<Rightarrow>
               if offset < 0 then says (Err errBitOffset)
               else call errTyped intV ops (BitC (GetBit (arg args 0) offset)))"

text \<open>The optional trailing arguments: an integer with its default, and the unit.\<close>

definition optInt64 :: "int \<Rightarrow> Value list \<Rightarrow> nat \<Rightarrow> Value + int" where
  "optInt64 dflt args i =
     (if i < length args then (case ParseInt (arg args i) of Inl _ \<Rightarrow> Inl (Err errInt) | Inr n \<Rightarrow> Inr n)
      else Inr dflt)"

definition bitUnit :: "Value list \<Rightarrow> nat \<Rightarrow> Value + bool" where
  "bitUnit args i =
     (if i < length args
      then (let unit = ToUpper (arg args i)
            in if unit \<noteq> ''BYTE'' \<and> unit \<noteq> ''BIT'' then Inl (Err errSyntax) else Inr (unit = ''BIT''))
      else Inr False)"

definition bitcountOp :: "('st, 's) operations \<Rightarrow> Value list \<Rightarrow> 'st \<Rightarrow> 'st handled" where
  "bitcountOp ops args =
     (if args = [] then says (ErrWrongArgs ''bitcount'')
      else let range = (if length args \<ge> 3 then args else [])
           in case optInt64 0 range 1 of
                Inl e \<Rightarrow> says e
              | Inr start \<Rightarrow>
                  (case optInt64 (-1) range 2 of
                     Inl e \<Rightarrow> says e
                   | Inr stop \<Rightarrow>
                       (case bitUnit args 3 of
                          Inl e \<Rightarrow> says e
                        | Inr useBit \<Rightarrow> call errTyped intV ops (BitC (BitCount (arg args 0) start stop useBit)))))"

definition bitopOp :: "('st, 's) operations \<Rightarrow> Value list \<Rightarrow> 'st \<Rightarrow> 'st handled" where
  "bitopOp ops args =
     (if length args < 3 then says (ErrWrongArgs ''bitop'')
      else let oper = ToUpper (arg args 0); keys = bulks (drop 2 args)
           in if oper \<notin> {''AND'', ''OR'', ''XOR'', ''NOT''} then says (Err errSyntax)
              else if oper = ''NOT'' \<and> length keys \<noteq> 1 then says (Err ''BITOP NOT requires one and only one key'')
              else call errTyped intV ops (BitC (BitOp oper (arg args 1) keys)))"

definition bitposOp :: "('st, 's) operations \<Rightarrow> Value list \<Rightarrow> 'st \<Rightarrow> 'st handled" where
  "bitposOp ops args =
     (if length args < 2 then says (ErrWrongArgs ''bitpos'')
      else case ParseInt (arg args 1) of
             Inl _ \<Rightarrow> says (Err errBit)
           | Inr b \<Rightarrow>
               if b \<noteq> 0 \<and> b \<noteq> 1 then says (Err errBit)
               else case optInt64 0 args 2 of
                      Inl e \<Rightarrow> says e
                    | Inr start \<Rightarrow>
                        (case optInt64 (-1) args 3 of
                           Inl e \<Rightarrow> says e
                         | Inr stop \<Rightarrow>
                             (case bitUnit args 4 of
                                Inl e \<Rightarrow> says e
                              | Inr useBit \<Rightarrow>
                                  call errTyped intV ops (BitC (BitPos (arg args 0) b start stop useBit)))))"

section \<open>Server commands\<close>

definition infoText :: "Handler \<Rightarrow> 's floats \<Rightarrow> int \<Rightarrow> int \<Rightarrow> string" where
  "infoText h fl uptime size' =
     concat (map (\<lambda>l. l @ [LF])
       [''# Server'', ''redis_version:7.0.0-postkeys'', ''os:'' @ goos h, ''arch:'' @ goarch h, [],
        ''# Stats'', ''uptime_in_seconds:'' @ FormatInt (wholeSeconds fl uptime),
        ''uptime_in_days:'' @ FormatInt (wholeDays fl uptime), [],
        ''# Keyspace'', ''db0:keys='' @ FormatInt size'])"

definition infoOp :: "Handler \<Rightarrow> 's floats \<Rightarrow> ('st, 's) operations \<Rightarrow> Value list \<Rightarrow> 'st \<Rightarrow> 'st handled" where
  "infoOp h fl ops args st =
     (let uptime = until (startTime h) (clockOf ops st)
      in case exec ops DBSize st of
           (Inl _, st) \<Rightarrow> says (Bulk (infoText h fl uptime 0)) st
         | (Inr r, st) \<Rightarrow> says (Bulk (infoText h fl uptime (intOf r))) st)"

definition dbsizeOp :: "('st, 's) operations \<Rightarrow> Value list \<Rightarrow> 'st \<Rightarrow> 'st handled" where
  "dbsizeOp ops args = call Err intV ops DBSize"

end
