(* ===== verification/HandlerCollections.thy ===== *)
theory HandlerCollections
  imports HandlerStrings
begin

text \<open>
  The hash, list and set handlers of \<^verbatim>\<open>src/internal/handler/handler_ops.go\<close>, the
  blocking pops and the SCAN family.  The loop of a blocking command is a partial
  function: None is a command that never returns.  Where the code ranges over a
  Go map, the model takes the order of the association list.
\<close>

section \<open>Hash commands\<close>

definition hgetOp :: "('st, 's) operations \<Rightarrow> Value list \<Rightarrow> 'st \<Rightarrow> 'st handled" where
  "hgetOp ops args =
     (if length args \<noteq> 2 then says (ErrWrongArgs ''hget'')
      else call Err strV ops (HashC (HGet (arg args 0) (arg args 1))))"

definition hsetOp :: "('st, 's) operations \<Rightarrow> Value list \<Rightarrow> 'st \<Rightarrow> 'st handled" where
  "hsetOp ops args =
     (if length args < 3 \<or> (length args - 1) mod 2 \<noteq> 0 then says (ErrWrongArgs ''hset'')
      else call errTyped intV ops (HashC (HSet (arg args 0) (toMap (pairUp (bulks (tl args)))))))"

definition hdelOp :: "('st, 's) operations \<Rightarrow> Value list \<Rightarrow> 'st \<Rightarrow> 'st handled" where
  "hdelOp ops args =
     (if length args < 2 then says (ErrWrongArgs ''hdel'')
      else call Err intV ops (HashC (HDel (arg args 0) (bulks (tl args)))))"

definition hgetallOp :: "ctx \<Rightarrow> ('st, 's) operations \<Rightarrow> Value list \<Rightarrow> 'st \<Rightarrow> 'st handled" where
  "hgetallOp ctx ops args =
     (if length args \<noteq> 1 then says (ErrWrongArgs ''hgetall'')
      else call Err (\<lambda>r. if resp3 ctx then MapVal (pairsOf r) else Arr (flatPairs (pairsOf r))) ops
             (HashC (HGetAll (arg args 0))))"

definition hmgetOp :: "('st, 's) operations \<Rightarrow> Value list \<Rightarrow> 'st \<Rightarrow> 'st handled" where
  "hmgetOp ops args =
     (if length args < 2 then says (ErrWrongArgs ''hmget'')
      else call Err optsV ops (HashC (HMGet (arg args 0) (bulks (tl args)))))"

definition hmsetOp :: "('st, 's) operations \<Rightarrow> Value list \<Rightarrow> 'st \<Rightarrow> 'st handled" where
  "hmsetOp ops args =
     (if length args < 3 \<or> (length args - 1) mod 2 \<noteq> 0 then says (ErrWrongArgs ''hmset'')
      else call errTyped okV ops (HashC (HSet (arg args 0) (toMap (pairUp (bulks (tl args)))))))"

definition hexistsOp :: "('st, 's) operations \<Rightarrow> Value list \<Rightarrow> 'st \<Rightarrow> 'st handled" where
  "hexistsOp ops args =
     (if length args \<noteq> 2 then says (ErrWrongArgs ''hexists'')
      else call Err boolV ops (HashC (HExists (arg args 0) (arg args 1))))"

definition hkeysOp :: "('st, 's) operations \<Rightarrow> Value list \<Rightarrow> 'st \<Rightarrow> 'st handled" where
  "hkeysOp ops args =
     (if length args \<noteq> 1 then says (ErrWrongArgs ''hkeys'')
      else call Err bulksV ops (HashC (HKeys (arg args 0))))"

definition hvalsOp :: "('st, 's) operations \<Rightarrow> Value list \<Rightarrow> 'st \<Rightarrow> 'st handled" where
  "hvalsOp ops args =
     (if length args \<noteq> 1 then says (ErrWrongArgs ''hvals'')
      else call Err bulksV ops (HashC (HVals (arg args 0))))"

definition hlenOp :: "('st, 's) operations \<Rightarrow> Value list \<Rightarrow> 'st \<Rightarrow> 'st handled" where
  "hlenOp ops args =
     (if length args \<noteq> 1 then says (ErrWrongArgs ''hlen'')
      else call Err intV ops (HashC (HLen (arg args 0))))"

definition hincrbyOp :: "('st, 's) operations \<Rightarrow> Value list \<Rightarrow> 'st \<Rightarrow> 'st handled" where
  "hincrbyOp ops args =
     (if length args \<noteq> 3 then says (ErrWrongArgs ''hincrby'')
      else case ParseInt (arg args 2) of
             Inl _ \<Rightarrow> says (Err errInt)
           | Inr n \<Rightarrow> call errTyped intV ops (HashC (HIncrBy (arg args 0) (arg args 1) n)))"

definition hincrbyfloatOp :: "'s floats \<Rightarrow> ('st, 's) operations \<Rightarrow> Value list \<Rightarrow> 'st \<Rightarrow> 'st handled" where
  "hincrbyfloatOp fl ops args =
     (if length args \<noteq> 3 then says (ErrWrongArgs ''hincrbyfloat'')
      else case ParseFloat fl (arg args 2) of
             None \<Rightarrow> says (Err ''value is not a valid float'')
           | Some x \<Rightarrow> call errTyped (scoreV fl) ops (HashC (HIncrByFloat (arg args 0) (arg args 1) x)))"

definition hsetnxOp :: "('st, 's) operations \<Rightarrow> Value list \<Rightarrow> 'st \<Rightarrow> 'st handled" where
  "hsetnxOp ops args =
     (if length args \<noteq> 3 then says (ErrWrongArgs ''hsetnx'')
      else call errTyped boolV ops (HashC (HSetNX (arg args 0) (arg args 1) (arg args 2))))"

fun matchOption :: "string list \<Rightarrow> string \<Rightarrow> string" where
  "matchOption (a # v # rest) pattern = matchOption rest (if ToUpper a = ''MATCH'' then v else pattern)"
| "matchOption _ pattern = pattern"

definition hscanOp :: "('st, 's) operations \<Rightarrow> Value list \<Rightarrow> 'st \<Rightarrow> 'st handled" where
  "hscanOp ops args =
     (if length args < 2 then says (ErrWrongArgs ''hscan'')
      else let pattern = matchOption (bulks (drop 2 args)) []
           in call Err (\<lambda>r. Arr [Bulk ''0'',
                  Arr (flatPairs (filter (\<lambda>(f, v). pattern \<noteq> [] \<and> pattern \<noteq> ''*'' \<longrightarrow> fst (matchGlob pattern f)) (pairsOf r)))])
                ops (HashC (HGetAll (arg args 0))))"

text \<open>The random-element commands: a single reply without a count, an array with one.\<close>

definition firstBulk :: "'s reply \<Rightarrow> Value" where
  "firstBulk r = (case strsOf r of [] \<Rightarrow> NullBulk | s # _ \<Rightarrow> Bulk s)"

definition hrandfieldOp :: "('st, 's) operations \<Rightarrow> Value list \<Rightarrow> 'st \<Rightarrow> 'st handled" where
  "hrandfieldOp ops args =
     (if length args < 1 \<or> length args > 3 then says (ErrWrongArgs ''hrandfield'')
      else if length args = 1 then call errTyped firstBulk ops (HashC (HRandField (arg args 0) 1 False))
      else case ParseInt (arg args 1) of
             Inl _ \<Rightarrow> says (Err errInt)
           | Inr n \<Rightarrow>
               if length args = 3 \<and> ToUpper (arg args 2) \<noteq> ''WITHVALUES'' then says (Err errSyntax)
               else call errTyped bulksV ops (HashC (HRandField (arg args 0) n (length args = 3))))"

definition srandmemberOp :: "('st, 's) operations \<Rightarrow> Value list \<Rightarrow> 'st \<Rightarrow> 'st handled" where
  "srandmemberOp ops args =
     (if length args < 1 \<or> length args > 2 then says (ErrWrongArgs ''srandmember'')
      else if length args = 1 then call errTyped firstBulk ops (SetC (SRandMember (arg args 0) 1))
      else case ParseInt (arg args 1) of
             Inl _ \<Rightarrow> says (Err errInt)
           | Inr n \<Rightarrow> call errTyped bulksV ops (SetC (SRandMember (arg args 0) n)))"

section \<open>WATCH and UNWATCH\<close>

definition watchOp :: "('st, 's) operations \<Rightarrow> Value list \<Rightarrow> 'st \<Rightarrow> 'st handled" where
  "watchOp ops args = says OK"

definition unwatchOp :: "('st, 's) operations \<Rightarrow> Value list \<Rightarrow> 'st \<Rightarrow> 'st handled" where
  "unwatchOp ops args = says OK"

section \<open>List commands\<close>

definition pushWith :: "string \<Rightarrow> (string \<Rightarrow> string list \<Rightarrow> ListCmd) \<Rightarrow> Handler \<Rightarrow> ('st, 's) operations \<Rightarrow> Value list \<Rightarrow> 'st \<Rightarrow> 'st handled" where
  "pushWith name c h ops args =
     (if length args < 2 then says (ErrWrongArgs name)
      else callThen errTyped ops (ListC (c (arg args 0) (bulks (tl args))))
             (\<lambda>r st. says (intV r) (if listNotifier h then notifyPush ops (arg args 0) st else st)))"

definition lpushOp :: "Handler \<Rightarrow> ('st, 's) operations \<Rightarrow> Value list \<Rightarrow> 'st \<Rightarrow> 'st handled" where
  "lpushOp = pushWith ''lpush'' LPush"

definition rpushOp :: "Handler \<Rightarrow> ('st, 's) operations \<Rightarrow> Value list \<Rightarrow> 'st \<Rightarrow> 'st handled" where
  "rpushOp = pushWith ''rpush'' RPush"

definition lpopOp :: "('st, 's) operations \<Rightarrow> Value list \<Rightarrow> 'st \<Rightarrow> 'st handled" where
  "lpopOp ops args =
     (if length args \<noteq> 1 then says (ErrWrongArgs ''lpop'')
      else call Err strV ops (ListC (LPop (arg args 0))))"

definition rpopOp :: "('st, 's) operations \<Rightarrow> Value list \<Rightarrow> 'st \<Rightarrow> 'st handled" where
  "rpopOp ops args =
     (if length args \<noteq> 1 then says (ErrWrongArgs ''rpop'')
      else call Err strV ops (ListC (RPop (arg args 0))))"

definition llenOp :: "('st, 's) operations \<Rightarrow> Value list \<Rightarrow> 'st \<Rightarrow> 'st handled" where
  "llenOp ops args =
     (if length args \<noteq> 1 then says (ErrWrongArgs ''llen'')
      else call Err intV ops (ListC (LLen (arg args 0))))"

definition lrangeOp :: "('st, 's) operations \<Rightarrow> Value list \<Rightarrow> 'st \<Rightarrow> 'st handled" where
  "lrangeOp ops args =
     (if length args \<noteq> 3 then says (ErrWrongArgs ''lrange'')
      else case (ParseInt (arg args 1), ParseInt (arg args 2)) of
             (Inr start, Inr stop) \<Rightarrow> call Err bulksV ops (ListC (LRange (arg args 0) start stop))
           | _ \<Rightarrow> says (Err errInt))"

definition lindexOp :: "('st, 's) operations \<Rightarrow> Value list \<Rightarrow> 'st \<Rightarrow> 'st handled" where
  "lindexOp ops args =
     (if length args \<noteq> 2 then says (ErrWrongArgs ''lindex'')
      else case ParseInt (arg args 1) of
             Inl _ \<Rightarrow> says (Err errInt)
           | Inr i \<Rightarrow> call Err strV ops (ListC (LIndex (arg args 0) i)))"

definition lremOp :: "('st, 's) operations \<Rightarrow> Value list \<Rightarrow> 'st \<Rightarrow> 'st handled" where
  "lremOp ops args =
     (if length args \<noteq> 3 then says (ErrWrongArgs ''lrem'')
      else case ParseInt (arg args 1) of
             Inl _ \<Rightarrow> says (Err errInt)
           | Inr n \<Rightarrow> call errTyped intV ops (ListC (LRem (arg args 0) n (arg args 2))))"

definition ltrimOp :: "('st, 's) operations \<Rightarrow> Value list \<Rightarrow> 'st \<Rightarrow> 'st handled" where
  "ltrimOp ops args =
     (if length args \<noteq> 3 then says (ErrWrongArgs ''ltrim'')
      else case (ParseInt (arg args 1), ParseInt (arg args 2)) of
             (Inr start, Inr stop) \<Rightarrow> call errTyped okV ops (ListC (LTrim (arg args 0) start stop))
           | _ \<Rightarrow> says (Err errInt))"

definition rpoplpushOp :: "('st, 's) operations \<Rightarrow> Value list \<Rightarrow> 'st \<Rightarrow> 'st handled" where
  "rpoplpushOp ops args =
     (if length args \<noteq> 2 then says (ErrWrongArgs ''rpoplpush'')
      else call errTyped strV ops (ListC (RPopLPush (arg args 0) (arg args 1))))"

text \<open>The options of LPOS, collected as (rank, count, maxlen).\<close>

fun lposOptions :: "string list \<Rightarrow> int \<times> int \<times> int \<Rightarrow> Value + int \<times> int \<times> int" where
  "lposOptions [] o' = Inr o'"
| "lposOptions (a # rest) (rank, cnt, maxlen) =
     (let opt = ToUpper a
      in if opt \<in> {''RANK'', ''COUNT'', ''MAXLEN''}
         then (case rest of
                 [] \<Rightarrow> Inl (Err errSyntax)
               | v # rest' \<Rightarrow>
                   (case ParseInt v of
                      Inl _ \<Rightarrow> Inl (Err errInt)
                    | Inr n \<Rightarrow>
                        lposOptions rest'
                          (if opt = ''RANK'' then (n, cnt, maxlen)
                           else if opt = ''COUNT'' then (rank, n, maxlen) else (rank, cnt, n))))
         else lposOptions rest (rank, cnt, maxlen))"

fun posV :: "int \<Rightarrow> 's reply \<Rightarrow> Value" where
  "posV cnt (RInts ps) =
     (case ps of [] \<Rightarrow> NullBulk | p # _ \<Rightarrow> if cnt = 1 then IntVal p else Arr (map IntVal ps))"
| "posV cnt _ = NullBulk"

definition lposOp :: "('st, 's) operations \<Rightarrow> Value list \<Rightarrow> 'st \<Rightarrow> 'st handled" where
  "lposOp ops args =
     (if length args < 2 then says (ErrWrongArgs ''lpos'')
      else case lposOptions (bulks (drop 2 args)) (1, 1, 0) of
             Inl e \<Rightarrow> says e
           | Inr (rank, cnt, maxlen) \<Rightarrow>
               call errTyped (posV cnt) ops (ListC (LPos (arg args 0) (arg args 1) rank cnt maxlen)))"

definition lsetOp :: "('st, 's) operations \<Rightarrow> Value list \<Rightarrow> 'st \<Rightarrow> 'st handled" where
  "lsetOp ops args =
     (if length args \<noteq> 3 then says (ErrWrongArgs ''lset'')
      else case ParseInt (arg args 1) of
             Inl _ \<Rightarrow> says (Err errInt)
           | Inr i \<Rightarrow> call errTyped okV ops (ListC (LSet (arg args 0) i (arg args 2))))"

definition linsertOp :: "('st, 's) operations \<Rightarrow> Value list \<Rightarrow> 'st \<Rightarrow> 'st handled" where
  "linsertOp ops args =
     (if length args \<noteq> 4 then says (ErrWrongArgs ''linsert'')
      else let position = ToUpper (arg args 1)
           in if position \<noteq> ''BEFORE'' \<and> position \<noteq> ''AFTER'' then says (Err errSyntax)
              else call errTyped intV ops (ListC (LInsert (arg args 0) (arg args 2) (arg args 3) (position = ''BEFORE''))))"

section \<open>Pops from several keys\<close>

definition parseMPopHead :: "Value list \<Rightarrow> string set \<Rightarrow> (string list \<times> string \<times> int) parsed" where
  "parseMPopHead args allowedWhere =
     (if length args < 2 then Inl (Inr (Err errSyntax))
      else case ParseInt (arg args 0) of
             Inl _ \<Rightarrow> Inl (Inr (Err ''numkeys should be greater than 0''))
           | Inr numkeys \<Rightarrow>
               if numkeys < 1 then Inl (Inr (Err ''numkeys should be greater than 0''))
               else if int (length args) < wrap64 (1 + numkeys + 1) then Inl (Inr (Err errSyntax))
               else case takeKeys numkeys (bulks (tl args)) of
                      Inl r \<Rightarrow> Inl r
                    | Inr keys \<Rightarrow>
                        let whr = ToUpper (arg args (1 + nat numkeys)); rest = bulks (drop (2 + nat numkeys) args)
                        in if whr \<notin> allowedWhere then Inl (Inr (Err errSyntax))
                           else (case rest of
                                   [] \<Rightarrow> Inr (keys, whr, 1)
                                 | [opt, v] \<Rightarrow>
                                     if ToUpper opt \<noteq> ''COUNT'' then Inl (Inr (Err errSyntax))
                                     else (case ParseInt v of
                                             Inl _ \<Rightarrow> Inl (Inr (Err ''count should be greater than 0''))
                                           | Inr n \<Rightarrow>
                                               if n < 1 then Inl (Inr (Err ''count should be greater than 0''))
                                               else Inr (keys, whr, n))
                                 | _ \<Rightarrow> Inl (Inr (Err errSyntax))))"

fun keyStrsV :: "'s reply \<Rightarrow> Value" where
  "keyStrsV (RKeyStrs k vs) = Arr [Bulk k, Arr (map Bulk vs)]" | "keyStrsV _ = NullArray"

definition doLMPop :: "('st, 's) operations \<Rightarrow> string list \<Rightarrow> string \<Rightarrow> int \<Rightarrow> 'st \<Rightarrow> 'st handled" where
  "doLMPop ops keys whr cnt =
     call Err keyStrsV ops (ListC (if whr = ''LEFT'' then LMPop keys cnt else RMPop keys cnt))"

definition lmpopOp :: "('st, 's) operations \<Rightarrow> Value list \<Rightarrow> 'st \<Rightarrow> 'st handled" where
  "lmpopOp ops args =
     (case parseMPopHead args {''LEFT'', ''RIGHT''} of
        Inl r \<Rightarrow> stops r
      | Inr (keys, whr, cnt) \<Rightarrow> doLMPop ops keys whr cnt)"

fun keyMembersV :: "'s floats \<Rightarrow> 's reply \<Rightarrow> Value" where
  "keyMembersV fl (RKeyMembers k ms) =
     Arr [Bulk k, Arr (map (\<lambda>(m, s). Arr [Bulk m, Bulk (FormatFloat fl s)]) ms)]"
| "keyMembersV fl _ = NullArray"

definition doZMPop :: "'s floats \<Rightarrow> ('st, 's) operations \<Rightarrow> string list \<Rightarrow> string \<Rightarrow> int \<Rightarrow> 'st \<Rightarrow> 'st handled" where
  "doZMPop fl ops keys whr cnt =
     call Err (keyMembersV fl) ops (ZSetC (if whr = ''MIN'' then ZMPopMin keys cnt else ZMPopMax keys cnt))"

definition zmpopOp :: "'s floats \<Rightarrow> ('st, 's) operations \<Rightarrow> Value list \<Rightarrow> 'st \<Rightarrow> 'st handled" where
  "zmpopOp fl ops args =
     (case parseMPopHead args {''MIN'', ''MAX''} of
        Inl r \<Rightarrow> stops r
      | Inr (keys, whr, cnt) \<Rightarrow> doZMPop fl ops keys whr cnt)"

section \<open>Blocking pops\<close>

text \<open>
  \<open>deadlineOf\<close> is the deadline of a positive timeout.  \<open>waitStep\<close> is the rest of a
  round after an empty pop: True when the command gives up, None when it waits for ever.
\<close>

definition deadlineOf :: "'s floats \<Rightarrow> ('st, 's :: {linorder, zero}) operations \<Rightarrow> 's \<Rightarrow> 'st \<Rightarrow> time option" where
  "deadlineOf fl ops timeout st = (if timeout > 0 then Some (clockOf ops st + toDuration fl timeout) else None)"

definition waitStep :: "Handler \<Rightarrow> ctx \<Rightarrow> ('st, 's) operations \<Rightarrow> string list \<Rightarrow> time option \<Rightarrow> 'st \<Rightarrow> (bool \<times> 'st) option" where
  "waitStep h ctx ops keys deadline st =
     (if noBlock ctx \<or> (case deadline of None \<Rightarrow> False | Some d \<Rightarrow> clockOf ops st > d) then Some (True, st)
      else let st = elapse ops st; poll = blockingPollInterval h;
               waitTime = (case deadline of
                             None \<Rightarrow> poll
                           | Some d \<Rightarrow> let remaining = until (clockOf ops st) d in if remaining < poll then remaining else poll)
           in if listNotifier h
              then map_option (\<lambda>(key, st). if key \<noteq> [] then (False, st) else (ctxDone ops st, st)) (waitForKeys ops keys waitTime st)
              else (case waitTimer ops waitTime st of
                      (done', st) \<Rightarrow> Some (done' \<or> ctxDone ops st, st)))"

text \<open>The endless loop: a round returns, goes on in a new state, or never ends.\<close>

partial_function (option) rounds :: "('st \<Rightarrow> ('st handled + 'st) option) \<Rightarrow> 'st \<Rightarrow> 'st handled option" where
  "rounds round' st = (case round' st of None \<Rightarrow> None | Some (Inl r) \<Rightarrow> Some r | Some (Inr st') \<Rightarrow> rounds round' st')"

definition waitOr ::
  "Value \<Rightarrow> Handler \<Rightarrow> ctx \<Rightarrow> ('st, 's) operations \<Rightarrow> string list \<Rightarrow> time option \<Rightarrow> 'st \<Rightarrow> ('st handled + 'st) option" where
  "waitOr empty' h ctx ops keys deadline st =
     map_option (\<lambda>(gaveUp, st). if gaveUp then Inl (says empty' st) else Inr st) (waitStep h ctx ops keys deadline st)"

definition popRound ::
  "Handler \<Rightarrow> ctx \<Rightarrow> ('st, 's) operations \<Rightarrow> string list \<Rightarrow> time option \<Rightarrow> ListCmd \<Rightarrow> 'st \<Rightarrow> ('st handled + 'st) option" where
  "popRound h ctx ops keys deadline pop st =
     (case exec ops (ListC pop) st of
        (Inl e, st) \<Rightarrow> Some (Inl (if panics e then panic e st else says (Err e) st))
      | (Inr (RKeyStr k v), st) \<Rightarrow> Some (Inl (says (Arr [Bulk k, Bulk v]) st))
      | (Inr _, st) \<Rightarrow> waitOr NullBulk h ctx ops keys deadline st)"

definition blockingPop ::
  "Handler \<Rightarrow> 's floats \<Rightarrow> ctx \<Rightarrow> ('st, 's :: {linorder, zero}) operations \<Rightarrow> string list \<Rightarrow> 's \<Rightarrow> ListCmd \<Rightarrow> 'st \<Rightarrow> 'st handled option" where
  "blockingPop h fl ctx ops keys timeout pop st =
     rounds (popRound h ctx ops keys (deadlineOf fl ops timeout st) pop) st"

definition brpopOp ::
  "Handler \<Rightarrow> 's floats \<Rightarrow> ctx \<Rightarrow> ('st, 's :: {linorder, zero}) operations \<Rightarrow> Value list \<Rightarrow> 'st \<Rightarrow> 'st handled option" where
  "brpopOp h fl ctx ops args st =
     (if length args < 2 then Some (says (ErrWrongArgs ''brpop'') st)
      else case ParseFloat fl (arg args (length args - 1)) of
             None \<Rightarrow> Some (says (Err ''timeout is not a float or out of range'') st)
           | Some timeout \<Rightarrow>
               let keys = bulks (butlast args)
               in blockingPop h fl ctx ops keys timeout (RPopMulti keys) st)"

definition blpopOp ::
  "Handler \<Rightarrow> 's floats \<Rightarrow> ctx \<Rightarrow> ('st, 's :: {linorder, zero}) operations \<Rightarrow> Value list \<Rightarrow> 'st \<Rightarrow> 'st handled option" where
  "blpopOp h fl ctx ops args st =
     (if length args < 2 then Some (says (ErrWrongArgs ''blpop'') st)
      else case ParseFloat fl (arg args (length args - 1)) of
             None \<Rightarrow> Some (says (Err ''timeout is not a float or out of range'') st)
           | Some timeout \<Rightarrow>
               let keys = bulks (butlast args)
               in blockingPop h fl ctx ops keys timeout (LPopMulti keys) st)"

definition mpopRound ::
  "Handler \<Rightarrow> ctx \<Rightarrow> ('st, 's) operations \<Rightarrow> string list \<Rightarrow> time option \<Rightarrow> ('st \<Rightarrow> 'st handled) \<Rightarrow> 'st \<Rightarrow> ('st handled + 'st) option" where
  "mpopRound h ctx ops keys deadline popOnce st =
     (case popOnce st of
        (Inl e, st) \<Rightarrow> Some (Inl (panic e st))
      | (Inr v, st) \<Rightarrow>
          if vType v = Error then Some (Inl (says v st))
          else if \<not> (vType v = Array \<and> vNull v) then Some (Inl (says v st))
          else waitOr NullArray h ctx ops keys deadline st)"

definition blockingMPop ::
  "Handler \<Rightarrow> 's floats \<Rightarrow> ctx \<Rightarrow> ('st, 's :: {linorder, zero}) operations \<Rightarrow> string list \<Rightarrow> 's \<Rightarrow> ('st \<Rightarrow> 'st handled) \<Rightarrow> 'st \<Rightarrow> 'st handled option" where
  "blockingMPop h fl ctx ops keys timeout popOnce st =
     rounds (mpopRound h ctx ops keys (deadlineOf fl ops timeout st) popOnce) st"

definition blmpopOp ::
  "Handler \<Rightarrow> 's floats \<Rightarrow> ctx \<Rightarrow> ('st, 's :: {linorder, zero}) operations \<Rightarrow> Value list \<Rightarrow> 'st \<Rightarrow> 'st handled option" where
  "blmpopOp h fl ctx ops args st =
     (if length args < 4 then Some (says (ErrWrongArgs ''blmpop'') st)
      else case ParseFloat fl (arg args 0) of
             None \<Rightarrow> Some (says (Err ''timeout is not a float or out of range'') st)
           | Some timeout \<Rightarrow>
               (case parseMPopHead (tl args) {''LEFT'', ''RIGHT''} of
                  Inl r \<Rightarrow> Some (stops r st)
                | Inr (keys, whr, cnt) \<Rightarrow>
                    blockingMPop h fl ctx ops keys timeout (doLMPop ops keys whr cnt) st))"

definition bzmpopOp ::
  "Handler \<Rightarrow> 's floats \<Rightarrow> ctx \<Rightarrow> ('st, 's :: {linorder, zero}) operations \<Rightarrow> Value list \<Rightarrow> 'st \<Rightarrow> 'st handled option" where
  "bzmpopOp h fl ctx ops args st =
     (if length args < 4 then Some (says (ErrWrongArgs ''bzmpop'') st)
      else case ParseFloat fl (arg args 0) of
             None \<Rightarrow> Some (says (Err ''timeout is not a float or out of range'') st)
           | Some timeout \<Rightarrow>
               (case parseMPopHead (tl args) {''MIN'', ''MAX''} of
                  Inl r \<Rightarrow> Some (stops r st)
                | Inr (keys, whr, cnt) \<Rightarrow>
                    blockingMPop h fl ctx ops keys timeout (doZMPop fl ops keys whr cnt) st))"

section \<open>SCAN\<close>

record ScanOptions =
  scPattern :: string
  scCount :: int
  scType :: string

fun scanOptions :: "bool \<Rightarrow> Value \<Rightarrow> string list \<Rightarrow> ScanOptions \<Rightarrow> Value + ScanOptions" where
  "scanOptions withType missing [] o' = Inr o'"
| "scanOptions withType missing (a # rest) o' =
     (let opt = ToUpper a
      in if opt = ''MATCH'' \<or> opt = ''COUNT'' \<or> withType \<and> opt = ''TYPE''
         then (case rest of
                 [] \<Rightarrow> Inl missing
               | v # rest' \<Rightarrow>
                   if opt = ''MATCH'' then scanOptions withType missing rest' (o'\<lparr>scPattern := v\<rparr>)
                   else if opt = ''COUNT''
                   then (case ParseInt v of
                           Inl _ \<Rightarrow> Inl (Err errInt)
                         | Inr n \<Rightarrow> scanOptions withType missing rest' (o'\<lparr>scCount := n\<rparr>))
                   else scanOptions withType missing rest' (o'\<lparr>scType := ToLower v\<rparr>))
         else scanOptions withType missing rest o')"

definition noScanOptions :: ScanOptions where
  "noScanOptions = \<lparr>scPattern = ''*'', scCount = 10, scType = []\<rparr>"

text \<open>The keys whose type has the given name; a key whose type cannot be read is left out.\<close>

fun filterType :: "('st, 's) operations \<Rightarrow> string \<Rightarrow> string list \<Rightarrow> 'st \<Rightarrow> string list \<times> 'st" where
  "filterType ops t [] st = ([], st)"
| "filterType ops t (key # keys) st =
     (case exec ops (KeyC (Type key)) st of
        (r, st) \<Rightarrow>
          (case filterType ops t keys st of
             (ks, st) \<Rightarrow> (case r of Inr ty \<Rightarrow> if keyTypeName (typeOf ty) = t then key # ks else ks | Inl _ \<Rightarrow> ks, st)))"

definition pageV :: "int \<Rightarrow> int \<Rightarrow> string list \<Rightarrow> 'st \<Rightarrow> 'st handled" where
  "pageV cursor cnt items =
     (case scanPage cursor cnt items of
        Inl e \<Rightarrow> panic e
      | Inr (next', page) \<Rightarrow> says (Arr [Bulk (Itoa next'), Arr (map Bulk page)]))"

definition scanOp :: "('st, 's) operations \<Rightarrow> Value list \<Rightarrow> 'st \<Rightarrow> 'st handled" where
  "scanOp ops args =
     (if args = [] then says (ErrWrongArgs ''scan'')
      else case ParseInt (arg args 0) of
             Inl _ \<Rightarrow> says (Err ''invalid cursor'')
           | Inr cursor \<Rightarrow>
               (case scanOptions True (Err errSyntax) (bulks (tl args)) noScanOptions of
                  Inl e \<Rightarrow> says e
                | Inr o' \<Rightarrow>
                    callThen Err ops (KeyC (Keys (scPattern o')))
                      (\<lambda>r st. case (if scType o' \<noteq> [] then filterType ops (scType o') (strsOf r) st else (strsOf r, st)) of
                                (keys, st) \<Rightarrow> pageV cursor (scCount o') keys st)))"

section \<open>Set commands\<close>

definition saddOp :: "('st, 's) operations \<Rightarrow> Value list \<Rightarrow> 'st \<Rightarrow> 'st handled" where
  "saddOp ops args =
     (if length args < 2 then says (ErrWrongArgs ''sadd'')
      else call errTyped intV ops (SetC (SAdd (arg args 0) (bulks (tl args)))))"

definition sremOp :: "('st, 's) operations \<Rightarrow> Value list \<Rightarrow> 'st \<Rightarrow> 'st handled" where
  "sremOp ops args =
     (if length args < 2 then says (ErrWrongArgs ''srem'')
      else call Err intV ops (SetC (SRem (arg args 0) (bulks (tl args)))))"

definition smembersOp :: "('st, 's) operations \<Rightarrow> Value list \<Rightarrow> 'st \<Rightarrow> 'st handled" where
  "smembersOp ops args =
     (if length args \<noteq> 1 then says (ErrWrongArgs ''smembers'')
      else call Err bulksV ops (SetC (SMembers (arg args 0))))"

definition sismemberOp :: "('st, 's) operations \<Rightarrow> Value list \<Rightarrow> 'st \<Rightarrow> 'st handled" where
  "sismemberOp ops args =
     (if length args \<noteq> 2 then says (ErrWrongArgs ''sismember'')
      else call Err boolV ops (SetC (SIsMember (arg args 0) (arg args 1))))"

definition scardOp :: "('st, 's) operations \<Rightarrow> Value list \<Rightarrow> 'st \<Rightarrow> 'st handled" where
  "scardOp ops args =
     (if length args \<noteq> 1 then says (ErrWrongArgs ''scard'')
      else call Err intV ops (SetC (SCard (arg args 0))))"

definition smismemberOp :: "('st, 's) operations \<Rightarrow> Value list \<Rightarrow> 'st \<Rightarrow> 'st handled" where
  "smismemberOp ops args =
     (if length args < 2 then says (ErrWrongArgs ''smismember'')
      else call errTyped bitsV ops (SetC (SMIsMember (arg args 0) (bulks (tl args)))))"

definition sinterOp :: "('st, 's) operations \<Rightarrow> Value list \<Rightarrow> 'st \<Rightarrow> 'st handled" where
  "sinterOp ops args =
     (if args = [] then says (ErrWrongArgs ''sinter'')
      else call errTyped bulksV ops (SetC (SInter (bulks args))))"

definition sintercardOp :: "('st, 's) operations \<Rightarrow> Value list \<Rightarrow> 'st \<Rightarrow> 'st handled" where
  "sintercardOp ops args =
     (if length args < 2 then says (ErrWrongArgs ''sintercard'')
      else case ParseInt (arg args 0) of
             Inl _ \<Rightarrow> says (Err ''numkeys should be greater than 0'')
           | Inr numkeys \<Rightarrow>
               if numkeys < 1 then says (Err ''numkeys should be greater than 0'')
               else if int (length args) < wrap64 (1 + numkeys) then says (ErrWrongArgs ''sintercard'')
               else case takeKeys numkeys (bulks (tl args)) of
                      Inl r \<Rightarrow> stops r
                    | Inr keys \<Rightarrow>
                        (case bulks (drop (1 + nat numkeys) args) of
                           [] \<Rightarrow> call errTyped intV ops (SetC (SInterCard keys 0))
                         | [opt, v] \<Rightarrow>
                             if ToUpper opt \<noteq> ''LIMIT'' then says (Err errSyntax)
                             else (case ParseInt v of
                                     Inl _ \<Rightarrow> says (Err (''LIMIT can'' @ [CHR 0x27] @ ''t be negative''))
                                   | Inr limit \<Rightarrow>
                                       if limit < 0 then says (Err (''LIMIT can'' @ [CHR 0x27] @ ''t be negative''))
                                       else call errTyped intV ops (SetC (SInterCard keys limit)))
                         | _ \<Rightarrow> says (Err errSyntax)))"

definition sinterstoreOp :: "('st, 's) operations \<Rightarrow> Value list \<Rightarrow> 'st \<Rightarrow> 'st handled" where
  "sinterstoreOp ops args =
     (if length args < 2 then says (ErrWrongArgs ''sinterstore'')
      else call errTyped intV ops (SetC (SInterStore (arg args 0) (bulks (tl args)))))"

definition sunionOp :: "('st, 's) operations \<Rightarrow> Value list \<Rightarrow> 'st \<Rightarrow> 'st handled" where
  "sunionOp ops args =
     (if args = [] then says (ErrWrongArgs ''sunion'')
      else call errTyped bulksV ops (SetC (SUnion (bulks args))))"

definition sunionstoreOp :: "('st, 's) operations \<Rightarrow> Value list \<Rightarrow> 'st \<Rightarrow> 'st handled" where
  "sunionstoreOp ops args =
     (if length args < 2 then says (ErrWrongArgs ''sunionstore'')
      else call errTyped intV ops (SetC (SUnionStore (arg args 0) (bulks (tl args)))))"

definition sdiffOp :: "('st, 's) operations \<Rightarrow> Value list \<Rightarrow> 'st \<Rightarrow> 'st handled" where
  "sdiffOp ops args =
     (if args = [] then says (ErrWrongArgs ''sdiff'')
      else call errTyped bulksV ops (SetC (SDiff (bulks args))))"

definition sdiffstoreOp :: "('st, 's) operations \<Rightarrow> Value list \<Rightarrow> 'st \<Rightarrow> 'st handled" where
  "sdiffstoreOp ops args =
     (if length args < 2 then says (ErrWrongArgs ''sdiffstore'')
      else call errTyped intV ops (SetC (SDiffStore (arg args 0) (bulks (tl args)))))"

text \<open>The cursor of SSCAN is unsigned; the conversion to int wraps.\<close>

definition sscanOp :: "('st, 's) operations \<Rightarrow> Value list \<Rightarrow> 'st \<Rightarrow> 'st handled" where
  "sscanOp ops args =
     (if length args < 2 then says (ErrWrongArgs ''sscan'')
      else case ParseUint (arg args 1) of
             Inl _ \<Rightarrow> says (Err ''invalid cursor'')
           | Inr cursor \<Rightarrow>
               (case scanOptions False (ErrWrongArgs ''sscan'') (bulks (drop 2 args)) noScanOptions of
                  Inl e \<Rightarrow> says e
                | Inr o' \<Rightarrow>
                    callThen errTyped ops (SetC (SMembers (arg args 0)))
                      (\<lambda>r. pageV (wrap64 (int cursor)) (scCount o')
                             (filter (\<lambda>m. fst (matchGlob (scPattern o') m)) (strsOf r)))))"

end
