(* ===== verification/HandlerZSets.thy ===== *)
theory HandlerZSets
  imports HandlerCollections
begin

text \<open>The sorted-set handlers of \<^verbatim>\<open>src/internal/handler/handler_ops.go\<close>.\<close>

section \<open>Bounds\<close>

definition parseScoreBound :: "'s floats \<Rightarrow> string \<Rightarrow> string + 's :: plus" where
  "parseScoreBound fl s =
     (if s = ''-inf'' then Inr (negInf fl)
      else if s = ''+inf'' \<or> s = ''inf'' then Inr (posInf fl)
      else let exclusive = HasPrefix s ''(''; s = (if exclusive then tl s else s)
           in case ParseFloat fl s of
                None \<Rightarrow> Inl ''min or max is not a float''
              | Some score \<Rightarrow> Inr (if exclusive then score + tiny fl else score))"

text \<open>The bounds that ZRANGEBYSCORE, ZREMRANGEBYSCORE and ZCOUNT parse inline.\<close>

definition minBound :: "'s floats \<Rightarrow> string \<Rightarrow> Value + 's :: plus" where
  "minBound fl s =
     (if s = ''-inf'' then Inr (negHuge fl)
      else if s = ''+inf'' \<or> s = ''inf'' then Inr (huge fl)
      else let exclusive = HasPrefix s ''(''; s = (if exclusive then tl s else s)
           in case ParseFloat fl s of
                None \<Rightarrow> Inl (Err ''min value is not a float'')
              | Some score \<Rightarrow> Inr (if exclusive then score + tiny fl else score))"

definition maxBound :: "'s floats \<Rightarrow> string \<Rightarrow> Value + 's" where
  "maxBound fl s =
     (if s = ''+inf'' \<or> s = ''inf'' then Inr (huge fl)
      else if s = ''-inf'' then Inr (negHuge fl)
      else let exclusive = HasPrefix s ''(''; s = (if exclusive then tl s else s)
           in case ParseFloat fl s of
                None \<Rightarrow> Inl (Err ''max value is not a float'')
              | Some score \<Rightarrow> Inr (if exclusive then fsub fl score (tiny fl) else score))"

definition scoreRange :: "'s floats \<Rightarrow> string \<Rightarrow> string \<Rightarrow> Value + 's \<times> 's :: plus" where
  "scoreRange fl lo hi =
     (case minBound fl lo of
        Inl e \<Rightarrow> Inl e
      | Inr a \<Rightarrow> (case maxBound fl hi of Inl e \<Rightarrow> Inl e | Inr b \<Rightarrow> Inr (a, b)))"

definition parseLexBound :: "string \<Rightarrow> string + LexBound" where
  "parseLexBound s =
     (if s = ''-'' then Inr \<lparr>lexValue = [], lexInclusive = False, lexInfinity = -1\<rparr>
      else if s = ''+'' then Inr \<lparr>lexValue = [], lexInclusive = False, lexInfinity = 1\<rparr>
      else if HasPrefix s ''['' then Inr \<lparr>lexValue = tl s, lexInclusive = True, lexInfinity = 0\<rparr>
      else if HasPrefix s ''('' then Inr \<lparr>lexValue = tl s, lexInclusive = False, lexInfinity = 0\<rparr>
      else Inl ''min or max not valid string range item'')"

text \<open>Two bounds in the order of the arguments.\<close>

definition scoreBounds :: "'s floats \<Rightarrow> string \<Rightarrow> string \<Rightarrow> Value + 's \<times> 's :: plus" where
  "scoreBounds fl a b =
     (case (parseScoreBound fl a, parseScoreBound fl b) of
        (Inr x, Inr y) \<Rightarrow> Inr (x, y)
      | _ \<Rightarrow> Inl (Err ''min or max is not a float''))"

definition lexBounds :: "string \<Rightarrow> string \<Rightarrow> Value + LexBound \<times> LexBound" where
  "lexBounds a b =
     (case parseLexBound a of
        Inl e \<Rightarrow> Inl (Err (''ERR '' @ e))
      | Inr x \<Rightarrow> (case parseLexBound b of Inl e \<Rightarrow> Inl (Err (''ERR '' @ e)) | Inr y \<Rightarrow> Inr (x, y)))"

definition intRange :: "string \<Rightarrow> string \<Rightarrow> Value + int \<times> int" where
  "intRange a b =
     (case (ParseInt a, ParseInt b) of (Inr x, Inr y) \<Rightarrow> Inr (x, y) | _ \<Rightarrow> Inl (Err errInt))"

definition parseLexLimit :: "Value list \<Rightarrow> Value + int \<times> int" where
  "parseLexLimit args =
     (if args = [] then Inr (0, -1)
      else if length args \<noteq> 3 \<or> ToUpper (arg args 0) \<noteq> ''LIMIT'' then Inl (Err errSyntax)
      else intRange (arg args 1) (arg args 2))"

section \<open>ZADD\<close>

fun zaddFlags :: "string list \<Rightarrow> ZAddOptions \<Rightarrow> ZAddOptions \<times> string list" where
  "zaddFlags [] o' = (o', [])"
| "zaddFlags (a # rest) o' =
     (let flag = ToUpper a
      in if flag = ''NX'' then zaddFlags rest (o'\<lparr>zNX := True\<rparr>)
         else if flag = ''XX'' then zaddFlags rest (o'\<lparr>zXX := True\<rparr>)
         else if flag = ''GT'' then zaddFlags rest (o'\<lparr>zGT := True\<rparr>)
         else if flag = ''LT'' then zaddFlags rest (o'\<lparr>zLT := True\<rparr>)
         else if flag = ''CH'' then zaddFlags rest (o'\<lparr>zCH := True\<rparr>)
         else (o', a # rest))"

fun zaddMembers :: "'s floats \<Rightarrow> string list \<Rightarrow> Value + 's ZMember list" where
  "zaddMembers fl (s # m # rest) =
     (case ParseFloat fl s of
        None \<Rightarrow> Inl (Err ''value is not a valid float'')
      | Some score \<Rightarrow> map_sum id (\<lambda>ms. (m, score) # ms) (zaddMembers fl rest))"
| "zaddMembers fl _ = Inr []"

definition zaddOp :: "'s floats \<Rightarrow> ('st, 's) operations \<Rightarrow> Value list \<Rightarrow> 'st \<Rightarrow> 'st handled" where
  "zaddOp fl ops args =
     (if length args < 3 then says (ErrWrongArgs ''zadd'')
      else case zaddFlags (bulks (tl args)) \<lparr>zNX = False, zXX = False, zGT = False, zLT = False, zCH = False\<rparr> of
             (o', rest) \<Rightarrow>
               if zNX o' \<and> zXX o' then says (Err ''XX and NX options at the same time are not compatible'')
               else if zGT o' \<and> zLT o' then says (Err ''GT and LT options at the same time are not compatible'')
               else if (zGT o' \<or> zLT o') \<and> zNX o' then says (Err ''GT/LT and NX options at the same time are not compatible'')
               else if rest = [] \<or> length rest mod 2 \<noteq> 0 then says (ErrWrongArgs ''zadd'')
               else case zaddMembers fl rest of
                      Inl e \<Rightarrow> says e
                    | Inr ms \<Rightarrow> call errTyped intV ops (ZSetC (ZAdd (arg args 0) ms o')))"

section \<open>Ranges\<close>

record RangeOptions =
  roScores :: bool
  roByScore :: bool
  roRev :: bool
  roOffset :: int
  roCount :: int

definition noRangeOptions :: RangeOptions where
  "noRangeOptions = \<lparr>roScores = False, roByScore = False, roRev = False, roOffset = 0, roCount = -1\<rparr>"

text \<open>
  The option loops of ZRANGE, ZRANGEBYSCORE and ZREVRANGEBYSCORE: \<open>other\<close> is what an
  option that is neither WITHSCORES nor LIMIT does.
\<close>

fun rangeOptions ::
  "string \<Rightarrow> (string \<Rightarrow> RangeOptions \<Rightarrow> Value + RangeOptions) \<Rightarrow> string list \<Rightarrow> RangeOptions \<Rightarrow> Value + RangeOptions" where
  "rangeOptions name other [] o' = Inr o'"
| "rangeOptions name other (a # rest) o' =
     (let opt = ToUpper a
      in if opt = ''WITHSCORES'' then rangeOptions name other rest (o'\<lparr>roScores := True\<rparr>)
         else if opt = ''LIMIT''
         then (case rest of
                 off # cnt # rest' \<Rightarrow>
                   (case intRange off cnt of
                      Inl e \<Rightarrow> Inl e
                    | Inr (x, y) \<Rightarrow> rangeOptions name other rest' (o'\<lparr>roOffset := x, roCount := y\<rparr>))
               | _ \<Rightarrow> Inl (ErrWrongArgs name))
         else (case other opt o' of Inl e \<Rightarrow> Inl e | Inr o'' \<Rightarrow> rangeOptions name other rest o''))"

definition zrangeOption :: "string \<Rightarrow> RangeOptions \<Rightarrow> Value + RangeOptions" where
  "zrangeOption opt o' =
     (if opt = ''BYSCORE'' then Inr (o'\<lparr>roByScore := True\<rparr>)
      else if opt = ''BYLEX'' then Inl (Err ''BYLEX not supported'')
      else if opt = ''REV'' then Inr (o'\<lparr>roRev := True\<rparr>)
      else Inr o')"

definition zrangeOp :: "('s :: plus) floats \<Rightarrow> ('st, 's) operations \<Rightarrow> Value list \<Rightarrow> 'st \<Rightarrow> 'st handled" where
  "zrangeOp fl ops args =
     (if length args < 3 then says (ErrWrongArgs ''zrange'')
      else case rangeOptions ''zrange'' zrangeOption (bulks (drop 3 args)) noRangeOptions of
             Inl e \<Rightarrow> says e
           | Inr o' \<Rightarrow>
               let shown = (\<lambda>r. let ms = membersOf r in membersV fl (roScores o') (if roRev o' then rev ms else ms))
               in if roByScore o'
                  then (case scoreBounds fl (arg args 1) (arg args 2) of
                          Inl e \<Rightarrow> says e
                        | Inr (a, b) \<Rightarrow>
                            let lo = (if roRev o' then b else a); hi = (if roRev o' then a else b)
                            in call errTyped shown ops (ZSetC (ZRangeByScore (arg args 0) lo hi (roOffset o') (roCount o'))))
                  else (case intRange (arg args 1) (arg args 2) of
                          Inl e \<Rightarrow> says e
                        | Inr (start, stop) \<Rightarrow> call errTyped shown ops (ZSetC (ZRange (arg args 0) start stop))))"

definition zrevrangeOp :: "'s floats \<Rightarrow> ('st, 's) operations \<Rightarrow> Value list \<Rightarrow> 'st \<Rightarrow> 'st handled" where
  "zrevrangeOp fl ops args =
     (if length args < 3 then says (ErrWrongArgs ''zrevrange'')
      else case intRange (arg args 1) (arg args 2) of
             Inl e \<Rightarrow> says e
           | Inr (start, stop) \<Rightarrow>
               if \<exists>a \<in> set (bulks (drop 3 args)). ToUpper a \<noteq> ''WITHSCORES'' then says (Err errSyntax)
               else call errTyped (\<lambda>r. membersV fl (drop 3 args \<noteq> []) (membersOf r)) ops
                      (ZSetC (ZRevRange (arg args 0) start stop)))"

definition zrevrangebyscoreOp :: "('s :: plus) floats \<Rightarrow> ('st, 's) operations \<Rightarrow> Value list \<Rightarrow> 'st \<Rightarrow> 'st handled" where
  "zrevrangebyscoreOp fl ops args =
     (if length args < 3 then says (ErrWrongArgs ''zrevrangebyscore'')
      else case scoreBounds fl (arg args 1) (arg args 2) of
             Inl e \<Rightarrow> says e
           | Inr (hi, lo) \<Rightarrow>
               (case rangeOptions ''zrevrangebyscore'' (\<lambda>_ _. Inl (Err errSyntax)) (bulks (drop 3 args)) noRangeOptions of
                  Inl e \<Rightarrow> says e
                | Inr o' \<Rightarrow>
                    call errTyped (\<lambda>r. membersV fl (roScores o') (membersOf r)) ops
                      (ZSetC (ZRevRangeByScore (arg args 0) lo hi (roOffset o') (roCount o')))))"

definition zrangebyscoreOp :: "('s :: plus) floats \<Rightarrow> ('st, 's) operations \<Rightarrow> Value list \<Rightarrow> 'st \<Rightarrow> 'st handled" where
  "zrangebyscoreOp fl ops args =
     (if length args < 3 then says (ErrWrongArgs ''zrangebyscore'')
      else case scoreRange fl (arg args 1) (arg args 2) of
             Inl e \<Rightarrow> says e
           | Inr (lo, hi) \<Rightarrow>
               (case rangeOptions ''zrangebyscore'' (\<lambda>_. Inr) (bulks (drop 3 args)) noRangeOptions of
                  Inl e \<Rightarrow> says e
                | Inr o' \<Rightarrow>
                    call errTyped (\<lambda>r. membersV fl (roScores o') (membersOf r)) ops
                      (ZSetC (ZRangeByScore (arg args 0) lo hi (roOffset o') (roCount o')))))"

definition zrangebylexOp :: "('st, 's) operations \<Rightarrow> Value list \<Rightarrow> 'st \<Rightarrow> 'st handled" where
  "zrangebylexOp ops args =
     (if length args < 3 then says (ErrWrongArgs ''zrangebylex'')
      else case lexBounds (arg args 1) (arg args 2) of
             Inl e \<Rightarrow> says e
           | Inr (lo, hi) \<Rightarrow>
               (case parseLexLimit (drop 3 args) of
                  Inl e \<Rightarrow> says e
                | Inr (off, cnt) \<Rightarrow> call errTyped bulksV ops (ZSetC (ZRangeByLex (arg args 0) lo hi off cnt))))"

definition zrevrangebylexOp :: "('st, 's) operations \<Rightarrow> Value list \<Rightarrow> 'st \<Rightarrow> 'st handled" where
  "zrevrangebylexOp ops args =
     (if length args < 3 then says (ErrWrongArgs ''zrevrangebylex'')
      else case lexBounds (arg args 1) (arg args 2) of
             Inl e \<Rightarrow> says e
           | Inr (hi, lo) \<Rightarrow>
               (case parseLexLimit (drop 3 args) of
                  Inl e \<Rightarrow> says e
                | Inr (off, cnt) \<Rightarrow> call errTyped bulksV ops (ZSetC (ZRevRangeByLex (arg args 0) lo hi off cnt))))"

fun storeSpec :: "string list \<Rightarrow> 's ZRangeStoreSpec \<Rightarrow> Value + 's ZRangeStoreSpec" where
  "storeSpec [] sp = Inr sp"
| "storeSpec (a # rest) sp =
     (let opt = ToUpper a
      in if opt = ''BYSCORE'' then storeSpec rest (sp\<lparr>sBy := ZRangeStoreBy.ZRangeByScore\<rparr>)
         else if opt = ''BYLEX'' then storeSpec rest (sp\<lparr>sBy := ZRangeStoreBy.ZRangeByLex\<rparr>)
         else if opt = ''REV'' then storeSpec rest (sp\<lparr>sRev := True\<rparr>)
         else if opt = ''LIMIT''
         then (case rest of
                 off # cnt # rest' \<Rightarrow>
                   (case intRange off cnt of
                      Inl e \<Rightarrow> Inl e
                    | Inr (x, y) \<Rightarrow> storeSpec rest' (sp\<lparr>sOffset := x, sCount := y\<rparr>))
               | _ \<Rightarrow> Inl (ErrWrongArgs ''zrangestore''))
         else Inl (Err errSyntax))"

definition noLexBound :: LexBound where
  "noLexBound = \<lparr>lexValue = [], lexInclusive = False, lexInfinity = 0\<rparr>"

definition newStoreSpec :: "('s :: zero) ZRangeStoreSpec" where
  "newStoreSpec = \<lparr>sBy = ZRangeStoreBy.ZRangeByIndex, sRev = False, sStart = 0, sStop = 0, sMinScore = 0, sMaxScore = 0,
     sMinLex = noLexBound, sMaxLex = noLexBound, sOffset = 0, sCount = -1\<rparr>"

text \<open>The bounds of ZRANGESTORE, read in the mode the options ask for.\<close>

definition storeBounds :: "('s :: plus) floats \<Rightarrow> string \<Rightarrow> string \<Rightarrow> 's ZRangeStoreSpec \<Rightarrow> Value + 's ZRangeStoreSpec" where
  "storeBounds fl a b sp =
     (case sBy sp of
        ZRangeStoreBy.ZRangeByIndex \<Rightarrow> map_sum id (\<lambda>(x, y). sp\<lparr>sStart := x, sStop := y\<rparr>) (intRange a b)
      | ZRangeStoreBy.ZRangeByScore \<Rightarrow>
          map_sum id (\<lambda>(x, y). if sRev sp then sp\<lparr>sMinScore := y, sMaxScore := x\<rparr> else sp\<lparr>sMinScore := x, sMaxScore := y\<rparr>)
            (scoreBounds fl a b)
      | ZRangeStoreBy.ZRangeByLex \<Rightarrow>
          map_sum id (\<lambda>(x, y). if sRev sp then sp\<lparr>sMinLex := y, sMaxLex := x\<rparr> else sp\<lparr>sMinLex := x, sMaxLex := y\<rparr>)
            (lexBounds a b))"

definition zrangestoreOp :: "('s :: {plus, zero}) floats \<Rightarrow> ('st, 's) operations \<Rightarrow> Value list \<Rightarrow> 'st \<Rightarrow> 'st handled" where
  "zrangestoreOp fl ops args =
     (if length args < 4 then says (ErrWrongArgs ''zrangestore'')
      else case storeSpec (bulks (drop 4 args)) newStoreSpec of
             Inl e \<Rightarrow> says e
           | Inr sp \<Rightarrow>
               (case storeBounds fl (arg args 2) (arg args 3) sp of
                  Inl e \<Rightarrow> says e
                | Inr sp' \<Rightarrow> call errTyped intV ops (ZSetC (ZRangeStore (arg args 0) (arg args 1) sp'))))"

definition zlexcountOp :: "('st, 's) operations \<Rightarrow> Value list \<Rightarrow> 'st \<Rightarrow> 'st handled" where
  "zlexcountOp ops args =
     (if length args \<noteq> 3 then says (ErrWrongArgs ''zlexcount'')
      else case lexBounds (arg args 1) (arg args 2) of
             Inl e \<Rightarrow> says e
           | Inr (lo, hi) \<Rightarrow> call errTyped intV ops (ZSetC (ZLexCount (arg args 0) lo hi)))"

section \<open>Other sorted-set commands\<close>

definition zscoreOp :: "'s floats \<Rightarrow> ('st, 's) operations \<Rightarrow> Value list \<Rightarrow> 'st \<Rightarrow> 'st handled" where
  "zscoreOp fl ops args =
     (if length args \<noteq> 2 then says (ErrWrongArgs ''zscore'')
      else call errTyped (scoreV fl) ops (ZSetC (ZScore (arg args 0) (arg args 1))))"

definition zremOp :: "('st, 's) operations \<Rightarrow> Value list \<Rightarrow> 'st \<Rightarrow> 'st handled" where
  "zremOp ops args =
     (if length args < 2 then says (ErrWrongArgs ''zrem'')
      else call errTyped intV ops (ZSetC (ZRem (arg args 0) (bulks (tl args)))))"

definition zcardOp :: "('st, 's) operations \<Rightarrow> Value list \<Rightarrow> 'st \<Rightarrow> 'st handled" where
  "zcardOp ops args =
     (if length args \<noteq> 1 then says (ErrWrongArgs ''zcard'')
      else call errTyped intV ops (ZSetC (ZCard (arg args 0))))"

definition zremrangebyscoreOp :: "('s :: plus) floats \<Rightarrow> ('st, 's) operations \<Rightarrow> Value list \<Rightarrow> 'st \<Rightarrow> 'st handled" where
  "zremrangebyscoreOp fl ops args =
     (if length args \<noteq> 3 then says (ErrWrongArgs ''zremrangebyscore'')
      else case scoreRange fl (arg args 1) (arg args 2) of
             Inl e \<Rightarrow> says e
           | Inr (lo, hi) \<Rightarrow> call errTyped intV ops (ZSetC (ZRemRangeByScore (arg args 0) lo hi)))"

definition zremrangebyrankOp :: "('st, 's) operations \<Rightarrow> Value list \<Rightarrow> 'st \<Rightarrow> 'st handled" where
  "zremrangebyrankOp ops args =
     (if length args \<noteq> 3 then says (ErrWrongArgs ''zremrangebyrank'')
      else case intRange (arg args 1) (arg args 2) of
             Inl e \<Rightarrow> says e
           | Inr (start, stop) \<Rightarrow> call errTyped intV ops (ZSetC (ZRemRangeByRank (arg args 0) start stop)))"

definition zincrbyOp :: "'s floats \<Rightarrow> ('st, 's) operations \<Rightarrow> Value list \<Rightarrow> 'st \<Rightarrow> 'st handled" where
  "zincrbyOp fl ops args =
     (if length args \<noteq> 3 then says (ErrWrongArgs ''zincrby'')
      else case ParseFloat fl (arg args 1) of
             None \<Rightarrow> says (Err ''value is not a valid float'')
           | Some x \<Rightarrow> call errTyped (scoreV fl) ops (ZSetC (ZIncrBy (arg args 0) x (arg args 2))))"

definition popCount :: "Value list \<Rightarrow> Value + int" where
  "popCount args =
     (if length args > 1
      then (case ParseInt (arg args 1) of
              Inl _ \<Rightarrow> Inl (Err errInt)
            | Inr n \<Rightarrow> if n < 0 then Inl (Err errInt) else Inr n)
      else Inr 1)"

definition zpopminOp :: "'s floats \<Rightarrow> ('st, 's) operations \<Rightarrow> Value list \<Rightarrow> 'st \<Rightarrow> 'st handled" where
  "zpopminOp fl ops args =
     (if args = [] then says (ErrWrongArgs ''zpopmin'')
      else case popCount args of
             Inl e \<Rightarrow> says e
           | Inr n \<Rightarrow> call errTyped (\<lambda>r. membersV fl True (membersOf r)) ops (ZSetC (ZPopMin (arg args 0) n)))"

definition zpopmaxOp :: "'s floats \<Rightarrow> ('st, 's) operations \<Rightarrow> Value list \<Rightarrow> 'st \<Rightarrow> 'st handled" where
  "zpopmaxOp fl ops args =
     (if args = [] then says (ErrWrongArgs ''zpopmax'')
      else case popCount args of
             Inl e \<Rightarrow> says e
           | Inr n \<Rightarrow> call errTyped (\<lambda>r. membersV fl True (membersOf r)) ops (ZSetC (ZPopMax (arg args 0) n)))"

definition zrankOp :: "('st, 's) operations \<Rightarrow> Value list \<Rightarrow> 'st \<Rightarrow> 'st handled" where
  "zrankOp ops args =
     (if length args < 2 then says (ErrWrongArgs ''zrank'')
      else call errTyped intOptV ops (ZSetC (ZRank (arg args 0) (arg args 1))))"

definition zrevrankOp :: "('st, 's) operations \<Rightarrow> Value list \<Rightarrow> 'st \<Rightarrow> 'st handled" where
  "zrevrankOp ops args =
     (if length args < 2 then says (ErrWrongArgs ''zrevrank'')
      else call errTyped intOptV ops (ZSetC (ZRevRank (arg args 0) (arg args 1))))"

definition zcountOp :: "('s :: plus) floats \<Rightarrow> ('st, 's) operations \<Rightarrow> Value list \<Rightarrow> 'st \<Rightarrow> 'st handled" where
  "zcountOp fl ops args =
     (if length args \<noteq> 3 then says (ErrWrongArgs ''zcount'')
      else case scoreRange fl (arg args 1) (arg args 2) of
             Inl e \<Rightarrow> says e
           | Inr (lo, hi) \<Rightarrow> call errTyped intV ops (ZSetC (ZCount (arg args 0) lo hi)))"

fun zscanV :: "'s floats \<Rightarrow> 's reply \<Rightarrow> Value" where
  "zscanV fl (RScan next' ms) = Arr [Bulk (FormatInt next'), membersV fl True ms]"
| "zscanV fl _ = Arr [Bulk ''0'', Arr []]"

definition zscanOp :: "'s floats \<Rightarrow> ('st, 's) operations \<Rightarrow> Value list \<Rightarrow> 'st \<Rightarrow> 'st handled" where
  "zscanOp fl ops args =
     (if length args < 2 then says (ErrWrongArgs ''zscan'')
      else case ParseInt (arg args 1) of
             Inl _ \<Rightarrow> says (Err errInt)
           | Inr cursor \<Rightarrow>
               (case scanOptions False (Err errSyntax) (bulks (drop 2 args)) noScanOptions of
                  Inl e \<Rightarrow> says e
                | Inr o' \<Rightarrow> call errTyped (zscanV fl) ops (ZSetC (ZScan (arg args 0) cursor (scPattern o') (scCount o')))))"

definition zrandmemberOp :: "'s floats \<Rightarrow> ('st, 's) operations \<Rightarrow> Value list \<Rightarrow> 'st \<Rightarrow> 'st handled" where
  "zrandmemberOp fl ops args =
     (if length args < 1 \<or> length args > 3 then says (ErrWrongArgs ''zrandmember'')
      else if length args = 1
      then call errTyped (\<lambda>r. case membersOf r of [] \<Rightarrow> NullBulk | (m, s) # _ \<Rightarrow> Bulk m) ops (ZSetC (ZRandMember (arg args 0) 1))
      else case ParseInt (arg args 1) of
             Inl _ \<Rightarrow> says (Err errInt)
           | Inr n \<Rightarrow>
               if length args = 3 \<and> ToUpper (arg args 2) \<noteq> ''WITHSCORES'' then says (Err errSyntax)
               else call errTyped (\<lambda>r. membersV fl (length args = 3) (membersOf r)) ops (ZSetC (ZRandMember (arg args 0) n)))"

section \<open>ZUNIONSTORE and ZINTERSTORE\<close>

fun parseWeights :: "'s floats \<Rightarrow> string list \<Rightarrow> Value + 's list" where
  "parseWeights fl [] = Inr []"
| "parseWeights fl (a # rest) =
     (case ParseFloat fl a of
        None \<Rightarrow> Inl (Err ''weight value is not a float'')
      | Some w \<Rightarrow> map_sum id (\<lambda>ws. w # ws) (parseWeights fl rest))"

text \<open>The weights that are not given stay zero.\<close>

function storeOptions :: "('s :: zero) floats \<Rightarrow> nat \<Rightarrow> string list \<Rightarrow> 's list \<times> string \<Rightarrow> Value + 's list \<times> string" where
  "storeOptions fl n [] o' = Inr o'"
| "storeOptions fl n (a # rest) (weights, aggregate) =
     (let opt = ToUpper a
      in if opt = ''WEIGHTS''
         then (case parseWeights fl (take n rest) of
                 Inl e \<Rightarrow> Inl e
               | Inr ws \<Rightarrow> storeOptions fl n (drop n rest) (ws @ replicate (n - length ws) 0, aggregate))
         else if opt = ''AGGREGATE''
         then (case rest of
                 [] \<Rightarrow> Inr (weights, aggregate)
               | v # rest' \<Rightarrow>
                   let agg = ToUpper v
                   in if agg \<notin> {''SUM'', ''MIN'', ''MAX''} then Inl (Err errSyntax)
                      else storeOptions fl n rest' (weights, agg))
         else storeOptions fl n rest (weights, aggregate))"
  by pat_completeness auto

termination storeOptions
  by (relation "measure (\<lambda>(_, _, args, _). length args)") auto

definition storeWith ::
  "string \<Rightarrow> (string \<Rightarrow> string list \<Rightarrow> 's list \<Rightarrow> string \<Rightarrow> 's ZSetCmd) \<Rightarrow> ('s :: zero) floats \<Rightarrow> ('st, 's) operations \<Rightarrow> Value list \<Rightarrow> 'st \<Rightarrow> 'st handled" where
  "storeWith name c fl ops args =
     (if length args < 3 then says (ErrWrongArgs name)
      else case ParseInt (arg args 1) of
             Inl _ \<Rightarrow> says (Err errInt)
           | Inr numKeys \<Rightarrow>
               if numKeys \<le> 0 then says (Err errInt)
               else if int (length args) < wrap64 (numKeys + 2) then says (ErrWrongArgs name)
               else case takeKeys numKeys (bulks (drop 2 args)) of
                      Inl r \<Rightarrow> stops r
                    | Inr keys \<Rightarrow>
                        (case storeOptions fl (nat numKeys) (bulks (drop (nat numKeys + 2) args)) ([], ''SUM'') of
                           Inl e \<Rightarrow> says e
                         | Inr (weights, aggregate) \<Rightarrow> call errTyped intV ops (ZSetC (c (arg args 0) keys weights aggregate))))"

definition zunionstoreOp :: "('s :: zero) floats \<Rightarrow> ('st, 's) operations \<Rightarrow> Value list \<Rightarrow> 'st \<Rightarrow> 'st handled" where
  "zunionstoreOp = storeWith ''zunionstore'' ZUnionStore"

definition zinterstoreOp :: "('s :: zero) floats \<Rightarrow> ('st, 's) operations \<Rightarrow> Value list \<Rightarrow> 'st \<Rightarrow> 'st handled" where
  "zinterstoreOp = storeWith ''zinterstore'' ZInterStore"

end
