(* ===== verification/Dispatch.thy ===== *)
theory Dispatch
  imports HandlerZSets
begin

text \<open>
  The command table: \<^verbatim>\<open>ExecuteWithOps\<close> of \<^verbatim>\<open>src/internal/handler/handler_ops.go\<close>
  without its three scripting entries (theory \<open>Scripting\<close>), and \<^verbatim>\<open>commandKeys\<close> of
  \<^verbatim>\<open>src/internal/handler/keys.go\<close>.  A handler that cannot block returns at once;
  the result None is a blocking command that waits for ever.
\<close>

section \<open>The table\<close>

text \<open>The entries by group, as in the switch; None stands for a name that is not in the group.\<close>

type_synonym ('st, 's) dispatched = "('st, 's) operations \<Rightarrow> Value list \<Rightarrow> 'st \<Rightarrow> 'st handled"

definition stringTable :: "'s floats \<Rightarrow> (string \<times> ('st, 's) dispatched) list" where
  "stringTable fl =
     [(''GET'', getOp), (''SET'', setOp), (''SETNX'', setnxOp), (''SETEX'', setexOp), (''MGET'', mgetOp),
      (''MSET'', msetOp), (''INCR'', incrOp), (''DECR'', decrOp), (''INCRBY'', incrbyOp), (''DECRBY'', decrbyOp),
      (''INCRBYFLOAT'', incrbyfloatOp fl), (''APPEND'', appendCmdOp), (''GETRANGE'', getrangeOp),
      (''SETRANGE'', setrangeOp), (''STRLEN'', strlenOp), (''GETEX'', getexOp), (''GETDEL'', getdelOp),
      (''GETSET'', getsetOp), (''BITFIELD'', bitfieldOp)]"

definition keyTable :: "(string \<times> ('st, 's) dispatched) list" where
  "keyTable =
     [(''DEL'', delOp), (''EXISTS'', existsOp), (''EXPIRE'', expireOp), (''PEXPIRE'', pexpireOp),
      (''EXPIREAT'', expireatOp), (''PEXPIREAT'', pexpireatOp), (''TTL'', ttlOp), (''PTTL'', pttlOp),
      (''PERSIST'', persistOp), (''KEYS'', keysOp), (''TYPE'', typeCmdOp), (''RENAME'', renameOp),
      (''COPY'', copyOp), (''RANDOMKEY'', randomKeyOp), (''OBJECT'', objectOp)]"

definition hashTable :: "ctx \<Rightarrow> 's floats \<Rightarrow> (string \<times> ('st, 's) dispatched) list" where
  "hashTable ctx fl =
     [(''HGET'', hgetOp), (''HSET'', hsetOp), (''HDEL'', hdelOp), (''HGETALL'', hgetallOp ctx), (''HMGET'', hmgetOp),
      (''HMSET'', hmsetOp), (''HEXISTS'', hexistsOp), (''HKEYS'', hkeysOp), (''HVALS'', hvalsOp), (''HLEN'', hlenOp),
      (''HINCRBY'', hincrbyOp), (''HINCRBYFLOAT'', hincrbyfloatOp fl), (''HSETNX'', hsetnxOp), (''HSCAN'', hscanOp),
      (''HRANDFIELD'', hrandfieldOp), (''WATCH'', watchOp), (''UNWATCH'', unwatchOp)]"

definition listTable :: "Handler \<Rightarrow> (string \<times> ('st, 's) dispatched) list" where
  "listTable h =
     [(''LPUSH'', lpushOp h), (''RPUSH'', rpushOp h), (''LPOP'', lpopOp), (''RPOP'', rpopOp), (''LMPOP'', lmpopOp),
      (''LLEN'', llenOp), (''LRANGE'', lrangeOp), (''LINDEX'', lindexOp), (''LREM'', lremOp), (''LTRIM'', ltrimOp),
      (''RPOPLPUSH'', rpoplpushOp), (''LPOS'', lposOp), (''LSET'', lsetOp), (''LINSERT'', linsertOp), (''SCAN'', scanOp)]"

definition setTable :: "(string \<times> ('st, 's) dispatched) list" where
  "setTable =
     [(''SADD'', saddOp), (''SREM'', sremOp), (''SMEMBERS'', smembersOp), (''SISMEMBER'', sismemberOp),
      (''SCARD'', scardOp), (''SMISMEMBER'', smismemberOp), (''SINTER'', sinterOp), (''SINTERSTORE'', sinterstoreOp),
      (''SUNION'', sunionOp), (''SUNIONSTORE'', sunionstoreOp), (''SDIFF'', sdiffOp), (''SDIFFSTORE'', sdiffstoreOp),
      (''SINTERCARD'', sintercardOp), (''SRANDMEMBER'', srandmemberOp), (''SSCAN'', sscanOp), (''UNLINK'', unlinkOp)]"

definition zsetTable :: "('s :: {plus, zero}) floats \<Rightarrow> (string \<times> ('st, 's) dispatched) list" where
  "zsetTable fl =
     [(''ZADD'', zaddOp fl), (''ZRANGE'', zrangeOp fl), (''ZRANGEBYSCORE'', zrangebyscoreOp fl),
      (''ZREVRANGE'', zrevrangeOp fl), (''ZREVRANGEBYSCORE'', zrevrangebyscoreOp fl), (''ZRANGEBYLEX'', zrangebylexOp),
      (''ZREVRANGEBYLEX'', zrevrangebylexOp), (''ZLEXCOUNT'', zlexcountOp), (''ZRANGESTORE'', zrangestoreOp fl),
      (''ZRANDMEMBER'', zrandmemberOp fl), (''ZMPOP'', zmpopOp fl), (''ZSCORE'', zscoreOp fl), (''ZREM'', zremOp),
      (''ZREMRANGEBYSCORE'', zremrangebyscoreOp fl), (''ZREMRANGEBYRANK'', zremrangebyrankOp), (''ZCARD'', zcardOp),
      (''ZINCRBY'', zincrbyOp fl), (''ZPOPMIN'', zpopminOp fl), (''ZPOPMAX'', zpopmaxOp fl), (''ZRANK'', zrankOp),
      (''ZREVRANK'', zrevrankOp), (''ZCOUNT'', zcountOp fl), (''ZSCAN'', zscanOp fl),
      (''ZUNIONSTORE'', zunionstoreOp fl), (''ZINTERSTORE'', zinterstoreOp fl)]"

definition otherTable :: "Handler \<Rightarrow> 's floats \<Rightarrow> (string \<times> ('st, 's) dispatched) list" where
  "otherTable h fl =
     [(''PFADD'', pfaddOp), (''PFCOUNT'', pfcountOp), (''PFMERGE'', pfmergeOp), (''SETBIT'', setbitOp),
      (''GETBIT'', getbitOp), (''BITCOUNT'', bitcountOp), (''BITOP'', bitopOp), (''BITPOS'', bitposOp),
      (''INFO'', infoOp h fl), (''DBSIZE'', dbsizeOp)]"

definition commandTable :: "Handler \<Rightarrow> ('s :: {plus, zero}) floats \<Rightarrow> ctx \<Rightarrow> (string \<times> ('st, 's) dispatched) list" where
  "commandTable h fl ctx =
     stringTable fl @ keyTable @ hashTable ctx fl @ listTable h @ setTable @ zsetTable fl @ otherTable h fl"

definition executeData ::
  "Handler \<Rightarrow> ('s :: {linorder, plus, zero}) floats \<Rightarrow> ctx \<Rightarrow> ('st, 's) operations \<Rightarrow> string \<Rightarrow> Value list \<Rightarrow> 'st
     \<Rightarrow> 'st handled option" where
  "executeData h fl ctx ops cmdName args st =
     (if cmdName = ''BLPOP'' then blpopOp h fl ctx ops args st
      else if cmdName = ''BRPOP'' then brpopOp h fl ctx ops args st
      else if cmdName = ''BLMPOP'' then blmpopOp h fl ctx ops args st
      else if cmdName = ''BZMPOP'' then bzmpopOp h fl ctx ops args st
      else case map_of (commandTable h fl ctx) cmdName of
             Some f \<Rightarrow> Some (f ops args st)
           | None \<Rightarrow> Some (says (Err (''unknown command '' @ quoted cmdName)) st))"

section \<open>The keys of a command\<close>

text \<open>
  \<^verbatim>\<open>numkeysAt\<close>: the bound check adds in int, so a huge count passes it and the
  slice expression panics.
\<close>

definition numkeysAt :: "nat \<Rightarrow> string list \<Rightarrow> string + string list" where
  "numkeysAt i args =
     (if length args \<le> i then Inr []
      else case Atoi (args ! i) of
             Inl _ \<Rightarrow> Inr []
           | Inr n \<Rightarrow>
               if n < 0 \<or> int (length args) < wrap64 (int i + 1 + n) then Inr []
               else if int i + 1 + n > int (length args) then Inl errSliceBounds
               else Inr (take (nat n) (drop (i + 1) args)))"

fun everyOther :: "string list \<Rightarrow> string list" where
  "everyOther (k # v # rest) = k # everyOther rest"
| "everyOther rest = rest"

definition commandKeys :: "string \<Rightarrow> Value list \<Rightarrow> string + string list" where
  "commandKeys cmdName args =
     (let keys = bulks args
      in if cmdName \<in> {''PING'', ''ECHO'', ''KEYS'', ''SCAN'', ''RANDOMKEY'', ''INFO'', ''DBSIZE'', ''SCRIPT'', ''WATCH'',
            ''UNWATCH'', ''OBJECT''} then Inr []
         else if cmdName \<in> {''DEL'', ''UNLINK'', ''EXISTS'', ''MGET'', ''SINTER'', ''SUNION'', ''SDIFF'', ''SINTERSTORE'',
            ''SUNIONSTORE'', ''SDIFFSTORE'', ''PFCOUNT'', ''PFMERGE''} then Inr keys
         else if cmdName = ''MSET'' then Inr (everyOther keys)
         else if cmdName \<in> {''RENAME'', ''COPY'', ''RPOPLPUSH'', ''ZRANGESTORE''}
         then Inr (if length keys < 2 then [] else take 2 keys)
         else if cmdName \<in> {''BLPOP'', ''BRPOP''} then Inr (butlast keys)
         else if cmdName \<in> {''LMPOP'', ''ZMPOP'', ''SINTERCARD''} then numkeysAt 0 keys
         else if cmdName \<in> {''BLMPOP'', ''BZMPOP''} then numkeysAt 1 keys
         else if cmdName \<in> {''ZUNIONSTORE'', ''ZINTERSTORE''}
         then (if keys = [] then Inr [] else map_sum id (\<lambda>ks. hd keys # ks) (numkeysAt 1 keys))
         else if cmdName = ''BITOP'' then Inr (if length keys < 2 then [] else tl keys)
         else if cmdName \<in> {''EVAL'', ''EVALSHA''} then numkeysAt 1 keys
         else Inr (if keys = [] then [] else [hd keys]))"

end
