(* ===== verification/Contracts.thy ===== *)
theory Contracts
  imports Dispatch
begin

text \<open>
  The contract between the command handlers and the storage they call.  The locale
  \<open>storage_api\<close> states what a handler relies on: a method changes only the keys it
  names as written, and neither the notifier nor a wait changes data.  What
  follows for every handler is proved once in the locale: it changes only keys
  among \<^verbatim>\<open>commandKeys\<close>, and its reply is one that the client's protocol version has.
\<close>

section \<open>Replies of a protocol version\<close>

fun wireOK :: "bool \<Rightarrow> Value \<Rightarrow> bool" where
  "wireOK r3 (Value t s n b vs m nul) =
     ((t \<in> {SimpleString, Error, Integer, BulkString, Array} \<or> r3 \<and> t = MapType) \<and> list_all (wireOK r3) vs)"

named_theorems wire

lemma wire_basic [wire]:
  "wireOK r3 (SimpleVal s)" "wireOK r3 (ErrCustom s)" "wireOK r3 OK" "wireOK r3 (Err s)" "wireOK r3 ErrWrongType"
  "wireOK r3 (ErrWrongArgs s)" "wireOK r3 NullBulk" "wireOK r3 NullArray" "wireOK r3 (IntVal n)" "wireOK r3 (Bulk s)"
  "wireOK True (MapVal m)"
  by (simp_all add: reply_defs Err_def ErrWrongType_def ErrWrongArgs_def split: if_split)

lemma wire_Arr [wire]: "wireOK r3 (Arr vs) = list_all (wireOK r3) vs"
  by (simp add: Arr_def)

lemma wire_shapes [wire]:
  "wireOK r3 (intV r)" "wireOK r3 (bit x)" "wireOK r3 (boolV r)" "wireOK r3 (okV r)" "wireOK r3 (bulkOpt s)"
  "wireOK r3 (strV r)" "wireOK r3 (bulksV r)" "wireOK r3 (errTyped e)" "list_all (wireOK r3) (flatPairs ps)"
  "wireOK r3 (membersV fl ws ms)"
  by (auto simp: intV_def bit_def boolV_def okV_def bulkOpt_def strV_def bulksV_def errTyped_def flatPairs_def
      membersV_def wire list_all_iff split: option.splits)

lemma wire_fun_shapes [wire]:
  "wireOK r3 (optsV r)" "wireOK r3 (bitsV r)" "wireOK r3 (intOptV r)" "wireOK r3 (intOptsV r)" "wireOK r3 (scoreV fl r)"
  "wireOK r3 (posV cnt r)" "wireOK r3 (keyStrsV r)" "wireOK r3 (keyMembersV fl r)" "wireOK r3 (zscanV fl r)"
  "wireOK r3 (firstBulk r)"
  by (cases r; auto simp: wire list_all_iff firstBulk_def split: option.splits list.splits)+

text \<open>A parser whose error is such a reply.\<close>

definition fails :: "bool \<Rightarrow> Value + 'a \<Rightarrow> bool" where
  "fails r3 x = (\<forall>e. x = Inl e \<longrightarrow> wireOK r3 e)"

lemma fails_simps [simp]:
  "fails r3 (Inl e) = wireOK r3 e" "fails r3 (Inr y)" "fails r3 (map_sum id f x) = fails r3 x"
  by (auto simp: fails_def map_sum_def id_def split: sum.splits)

lemma failsD: "fails r3 x \<Longrightarrow> x = Inl e \<Longrightarrow> wireOK r3 e"
  by (simp add: fails_def)

lemma fails_setOptions [wire]: "fails r3 (setOptions now as o')"
  by (induction now as o' rule: setOptions.induct) (auto simp: wire Let_def split: list.split sum.split)

lemma fails_getexOptions [wire]: "fails r3 (getexOptions now as o')"
  by (induction now as o' rule: getexOptions.induct) (auto simp: wire Let_def split: list.split sum.split)

lemma fails_if: "(b \<Longrightarrow> fails r3 x) \<Longrightarrow> (\<not> b \<Longrightarrow> fails r3 y) \<Longrightarrow> fails r3 (if b then x else y)"
  by simp

lemma fails_bitfieldParse [wire]: "fails r3 (bitfieldParse ov as)"
proof (induction ov as rule: bitfieldParse.induct)
  case (2 ov a rest)
  show ?case unfolding bitfieldParse.simps Let_def
    by (intro fails_if) (simp_all add: 2 wire split: list.split sum.split)
qed simp

lemma fails_expireFlags [wire]: "fails r3 (expireFlags as o')"
  by (induction as o' rule: expireFlags.induct) (auto simp: wire Let_def)

lemma fails_parseExpireOptions [wire]: "fails r3 (parseExpireOptions as)"
  by (auto simp: parseExpireOptions_def wire split: sum.split dest: failsD [OF fails_expireFlags])

section \<open>Handlers that keep the contract\<close>

definition behaves ::
  "(string set \<Rightarrow> 'st \<Rightarrow> 'st \<Rightarrow> bool) \<Rightarrow> bool \<Rightarrow> string set \<Rightarrow> ('st \<Rightarrow> 'st handled) \<Rightarrow> bool" where
  "behaves R r3 K f = (\<forall>st. R K st (snd (f st)) \<and> (\<forall>v. fst (f st) = Inr v \<longrightarrow> wireOK r3 v))"

text \<open>The same for a command that may block: nothing is said of one that never returns.\<close>

definition behavesO ::
  "(string set \<Rightarrow> 'st \<Rightarrow> 'st \<Rightarrow> bool) \<Rightarrow> bool \<Rightarrow> string set \<Rightarrow> ('st \<Rightarrow> 'st handled option) \<Rightarrow> bool" where
  "behavesO R r3 K f =
     (\<forall>st h. f st = Some h \<longrightarrow> R K st (snd h) \<and> (\<forall>v. fst h = Inr v \<longrightarrow> wireOK r3 v))"

locale storage_api =
  fixes ops :: "('st, 's :: {linorder, plus, zero}) operations"
    and R :: "string set \<Rightarrow> 'st \<Rightarrow> 'st \<Rightarrow> bool"
  assumes R_refl: "R K st st"
    and R_trans: "R K st st' \<Longrightarrow> R K st' st'' \<Longrightarrow> R K st st''"
    and R_mono: "R K st st' \<Longrightarrow> K \<subseteq> L \<Longrightarrow> R L st st'"
    and R_exec: "R (set (writeKeys c)) st (snd (exec ops c st))"
    and R_notify: "R {} st (notifyPush ops key st)"
    and R_elapse: "R {} st (elapse ops st)"
    and R_wait: "waitForKeys ops keys t st = Some (key, st') \<Longrightarrow> R {} st st'"
    and R_timer: "R {} st (snd (waitTimer ops t st))"
begin

abbreviation ok where "ok \<equiv> behaves R"

lemma ok_says: "wireOK r3 v \<Longrightarrow> ok r3 K (says v)"
  by (simp add: behaves_def says_def R_refl)

lemma ok_panic: "ok r3 K (panic e)"
  by (simp add: behaves_def panic_def R_refl)

lemma ok_stops: "(\<And>v. r = Inr v \<Longrightarrow> wireOK r3 v) \<Longrightarrow> ok r3 K (stops r)"
  by (simp add: behaves_def stops_def R_refl)

lemma ok_callThen:
  assumes "set (writeKeys c) \<subseteq> K" "\<And>e. wireOK r3 (bad e)" "\<And>r. ok r3 K (k r)"
  shows "ok r3 K (callThen bad ops c k)"
  unfolding behaves_def
proof
  fix st
  obtain r st' where e: "exec ops c st = (r, st')" by fastforce
  have R1: "R K st st'" using R_mono [OF R_exec assms(1), of st] by (simp add: e)
  show "R K st (snd (callThen bad ops c k st)) \<and> (\<forall>v. fst (callThen bad ops c k st) = Inr v \<longrightarrow> wireOK r3 v)"
  proof (cases r)
    case (Inl x)
    then show ?thesis using R1 assms(2) by (simp add: callThen_def e panic_def says_def)
  next
    case (Inr x)
    have "R K st' (snd (k x st'))" "\<forall>v. fst (k x st') = Inr v \<longrightarrow> wireOK r3 v"
      using assms(3) [of x] by (simp_all add: behaves_def)
    with R_trans [OF R1] Inr show ?thesis by (simp add: callThen_def e)
  qed
qed

lemma ok_call:
  assumes "set (writeKeys c) \<subseteq> K" "\<And>e. wireOK r3 (bad e)" "\<And>r. wireOK r3 (good r)"
  shows "ok r3 K (call bad good ops c)"
  unfolding call_def by (rule ok_callThen [OF assms(1,2)]) (rule ok_says [OF assms(3)])

lemma ok_read:
  assumes "writeKeys c = []" "\<And>e. wireOK r3 (bad e)" "\<And>r. wireOK r3 (good r)"
  shows "ok r3 K (call bad good ops c)"
  using assms by (intro ok_call) simp_all

lemma ok_if: "(b \<Longrightarrow> ok r3 K f) \<Longrightarrow> (\<not> b \<Longrightarrow> ok r3 K g) \<Longrightarrow> ok r3 K (if b then f else g)"
  by simp

lemma ok_mono: "ok r3 K f \<Longrightarrow> K \<subseteq> L \<Longrightarrow> ok r3 L f"
  unfolding behaves_def using R_mono by blast

lemmas ok_rules = ok_says ok_panic ok_stops ok_call

end

section \<open>Every handler keeps the contract\<close>

context storage_api
begin

text \<open>Handlers that take one key first: they write at most that key.\<close>

lemma ok_strings:
  assumes "args \<noteq> [] \<Longrightarrow> arg args 0 \<in> K"
  shows "ok r3 K (getOp ops args)" "ok r3 K (setnxOp ops args)" "ok r3 K (setexOp ops args)" "ok r3 K (incrOp ops args)"
    "ok r3 K (decrOp ops args)" "ok r3 K (incrbyOp ops args)" "ok r3 K (decrbyOp ops args)" "ok r3 K (incrbyfloatOp fl ops args)"
    "ok r3 K (appendCmdOp ops args)" "ok r3 K (getrangeOp ops args)" "ok r3 K (setrangeOp ops args)" "ok r3 K (strlenOp ops args)"
    "ok r3 K (getdelOp ops args)" "ok r3 K (getsetOp ops args)"
  using assms
  by (cases args; auto simp: getOp_def setnxOp_def setexOp_def incrOp_def decrOp_def incrbyOp_def decrbyOp_def incrbyfloatOp_def
      appendCmdOp_def getrangeOp_def setrangeOp_def strlenOp_def getdelOp_def getsetOp_def wire
      intro!: ok_says ok_call split: sum.split option.split)+

lemma ok_setWrite: "key \<in> K \<Longrightarrow> ok r3 K (setWrite ops key v o' ttl old)"
  by (auto simp: setWrite_def Let_def wire intro!: ok_says ok_call ok_callThen)

lemma ok_setOpAt:
  assumes "args \<noteq> [] \<Longrightarrow> arg args 0 \<in> K"
  shows "ok r3 K (setOpAt now ops args)"
  unfolding setOpAt_def using assms
  by (cases args) (auto simp: Let_def wire intro!: ok_says ok_setWrite ok_callThen split: sum.split
      dest: failsD [OF fails_setOptions])

lemma ok_getexOpAt:
  assumes "args \<noteq> [] \<Longrightarrow> arg args 0 \<in> K"
  shows "ok r3 K (getexOpAt now ops args)"
  unfolding getexOpAt_def using assms
  by (cases args) (auto simp: Let_def wire intro!: ok_says ok_call split: sum.split prod.split
      dest: failsD [OF fails_getexOptions])

lemma ok_timed:
  assumes "args \<noteq> [] \<Longrightarrow> arg args 0 \<in> K"
  shows "ok r3 K (setOp ops args)" "ok r3 K (getexOp ops args)"
  using ok_setOpAt [OF assms] ok_getexOpAt [OF assms] by (simp_all add: behaves_def setOp_def getexOp_def)

lemma ok_expires:
  assumes "args \<noteq> [] \<Longrightarrow> arg args 0 \<in> K"
  shows "ok r3 K (expireOp ops args)" "ok r3 K (pexpireOp ops args)" "ok r3 K (expireatOp ops args)" "ok r3 K (pexpireatOp ops args)"
    "ok r3 K (persistOp ops args)" "ok r3 K (bitfieldOp ops args)"
  using assms
  by (cases args; auto simp: expireOp_def pexpireOp_def expireatOp_def pexpireatOp_def expireWith_def persistOp_def
      bitfieldOp_def wire intro!: ok_says ok_call split: sum.split
      dest: failsD [OF fails_parseExpireOptions] failsD [OF fails_bitfieldParse])+

lemma ok_bits:
  assumes "args \<noteq> [] \<Longrightarrow> arg args 0 \<in> K"
  shows "ok r3 K (pfaddOp ops args)" "ok r3 K (setbitOp ops args)" "ok r3 K (getbitOp ops args)"
  using assms
  by (cases args; auto simp: pfaddOp_def setbitOp_def getbitOp_def wire intro!: ok_says ok_call split: sum.split)+

lemma fails_optInt64: "optInt64 n args i = Inl e \<Longrightarrow> wireOK r3 e"
  by (auto simp: optInt64_def wire split: if_splits sum.splits)

lemma fails_bitUnit: "bitUnit args i = Inl e \<Longrightarrow> wireOK r3 e"
  by (auto simp: bitUnit_def wire Let_def split: if_splits)

text \<open>Handlers that only read.\<close>

lemma ok_objectEncoding: "wireOK r3 (objectEncoding kt)"
  by (cases kt) (simp_all add: objectEncoding_def wire)

lemma ok_reads:
  "ok r3 K (mgetOp ops args)" "ok r3 K (existsOp ops args)" "ok r3 K (ttlOp ops args)" "ok r3 K (pttlOp ops args)"
  "ok r3 K (keysOp ops args)" "ok r3 K (typeCmdOp ops args)" "ok r3 K (randomKeyOp ops args)" "ok r3 K (dbsizeOp ops args)"
  "ok r3 K (pfcountOp ops args)" "ok r3 K (watchOp ops args)" "ok r3 K (unwatchOp ops args)"
  by (simp_all add: mgetOp_def existsOp_def ttlOp_def pttlOp_def keysOp_def typeCmdOp_def randomKeyOp_def dbsizeOp_def
      pfcountOp_def watchOp_def unwatchOp_def wire ok_says ok_read)

lemma ok_objectOp: "ok r3 K (objectOp ops args)"
  unfolding objectOp_def Let_def by (intro ok_if ok_says ok_read) (simp_all add: wire ok_objectEncoding)

lemma ok_bitReads:
  "ok r3 K (bitcountOp ops args)" "ok r3 K (bitposOp ops args)"
  by (auto simp: bitcountOp_def bitposOp_def Let_def wire intro!: ok_says ok_read split: sum.split
      dest: fails_optInt64 fails_bitUnit)

lemma ok_infoOp: "ok r3 K (infoOp h fl ops args)"
proof -
  have "R K st (snd (exec ops DBSize st))" for st using R_mono [OF R_exec [of DBSize st]] by simp
  then show ?thesis
    by (auto simp: behaves_def infoOp_def Let_def says_def wire case_prod_unfold split: sum.split)
qed

lemma ok_hashes:
  assumes "args \<noteq> [] \<Longrightarrow> arg args 0 \<in> K"
  shows "ok r3 K (hsetOp ops args)" "ok r3 K (hdelOp ops args)" "ok r3 K (hmsetOp ops args)"
    "ok r3 K (hincrbyOp ops args)" "ok r3 K (hincrbyfloatOp fl ops args)" "ok r3 K (hsetnxOp ops args)"
  using assms
  by (cases args; auto simp: hsetOp_def hdelOp_def hmsetOp_def hincrbyOp_def hincrbyfloatOp_def hsetnxOp_def wire
      intro!: ok_says ok_call split: sum.split option.split)+

lemma ok_hashReads:
  "ok r3 K (hgetOp ops args)" "ok r3 K (hmgetOp ops args)" "ok r3 K (hexistsOp ops args)" "ok r3 K (hkeysOp ops args)"
  "ok r3 K (hvalsOp ops args)" "ok r3 K (hlenOp ops args)" "ok r3 K (hscanOp ops args)"
  "ok (resp3 ctx) K (hgetallOp ctx ops args)"
  by (simp_all add: hgetOp_def hmgetOp_def hexistsOp_def hkeysOp_def hvalsOp_def hlenOp_def hscanOp_def hgetallOp_def
      Let_def wire ok_says ok_read)

lemma ok_randoms: "ok r3 K (hrandfieldOp ops args)" "ok r3 K (srandmemberOp ops args)"
  unfolding hrandfieldOp_def srandmemberOp_def
  by (auto simp: wire intro!: ok_if ok_says ok_read split: sum.split)

lemma ok_lists:
  assumes "args \<noteq> [] \<Longrightarrow> arg args 0 \<in> K"
  shows "ok r3 K (lpopOp ops args)" "ok r3 K (rpopOp ops args)" "ok r3 K (lremOp ops args)" "ok r3 K (ltrimOp ops args)"
    "ok r3 K (lsetOp ops args)" "ok r3 K (linsertOp ops args)"
  using assms
  by (cases args; auto simp: lpopOp_def rpopOp_def lremOp_def ltrimOp_def lsetOp_def linsertOp_def Let_def wire
      intro!: ok_says ok_call split: sum.split)+

lemma ok_notified: "ok r3 K (\<lambda>st. says (intV r) (if b then notifyPush ops key st else st))"
  using R_mono [OF R_notify] by (auto simp: behaves_def says_def wire R_refl)

lemma ok_pushes:
  assumes "args \<noteq> [] \<Longrightarrow> arg args 0 \<in> K"
  shows "ok r3 K (lpushOp h ops args)" "ok r3 K (rpushOp h ops args)"
  using assms
  by (cases args; auto simp: lpushOp_def rpushOp_def pushWith_def wire intro!: ok_says ok_callThen ok_notified)+

lemma fails_lposOptions: "fails r3 (lposOptions as o')"
  by (induction as o' rule: lposOptions.induct) (auto simp: wire Let_def split: list.split sum.split)

lemma ok_listReads:
  "ok r3 K (llenOp ops args)" "ok r3 K (lrangeOp ops args)" "ok r3 K (lindexOp ops args)" "ok r3 K (lposOp ops args)"
  by (auto simp: llenOp_def lrangeOp_def lindexOp_def lposOp_def wire intro!: ok_says ok_read split: sum.split prod.split
      dest: failsD [OF fails_lposOptions])

lemma ok_sets:
  assumes "args \<noteq> [] \<Longrightarrow> arg args 0 \<in> K"
  shows "ok r3 K (saddOp ops args)" "ok r3 K (sremOp ops args)" "ok r3 K (sinterstoreOp ops args)"
    "ok r3 K (sunionstoreOp ops args)" "ok r3 K (sdiffstoreOp ops args)" "ok r3 K (pfmergeOp ops args)"
  using assms
  by (cases args; auto simp: saddOp_def sremOp_def sinterstoreOp_def sunionstoreOp_def sdiffstoreOp_def pfmergeOp_def wire
      intro!: ok_says ok_call)+

lemma takeKeys_wire: "takeKeys n as = Inl (Inr v) \<Longrightarrow> wireOK r3 v"
  by (auto simp: takeKeys_def split: if_splits)

lemma ok_setReads:
  "ok r3 K (smembersOp ops args)" "ok r3 K (sismemberOp ops args)" "ok r3 K (scardOp ops args)" "ok r3 K (smismemberOp ops args)"
  "ok r3 K (sinterOp ops args)" "ok r3 K (sunionOp ops args)" "ok r3 K (sdiffOp ops args)"
  by (simp_all add: smembersOp_def sismemberOp_def scardOp_def smismemberOp_def sinterOp_def sunionOp_def sdiffOp_def
      wire ok_says ok_read)

lemma ok_sintercardOp: "ok r3 K (sintercardOp ops args)"
  unfolding sintercardOp_def
  by (auto simp: wire intro!: ok_says ok_read ok_stops split: sum.split list.split dest: takeKeys_wire)

lemma fails_scanOptions: "wireOK r3 m \<Longrightarrow> fails r3 (scanOptions wt m as o')"
  by (induction wt m as o' rule: scanOptions.induct) (auto simp: wire Let_def split: list.split sum.split)

lemma scanOptions_wire:
  "scanOptions wt (Err e) as o' = Inl v \<Longrightarrow> wireOK r3 v" "scanOptions wt (ErrWrongArgs c) as o' = Inl v \<Longrightarrow> wireOK r3 v"
  using failsD [OF fails_scanOptions] by (blast intro: wire_basic)+

lemma ok_pageV: "ok r3 K (pageV c n items)"
  by (auto simp: pageV_def wire list_all_iff intro!: ok_says ok_panic split: sum.split prod.split)

lemma R_filterType: "R K st (snd (filterType ops t keys st))"
proof (induction keys arbitrary: st)
  case (Cons key keys)
  have "R K st (snd (exec ops (KeyC (Type key)) st))" using R_mono [OF R_exec [of "KeyC (Type key)" st]] by simp
  with Cons show ?case using R_trans by (simp add: case_prod_unfold)
qed (simp add: R_refl)

lemma ok_scanOp: "ok r3 K (scanOp ops args)"
proof -
  have "ok r3 K (\<lambda>st. case (if t \<noteq> [] then filterType ops t ks st else (ks, st)) of (keys, st) \<Rightarrow> pageV c n keys st)" for t ks c n
    using ok_pageV [of r3 K c n] R_filterType [of K] R_trans
    by (auto simp: behaves_def case_prod_unfold) blast+
  then show ?thesis
    unfolding scanOp_def
    by (auto simp: wire intro!: ok_says ok_callThen split: sum.split dest: scanOptions_wire)
qed

lemma ok_sscanOp: "ok r3 K (sscanOp ops args)"
  unfolding sscanOp_def
  by (auto simp: wire intro!: ok_says ok_callThen ok_pageV split: sum.split dest: scanOptions_wire)

lemma wire_bounds:
  "intRange a b = Inl e \<Longrightarrow> wireOK r3 e" "scoreBounds fl a b = Inl e \<Longrightarrow> wireOK r3 e" "lexBounds a b = Inl e \<Longrightarrow> wireOK r3 e"
  "scoreRange fl a b = Inl e \<Longrightarrow> wireOK r3 e" "parseLexLimit args = Inl e \<Longrightarrow> wireOK r3 e" "popCount args = Inl e \<Longrightarrow> wireOK r3 e"
  by (auto simp: intRange_def scoreBounds_def lexBounds_def scoreRange_def minBound_def maxBound_def parseLexLimit_def
      popCount_def Let_def wire split: sum.splits if_splits option.splits)

lemma ok_zsets:
  assumes "args \<noteq> [] \<Longrightarrow> arg args 0 \<in> K"
  shows "ok r3 K (zremOp ops args)" "ok r3 K (zremrangebyscoreOp fl ops args)" "ok r3 K (zremrangebyrankOp ops args)"
    "ok r3 K (zincrbyOp fl ops args)" "ok r3 K (zpopminOp fl ops args)" "ok r3 K (zpopmaxOp fl ops args)"
  using assms
  by (cases args; auto simp: zremOp_def zremrangebyscoreOp_def zremrangebyrankOp_def zincrbyOp_def zpopminOp_def zpopmaxOp_def
      wire intro!: ok_says ok_call split: sum.split option.split prod.split dest: wire_bounds)+

lemma fails_zaddMembers: "fails r3 (zaddMembers fl as)"
  by (induction fl as rule: zaddMembers.induct) (auto simp: wire split: option.split)

lemma ok_zaddOp:
  assumes "args \<noteq> [] \<Longrightarrow> arg args 0 \<in> K"
  shows "ok r3 K (zaddOp fl ops args)"
  unfolding zaddOp_def case_prod_unfold using assms
  by (cases args) (auto simp: wire intro!: ok_says ok_call split: sum.split dest: failsD [OF fails_zaddMembers])

lemma ok_zsetReads:
  "ok r3 K (zscoreOp fl ops args)" "ok r3 K (zcardOp ops args)" "ok r3 K (zrankOp ops args)" "ok r3 K (zrevrankOp ops args)"
  "ok r3 K (zcountOp fl ops args)" "ok r3 K (zlexcountOp ops args)" "ok r3 K (zrangebylexOp ops args)"
  "ok r3 K (zrevrangebylexOp ops args)"
  by (auto simp: zscoreOp_def zcardOp_def zrankOp_def zrevrankOp_def zcountOp_def zlexcountOp_def zrangebylexOp_def
      zrevrangebylexOp_def wire intro!: ok_says ok_read split: sum.split prod.split dest: wire_bounds)

lemma ok_zscans: "ok r3 K (zscanOp fl ops args)" "ok r3 K (zrandmemberOp fl ops args)"
  unfolding zscanOp_def zrandmemberOp_def
  by (auto simp: wire intro!: ok_if ok_says ok_read split: sum.split list.split dest: scanOptions_wire)

lemma fails_intRange: "fails r3 (intRange a b)"
  by (simp add: fails_def wire_bounds)

lemma fails_case:
  "fails r3 x \<Longrightarrow> (\<And>y. x = Inr y \<Longrightarrow> fails r3 (f y)) \<Longrightarrow> fails r3 (case x of Inl e \<Rightarrow> Inl e | Inr y \<Rightarrow> f y)"
  by (cases x) auto

lemma fails_rangeOptions:
  assumes oth: "\<And>a o'. fails r3 (oth a o')"
  shows "fails r3 (rangeOptions nm oth as o')"
proof (induction "length as" arbitrary: as o' rule: less_induct)
  case less
  show ?case
  proof (cases as)
    case (Cons a rest)
    show ?thesis unfolding Cons rangeOptions.simps Let_def
      by (intro fails_if) (auto simp: wire Cons intro!: fails_case fails_intRange oth less split: list.split)
  qed simp
qed

lemma ok_ranges:
  "ok r3 K (zrangeOp fl ops args)" "ok r3 K (zrevrangeOp fl ops args)" "ok r3 K (zrevrangebyscoreOp fl ops args)"
  "ok r3 K (zrangebyscoreOp fl ops args)"
proof -
  have "fails r3 (zrangeOption a o')" for a o' by (simp add: zrangeOption_def wire)
  then have "fails r3 (rangeOptions nm zrangeOption as o')" "fails r3 (rangeOptions nm (\<lambda>_ _. Inl (Err errSyntax)) as o')"
    "fails r3 (rangeOptions nm (\<lambda>_. Inr) as o')" for nm as o'
    by (auto intro!: fails_rangeOptions simp: wire)
  note 1 = this [THEN failsD]
  show "ok r3 K (zrangeOp fl ops args)" "ok r3 K (zrevrangeOp fl ops args)" "ok r3 K (zrevrangebyscoreOp fl ops args)"
    "ok r3 K (zrangebyscoreOp fl ops args)"
    by (auto simp: zrangeOp_def zrevrangeOp_def zrevrangebyscoreOp_def zrangebyscoreOp_def Let_def wire
        intro!: ok_says ok_read split: sum.split prod.split dest: wire_bounds 1)
qed

lemma fails_storeSpec: "fails r3 (storeSpec as sp)"
  by (induction as sp rule: storeSpec.induct) (auto simp: wire Let_def split: list.split sum.split dest: wire_bounds)

lemma storeBounds_wire: "storeBounds fl a b sp = Inl e \<Longrightarrow> wireOK r3 e"
  by (auto simp: storeBounds_def map_sum_def id_def split: ZRangeStoreBy.splits sum.splits dest: wire_bounds)

lemma ok_zrangestoreOp:
  assumes "args \<noteq> [] \<Longrightarrow> arg args 0 \<in> K"
  shows "ok r3 K (zrangestoreOp fl ops args)"
  unfolding zrangestoreOp_def using assms
  by (cases args) (auto simp: wire intro!: ok_says ok_call split: sum.split dest: failsD [OF fails_storeSpec] storeBounds_wire)

end

end
