(* ===== verification/Confinement.thy ===== *)
theory Confinement
  imports Contracts
begin

text \<open>
  The commands with several keys and the blocking ones keep the contract of
  \<open>storage_api\<close> as well, and so does the whole command table.
\<close>

section \<open>Keys in the arguments\<close>

lemma fst_toMap: "fst ` set (toMap ps) = fst ` set ps"
proof -
  have "fst ` set (fold (\<lambda>(k, v). AList.update k v) ps m) = fst ` set m \<union> fst ` set ps" for m
  proof (induction ps arbitrary: m)
    case (Cons p ps)
    then show ?case by (cases p) (simp add: dom_update)
  qed simp
  then show ?thesis by (simp add: toMap_def)
qed

lemma fst_pairUp: "fst ` set (pairUp xs) \<subseteq> set (everyOther xs)"
  by (induction xs rule: pairUp.induct) auto

lemma takeKeys_bound: "takeKeys n as = Inr ks \<Longrightarrow> 0 \<le> n \<and> n \<le> int (length as) \<and> n \<le> 17592186044416 \<and> ks = take (nat n) as"
  by (auto simp: takeKeys_def makeable_def split: if_splits)

lemma parseMPopHead_keys:
  assumes "parseMPopHead args W = Inr (ks, whr, cnt)"
  shows "numkeysAt 0 (bulks args) = Inr ks" "numkeysAt 1 (a # bulks args) = Inr ks"
proof -
  obtain n where n: "ParseInt (arg args 0) = Inr n" "1 \<le> n" "takeKeys n (bulks (tl args)) = Inr ks" "2 \<le> length args"
    using assms by (auto simp: parseMPopHead_def Let_def split: if_splits sum.splits list.splits)
  note l = takeKeys_bound [OF n(3)]
  have w: "wrap64 (1 + n) = 1 + n" "wrap64 (2 + n) = 2 + n"
    using n(2) l by (auto intro!: wrap64_id simp: int64_bounds)
  have h: "bulks args ! 0 = arg args 0" "drop (Suc 0) (bulks args) = bulks (tl args)" "length (bulks args) = Suc (length (bulks (tl args)))"
    using n(4) by (cases args; simp add: bulks_def arg_def)+
  show "numkeysAt 0 (bulks args) = Inr ks" "numkeysAt 1 (a # bulks args) = Inr ks"
    using n l w h by (auto simp: numkeysAt_def)
qed

lemma numkeysAt_tl:
  assumes "numkeysAt 1 (bulks args) = Inr ks" "parseMPopHead (tl args) W = Inr (ks', whr, cnt)"
  shows "ks' = ks"
  using parseMPopHead_keys(2) [OF assms(2), of "arg args 0"] assms
  by (cases args) (auto simp: bulks_def arg_def parseMPopHead_def)

lemma arg_in:
  "0 < length args \<Longrightarrow> arg args 0 \<in> set (bulks args)" "1 < length args \<Longrightarrow> arg args 1 \<in> set (tl (bulks args))"
  "1 < length args \<Longrightarrow> {arg args 0, arg args 1} \<subseteq> set (take 2 (bulks args))"
  by (cases args; simp add: arg_def bulks_def; cases "tl args"; auto)+

section \<open>Commands with several keys\<close>

context storage_api
begin

lemma ok_delOp: "set (bulks args) \<subseteq> K \<Longrightarrow> ok r3 K (delOp ops args)" "set (bulks args) \<subseteq> K \<Longrightarrow> ok r3 K (unlinkOp ops args)"
  by (auto simp: delOp_def unlinkOp_def wire intro!: ok_says ok_call)

lemma ok_msetOp: "set (everyOther (bulks args)) \<subseteq> K \<Longrightarrow> ok r3 K (msetOp ops args)"
  using fst_pairUp [of "bulks args"] by (force simp: msetOp_def wire fst_toMap intro!: ok_says ok_call)

lemma ok_two:
  assumes "1 < length args \<Longrightarrow> {arg args 0, arg args 1} \<subseteq> K"
  shows "ok r3 K (renameOp ops args)" "ok r3 K (copyOp ops args)" "ok r3 K (rpoplpushOp ops args)"
  using assms by (auto simp: renameOp_def copyOp_def rpoplpushOp_def Let_def wire intro!: ok_says ok_call)

lemma ok_bitopOp: "(1 < length args \<Longrightarrow> arg args 1 \<in> K) \<Longrightarrow> ok r3 K (bitopOp ops args)"
  by (auto simp: bitopOp_def Let_def wire intro!: ok_says ok_call)

lemma parseMPopHead_wire: "parseMPopHead args W = Inl (Inr v) \<Longrightarrow> wireOK r3 v"
  by (auto simp: parseMPopHead_def Let_def wire split: if_splits sum.splits list.splits dest: takeKeys_wire)

lemma ok_doMPop: "set keys \<subseteq> K \<Longrightarrow> ok r3 K (doLMPop ops keys whr cnt)" "set keys \<subseteq> K \<Longrightarrow> ok r3 K (doZMPop fl ops keys whr cnt)"
  by (auto simp: doLMPop_def doZMPop_def wire intro!: ok_call)

lemma ok_mpops:
  assumes "numkeysAt 0 (bulks args) = Inr ks"
  shows "ok r3 (set ks) (lmpopOp ops args)" "ok r3 (set ks) (zmpopOp fl ops args)"
  using assms
  by (auto simp: lmpopOp_def zmpopOp_def intro!: ok_stops ok_doMPop split: sum.split dest: parseMPopHead_wire parseMPopHead_keys(1))

lemma fails_parseWeights: "fails r3 (parseWeights fl as)"
  by (induction as) (auto simp: wire split: option.split)

lemma fails_storeOptions: "fails r3 (storeOptions fl n as o')"
proof (induction "length as" arbitrary: as o' rule: less_induct)
  case less
  show ?case
  proof (cases as)
    case (Cons a rest)
    show ?thesis unfolding Cons
      by (cases o', simp only: storeOptions.simps Let_def, intro fails_if)
        (auto simp: wire Cons intro!: fails_case fails_parseWeights less split: list.split)
  qed simp
qed

lemma ok_stores:
  assumes "args \<noteq> [] \<Longrightarrow> arg args 0 \<in> K"
  shows "ok r3 K (zunionstoreOp fl ops args)" "ok r3 K (zinterstoreOp fl ops args)"
  unfolding zunionstoreOp_def zinterstoreOp_def storeWith_def using assms
  by (cases args; auto simp: wire intro!: ok_says ok_call ok_stops split: sum.split prod.split
      dest: takeKeys_wire failsD [OF fails_storeOptions])+

text \<open>The blocking loops.\<close>

lemma rounds_ok:
  assumes "\<And>st h. round' st = Some (Inl h) \<Longrightarrow> R K st (snd h) \<and> (\<forall>v. fst h = Inr v \<longrightarrow> wireOK r3 v)"
    and "\<And>st st'. round' st = Some (Inr st') \<Longrightarrow> R K st st'"
  shows "behavesO R r3 K (rounds round')"
proof -
  let ?Q = "\<lambda>st h. R K st (snd h) \<and> (\<forall>v. fst h = Inr v \<longrightarrow> wireOK r3 v)"
  have "rd = round' \<Longrightarrow> ?Q st h" if "rounds rd st = Some h" for rd st h
    using _ that
  proof (rule rounds.raw_induct [where P = "\<lambda>rd st h. rd = round' \<longrightarrow> ?Q st h", THEN mp])
    fix rec rd st y
    assume IH: "\<And>rd st y. rec rd st = Some y \<Longrightarrow> rd = round' \<longrightarrow> ?Q st y"
      and step: "(case rd st of None \<Rightarrow> None | Some (Inl r) \<Rightarrow> Some r | Some (Inr st') \<Rightarrow> rec rd st') = Some y"
    show "rd = round' \<longrightarrow> ?Q st y"
    proof
      assume rd: "rd = round'"
      show "?Q st y"
      proof (cases "round' st")
        case (Some x)
        show ?thesis
        proof (cases x)
          case (Inl r)
          then show ?thesis using step Some assms(1) by (simp add: rd)
        next
          case (Inr st')
          then have "?Q st' y" using step Some IH [of round' st' y] by (simp add: rd)
          with R_trans [OF assms(2)] Some Inr show ?thesis by blast
        qed
      qed (use step rd in simp)
    qed
  qed
  then show ?thesis by (simp add: behavesO_def)
qed

lemma R_waitStep: "waitStep h ctx ops keys dl st = Some (b, st') \<Longrightarrow> R K st st'"
proof -
  assume w: "waitStep h ctx ops keys dl st = Some (b, st')"
  let ?st = "elapse ops st"
  have e: "R K st ?st" using R_mono [OF R_elapse] by blast
  have "R K ?st st'" if "waitForKeys ops keys t ?st = Some (key, st')" for t key using R_mono [OF R_wait [OF that]] by blast
  moreover have "R K ?st st'" if "waitTimer ops t ?st = (b', st')" for t b' using R_mono [OF R_timer [of ?st t]] that by simp
  ultimately have "st' = st \<or> R K ?st st'"
    using w by (auto simp: waitStep_def Let_def split: if_splits prod.splits)
  with e R_refl R_trans show ?thesis by blast
qed

lemma R_waitOr:
  "waitOr v h ctx ops keys dl st = Some (Inr st') \<Longrightarrow> R K st st'"
  "waitOr v h ctx ops keys dl st = Some (Inl (r, st')) \<Longrightarrow> R K st st' \<and> r = Inr v"
  by (auto simp: waitOr_def says_def intro: R_waitStep split: if_splits)

lemma ok_popRound:
  assumes "set (writeKeys (ListC pop :: 's command)) \<subseteq> K"
  shows "behavesO R r3 K (rounds (popRound h ctx ops keys dl pop))"
proof (rule rounds_ok)
  fix st
  obtain x st1 where e: "exec ops (ListC pop) st = (x, st1)" by fastforce
  have r1: "R K st st1" using R_mono [OF R_exec assms, of st] by (simp add: e)
  have w: "popRound h ctx ops keys dl pop st = waitOr NullBulk h ctx ops keys dl st1
      \<or> (\<exists>r. popRound h ctx ops keys dl pop st = Some (Inl (r, st1)) \<and> (\<forall>v. r = Inr v \<longrightarrow> wireOK r3 v))"
    by (auto simp: popRound_def e panic_def says_def wire split: sum.split reply.split)
  show "R K st (snd hd) \<and> (\<forall>v. fst hd = Inr v \<longrightarrow> wireOK r3 v)" if "popRound h ctx ops keys dl pop st = Some (Inl hd)" for hd
    using w that R_waitOr(2) [of NullBulk h ctx keys dl st1 "fst hd" "snd hd" K] R_trans [OF r1] r1
    by (cases hd) (auto simp: wire)
  show "R K st st'" if "popRound h ctx ops keys dl pop st = Some (Inr st')" for st'
    using w that R_waitOr(1) [of NullBulk h ctx keys dl st1 st' K] R_trans [OF r1] by auto
qed

lemma ok_mpopRound:
  assumes "ok r3 K popOnce"
  shows "behavesO R r3 K (rounds (mpopRound h ctx ops keys dl popOnce))"
proof (rule rounds_ok)
  fix st
  obtain x st1 where e: "popOnce st = (x, st1)" by fastforce
  have r1: "R K st st1" "\<forall>v. x = Inr v \<longrightarrow> wireOK r3 v" using assms by (simp_all add: behaves_def) (metis e fst_conv snd_conv)+
  have w: "mpopRound h ctx ops keys dl popOnce st = waitOr NullArray h ctx ops keys dl st1
      \<or> (\<exists>r. mpopRound h ctx ops keys dl popOnce st = Some (Inl (r, st1)) \<and> (\<forall>v. r = Inr v \<longrightarrow> wireOK r3 v))"
    using r1(2) by (auto simp: mpopRound_def e panic_def says_def split: sum.split)
  show "R K st (snd hd) \<and> (\<forall>v. fst hd = Inr v \<longrightarrow> wireOK r3 v)" if "mpopRound h ctx ops keys dl popOnce st = Some (Inl hd)" for hd
    using w that R_waitOr(2) [of NullArray h ctx keys dl st1 "fst hd" "snd hd" K] R_trans [OF r1(1)] r1(1)
    by (cases hd) (auto simp: wire)
  show "R K st st'" if "mpopRound h ctx ops keys dl popOnce st = Some (Inr st')" for st'
    using w that R_waitOr(1) [of NullArray h ctx keys dl st1 st' K] R_trans [OF r1(1)] by auto
qed

lemma okO_says: "wireOK r3 v \<Longrightarrow> behavesO R r3 K (\<lambda>st. Some (says v st))"
  by (simp add: behavesO_def says_def R_refl)

lemma okO_Some: "ok r3 K f \<Longrightarrow> behavesO R r3 K (\<lambda>st. Some (f st))"
  by (simp add: behaves_def behavesO_def)

lemma ok_blockingPop:
  "set (writeKeys (ListC pop :: 's command)) \<subseteq> K \<Longrightarrow> behavesO R r3 K (blockingPop h fl ctx ops keys t pop)"
  using ok_popRound [of pop K r3 h ctx keys] by (simp add: behavesO_def blockingPop_def)

lemma ok_blockingMPop: "ok r3 K popOnce \<Longrightarrow> behavesO R r3 K (blockingMPop h fl ctx ops keys t popOnce)"
  using ok_mpopRound [of r3 K popOnce h ctx keys] by (simp add: behavesO_def blockingMPop_def)

lemma ok_bpops:
  assumes "set (bulks (butlast args)) \<subseteq> K"
  shows "behavesO R r3 K (blpopOp h fl ctx ops args)" "behavesO R r3 K (brpopOp h fl ctx ops args)"
  using assms ok_blockingPop [of "LPopMulti (bulks (butlast args))" K] ok_blockingPop [of "RPopMulti (bulks (butlast args))" K]
  by (auto simp: behavesO_def blpopOp_def brpopOp_def Let_def says_def wire R_refl split: if_splits option.splits)

lemma ok_bmpops:
  assumes "numkeysAt 1 (bulks args) = Inr ks"
  shows "behavesO R r3 (set ks) (blmpopOp h fl ctx ops args)" "behavesO R r3 (set ks) (bzmpopOp h fl ctx ops args)"
proof -
  have "set ks' \<subseteq> set ks" if "parseMPopHead (tl args) W = Inr (ks', whr, cnt)" for W ks' whr cnt
    using numkeysAt_tl [OF assms that] by simp
  note b = ok_blockingMPop [OF ok_doMPop(1) [OF this]] ok_blockingMPop [OF ok_doMPop(2) [OF this]]
  show "behavesO R r3 (set ks) (blmpopOp h fl ctx ops args)" "behavesO R r3 (set ks) (bzmpopOp h fl ctx ops args)"
    using b
    by (auto simp: behavesO_def blmpopOp_def bzmpopOp_def says_def stops_def wire R_refl
        split: if_splits option.splits sum.splits dest: parseMPopHead_wire)
qed

end

section \<open>The command table\<close>

lemma first_key: "args \<noteq> [] \<Longrightarrow> arg args 0 = hd (bulks args)"
  by (cases args) (simp_all add: arg_def bulks_def)

lemma length_bulks [simp]: "length (bulks args) = length args"
  by (simp add: bulks_def)

lemma bulks_nil [simp]: "bulks args = [] \<longleftrightarrow> args = []"
  by (simp add: bulks_def)

lemma executeData_pops:
  "executeData h fl ctx o' ''LMPOP'' args = (\<lambda>st. Some (lmpopOp o' args st))"
  "executeData h fl ctx o' ''ZMPOP'' args = (\<lambda>st. Some (zmpopOp fl o' args st))"
  "executeData h fl ctx o' ''SINTERCARD'' args = (\<lambda>st. Some (sintercardOp o' args st))"
  "executeData h fl ctx o' ''ZUNIONSTORE'' args = (\<lambda>st. Some (zunionstoreOp fl o' args st))"
  "executeData h fl ctx o' ''ZINTERSTORE'' args = (\<lambda>st. Some (zinterstoreOp fl o' args st))"
  "executeData h fl ctx o' ''EVAL'' args = (\<lambda>st. Some (says (Err (''unknown command '' @ quoted ''EVAL'')) st))"
  "executeData h fl ctx o' ''EVALSHA'' args = (\<lambda>st. Some (says (Err (''unknown command '' @ quoted ''EVALSHA'')) st))"
  by (rule ext, simp add: executeData_def commandTable_def stringTable_def keyTable_def hashTable_def listTable_def setTable_def
      zsetTable_def otherTable_def)+

lemma takeKeys_numkeysAt1:
  assumes "2 < length args" "ParseInt (arg args 1) = Inr n" "0 < n" "takeKeys n (bulks (drop 2 args)) = Inr ks"
  shows "numkeysAt 1 (bulks args) = Inr ks"
proof -
  note l = takeKeys_bound [OF assms(4)]
  have "wrap64 (2 + n) = 2 + n" using assms(3) l by (auto intro!: wrap64_id simp: int64_bounds)
  moreover have "bulks args ! 1 = arg args 1" "drop 2 (bulks args) = bulks (drop 2 args)"
    using assms(1) by (simp_all add: bulks_def arg_def drop_map)
  ultimately show ?thesis using assms l by (auto simp: numkeysAt_def bulks_def numeral_2_eq_2)
qed

context storage_api
begin

lemma ok_stringTable:
  "(n, f) \<in> set (stringTable fl) \<Longrightarrow> commandKeys n args = Inr ks \<Longrightarrow> ok r3 (set ks) (f ops args)"
  by (auto simp: stringTable_def commandKeys_def first_key intro!: ok_strings ok_timed ok_reads ok_msetOp ok_expires)

lemma ok_keyTable:
  "(n, f) \<in> set keyTable \<Longrightarrow> commandKeys n args = Inr ks \<Longrightarrow> ok r3 (set ks) (f ops args)"
  using arg_in(3) [of args]
  by (auto simp: keyTable_def commandKeys_def first_key bulks_def
      intro!: ok_delOp ok_reads ok_expires ok_two ok_objectOp split: if_splits)

lemma ok_hashTable:
  "(n, f) \<in> set (hashTable ctx fl) \<Longrightarrow> commandKeys n args = Inr ks \<Longrightarrow> ok (resp3 ctx) (set ks) (f ops args)"
  by (auto simp: hashTable_def commandKeys_def first_key intro!: ok_hashes ok_hashReads ok_randoms ok_reads)

lemma ok_listTable:
  "(n, f) \<in> set (listTable h) \<Longrightarrow> commandKeys n args = Inr ks \<Longrightarrow> ok r3 (set ks) (f ops args)"
  using arg_in(3) [of args]
  by (auto simp: listTable_def commandKeys_def first_key bulks_def
      intro!: ok_pushes ok_lists ok_listReads ok_two ok_scanOp ok_mpops [unfolded bulks_def] split: if_splits)

lemma ok_setTable:
  "(n, f) \<in> set setTable \<Longrightarrow> commandKeys n args = Inr ks \<Longrightarrow> ok r3 (set ks) (f ops args)"
  by (auto simp: setTable_def commandKeys_def first_key
      intro!: ok_sets ok_setReads ok_sintercardOp ok_randoms ok_sscanOp ok_delOp)

lemma ok_zrangestore: "(1 < length args \<Longrightarrow> arg args 0 \<in> K) \<Longrightarrow> ok r3 K (zrangestoreOp fl ops args)"
proof (cases "1 < length args")
  case False
  then show ?thesis by (simp add: zrangestoreOp_def wire ok_says)
qed (auto intro: ok_zrangestoreOp)

lemma ok_zsetTable:
  "(n, f) \<in> set (zsetTable fl) \<Longrightarrow> commandKeys n args = Inr ks \<Longrightarrow> ok r3 (set ks) (f ops args)"
  using arg_in(3) [of args]
  by (auto simp: zsetTable_def commandKeys_def first_key
      intro!: ok_zsets ok_zaddOp ok_zsetReads ok_zscans ok_ranges ok_zrangestore ok_stores ok_mpops split: if_splits)
    (auto simp: Let_def map_sum_Inr first_key)

lemma ok_otherTable:
  "(n, f) \<in> set (otherTable h fl) \<Longrightarrow> commandKeys n args = Inr ks \<Longrightarrow> ok r3 (set ks) (f ops args)"
  using arg_in(2) [of args]
  by (auto simp: otherTable_def commandKeys_def first_key bulks_def list.map_sel(1)
      intro!: ok_bits ok_sets ok_reads ok_bitReads ok_bitopOp ok_infoOp split: if_splits)

lemma executeData_blocking:
  "executeData h fl ctx o' ''BLPOP'' args = blpopOp h fl ctx o' args"
  "executeData h fl ctx o' ''BRPOP'' args = brpopOp h fl ctx o' args"
  "executeData h fl ctx o' ''BLMPOP'' args = blmpopOp h fl ctx o' args"
  "executeData h fl ctx o' ''BZMPOP'' args = bzmpopOp h fl ctx o' args"
  by (rule ext, simp add: executeData_def)+

lemma commandKeys_blocking:
  "commandKeys ''BLPOP'' args = Inr (butlast (bulks args))" "commandKeys ''BRPOP'' args = Inr (butlast (bulks args))"
  "commandKeys ''BLMPOP'' args = numkeysAt 1 (bulks args)" "commandKeys ''BZMPOP'' args = numkeysAt 1 (bulks args)"
  by (simp_all add: commandKeys_def)

lemma commandKeys_counts:
  "commandKeys ''LMPOP'' args = numkeysAt 0 (bulks args)" "commandKeys ''ZMPOP'' args = numkeysAt 0 (bulks args)"
  "commandKeys ''ZUNIONSTORE'' args = (if bulks args = [] then Inr [] else map_sum id (\<lambda>ks. hd (bulks args) # ks) (numkeysAt 1 (bulks args)))"
  "commandKeys ''ZINTERSTORE'' args = (if bulks args = [] then Inr [] else map_sum id (\<lambda>ks. hd (bulks args) # ks) (numkeysAt 1 (bulks args)))"
  by (simp_all add: commandKeys_def Let_def del: bulks_nil)

lemma bulks_butlast: "bulks (butlast args) = butlast (bulks args)"
  by (simp add: bulks_def map_butlast)

text \<open>The dispatcher: whatever the command, it changes only its keys and its reply fits the protocol.\<close>

lemma executeData_ok:
  assumes "commandKeys cmdName args = Inr ks"
  shows "behavesO R (resp3 ctx) (set ks) (executeData h fl ctx ops cmdName args)"
proof (cases "cmdName \<in> {''BLPOP'', ''BRPOP'', ''BLMPOP'', ''BZMPOP''}")
  case True
  then consider "cmdName = ''BLPOP''" | "cmdName = ''BRPOP''" | "cmdName = ''BLMPOP''" | "cmdName = ''BZMPOP''" by blast
  then show ?thesis
    using assms
    by cases (simp_all only: executeData_blocking commandKeys_blocking sum.inject, simp_all add: ok_bpops ok_bmpops bulks_butlast)
next
  case False
  show ?thesis
  proof (cases "map_of (commandTable h fl ctx) cmdName :: ('st, 's) dispatched option")
    case None
    with False show ?thesis by (auto simp: behavesO_def executeData_def says_def R_refl wire)
  next
    case (Some f)
    then have "(cmdName, f) \<in> set (commandTable h fl ctx)" by (rule map_of_SomeD)
    then have "ok (resp3 ctx) (set ks) (f ops args)"
      using assms ok_stringTable ok_keyTable ok_hashTable ok_listTable ok_setTable ok_zsetTable ok_otherTable
      unfolding commandTable_def by auto
    with Some False show ?thesis by (auto simp: behaves_def behavesO_def executeData_def)
  qed
qed

text \<open>A command whose keys cannot be told (its count of keys overflows) writes nothing.\<close>

lemma executeData_nokeys:
  assumes "commandKeys cmdName args = Inl e"
  shows "behavesO R r3 K (executeData h fl ctx ops cmdName args)"
proof -
  have "cmdName \<in> {''LMPOP'', ''ZMPOP''} \<union> ({''BLMPOP'', ''BZMPOP''} \<union> ({''ZUNIONSTORE'', ''ZINTERSTORE''} \<union> ({''SINTERCARD''} \<union> {''EVAL'', ''EVALSHA''})))"
    using assms by (auto simp: commandKeys_def Let_def split: if_splits)
  then consider (pop) "cmdName \<in> {''LMPOP'', ''ZMPOP''}" | (bpop) "cmdName \<in> {''BLMPOP'', ''BZMPOP''}"
    | (store) "cmdName \<in> {''ZUNIONSTORE'', ''ZINTERSTORE''}" | (card) "cmdName \<in> {''SINTERCARD''}"
    | (eval) "cmdName \<in> {''EVAL'', ''EVALSHA''}"
    by (elim UnE)
  then show ?thesis
  proof cases
    case pop
    then have "numkeysAt 0 (bulks args) = Inl e" using assms by (elim insertE emptyE) (simp_all add: commandKeys_counts)
    then have no: "parseMPopHead args W \<noteq> Inr x" for W x using parseMPopHead_keys(1) [of args W] by (cases x) auto
    have "ok r3 K (lmpopOp ops args)" "ok r3 K (zmpopOp fl ops args)"
      by (auto simp: lmpopOp_def zmpopOp_def no intro!: ok_stops split: sum.split dest: parseMPopHead_wire)
    with pop show ?thesis by (elim insertE emptyE) (simp_all add: executeData_pops okO_Some)
  next
    case bpop
    then have "numkeysAt 1 (bulks args) = Inl e" using assms by (elim insertE emptyE) (simp_all add: commandKeys_blocking)
    then have "parseMPopHead (tl args) W \<noteq> Inr x" for W x
      using parseMPopHead_keys(2) [of "tl args" W _ _ _ "arg args 0"] by (cases x; cases args) (auto simp: bulks_def arg_def numkeysAt_def)
    then have "behavesO R r3 K (blmpopOp h fl ctx ops args)" "behavesO R r3 K (bzmpopOp h fl ctx ops args)"
      by (auto simp: behavesO_def blmpopOp_def bzmpopOp_def says_def stops_def wire R_refl
          split: if_splits option.splits sum.splits dest: parseMPopHead_wire)
    with bpop show ?thesis by (elim insertE emptyE) (simp_all add: executeData_blocking)
  next
    case store
    then have "\<exists>e'. numkeysAt 1 (bulks args) = Inl e'"
      using assms by (elim insertE emptyE) (auto simp: commandKeys_counts map_sum_def split: if_splits sum.splits)
    then have no: "takeKeys n (bulks (drop 2 args)) = Inr ks \<Longrightarrow> 2 < length args \<Longrightarrow> ParseInt (arg args 1) = Inr n \<Longrightarrow> 0 < n \<Longrightarrow> False" for n ks
      using takeKeys_numkeysAt1 [of args n ks] by auto
    have "ok r3 K (storeWith n c fl ops args)" for n c
      unfolding storeWith_def
      by (auto simp: wire intro!: ok_says ok_stops split: sum.split dest: takeKeys_wire dest!: no)
    with store show ?thesis
      by (elim insertE emptyE) (simp_all add: executeData_pops okO_Some zunionstoreOp_def zinterstoreOp_def)
  next
    case card
    then show ?thesis by (elim insertE emptyE) (simp add: executeData_pops okO_Some ok_sintercardOp)
  next
    case eval
    then show ?thesis by (elim insertE emptyE) (simp_all add: executeData_pops okO_says wire)
  qed
qed

end

end
