(* ===== verification/Sha1.thy ===== *)
theory Sha1
  imports Prelude "HOL-Library.Word"
begin

text \<open>
  SHA-1 in lower-case hexadecimal, the name under which
  \<^verbatim>\<open>src/internal/handler/lua.go\<close> (\<^verbatim>\<open>scriptSHA1\<close>) caches a script.
\<close>

unbundle bit_operations_syntax

type_synonym w32 = "32 word"

definition rotl32 :: "nat \<Rightarrow> w32 \<Rightarrow> w32" where
  "rotl32 n x = push_bit n x OR drop_bit (32 - n) x"

definition be32 :: "string \<Rightarrow> w32" where
  "be32 bs = foldl (\<lambda>acc c. push_bit 8 acc OR of_nat (of_char c)) 0 bs"

text \<open>The message with its padding, as 64-byte blocks of sixteen words.\<close>

definition byteOf :: "nat \<Rightarrow> char" where
  "byteOf n = char_of n"

definition be64 :: "nat \<Rightarrow> string" where
  "be64 n = map (\<lambda>i. byteOf (n div 256 ^ (7 - i) mod 256)) [0..<8]"

definition sha1Pad :: "string \<Rightarrow> string" where
  "sha1Pad s = s @ [CHR 0x80] @ replicate ((119 - length s mod 64) mod 64) (CHR 0x00) @ be64 (length s * 8)"

function chunks :: "nat \<Rightarrow> 'a list \<Rightarrow> 'a list list" where
  "chunks n xs = (if n = 0 \<or> xs = [] then [] else take n xs # chunks n (drop n xs))"
  by pat_completeness auto

termination chunks
  by (relation "measure (\<lambda>(n, xs). length xs)") auto

declare chunks.simps [simp del]

fun schedule :: "nat \<Rightarrow> w32 list \<Rightarrow> w32 list" where
  "schedule 0 ws = ws"
| "schedule (Suc n) ws =
     (let t = length ws
      in schedule n (ws @ [rotl32 1 (ws ! (t - 3) XOR ws ! (t - 8) XOR ws ! (t - 14) XOR ws ! (t - 16))]))"

definition sha1F :: "nat \<Rightarrow> w32 \<Rightarrow> w32 \<Rightarrow> w32 \<Rightarrow> w32" where
  "sha1F t b c d =
     (if t < 20 then (b AND c) OR (NOT b AND d)
      else if t < 40 then b XOR c XOR d
      else if t < 60 then ((b OR c) AND d) OR (b AND c)
      else b XOR c XOR d)"

definition sha1K :: "nat \<Rightarrow> w32" where
  "sha1K t = (if t < 20 then 0x5A827999 else if t < 40 then 0x6ED9EBA1 else if t < 60 then 0x8F1BBCDC else 0xCA62C1D6)"

type_synonym digest = "w32 \<times> w32 \<times> w32 \<times> w32 \<times> w32"

definition sha1Round :: "nat \<times> w32 \<Rightarrow> digest \<Rightarrow> digest" where
  "sha1Round = (\<lambda>(t, w) (a, b, c, d, e). (rotl32 5 a + sha1F t b c d + e + w + sha1K t, a, rotl32 30 b, c, d))"

definition sha1Block :: "string \<Rightarrow> digest \<Rightarrow> digest" where
  "sha1Block blk h =
     (let ws = schedule 64 (map be32 (chunks 4 blk))
      in case (h, fold sha1Round (zip [0..<80] ws) h) of
           ((h0, h1, h2, h3, h4), (a, b, c, d, e)) \<Rightarrow> (h0 + a, h1 + b, h2 + c, h3 + d, h4 + e))"

definition sha1Init :: digest where
  "sha1Init = (0x67452301, 0xEFCDAB89, 0x98BADCFE, 0x10325476, 0xC3D2E1F0)"

definition hexDigit :: "nat \<Rightarrow> char" where
  "hexDigit d = ''0123456789abcdef'' ! d"

definition hex32 :: "w32 \<Rightarrow> string" where
  "hex32 w = map (\<lambda>i. hexDigit (unat w div 16 ^ (7 - i) mod 16)) [0..<8]"

definition scriptSHA1 :: "string \<Rightarrow> string" where
  "scriptSHA1 script =
     (case fold sha1Block (chunks 64 (sha1Pad script)) sha1Init of
        (a, b, c, d, e) \<Rightarrow> hex32 a @ hex32 b @ hex32 c @ hex32 d @ hex32 e)"

section \<open>Properties\<close>

lemma length_hex32 [simp]: "length (hex32 w) = 8"
  by (simp add: hex32_def)

lemma length_scriptSHA1: "length (scriptSHA1 s) = 40"
  by (simp add: scriptSHA1_def case_prod_unfold)

lemma hexDigit_lower: "d < 16 \<Longrightarrow> hexDigit d \<in> set ''0123456789abcdef''"
  unfolding hexDigit_def by (rule nth_mem) simp

lemma hex32_hex: "set (hex32 w) \<subseteq> set ''0123456789abcdef''"
proof -
  have "hexDigit (n mod 16) \<in> set ''0123456789abcdef''" for n by (rule hexDigit_lower) simp
  then show ?thesis unfolding hex32_def set_map by blast
qed

lemma scriptSHA1_hex: "set (scriptSHA1 s) \<subseteq> set ''0123456789abcdef''"
  unfolding scriptSHA1_def case_prod_unfold set_append using hex32_hex by blast

end
