(* ===== verification/Scripting.thy ===== *)
theory Scripting
  imports Confinement Sha1
begin

text \<open>
  Lua scripting (\<^verbatim>\<open>src/internal/handler/lua.go\<close>) and the transactions it shares with
  EXEC (\<^verbatim>\<open>runTx\<close> of \<^verbatim>\<open>src/internal/handler/handler.go\<close>).

  The interpreter gopher-lua is not part of the sources.  It is the parameter
  \<open>luaStep\<close>: from the script, KEYS, ARGV and the replies of the calls made so far it
  gives the next thing the script does, so a script that loops for ever is one that never returns
  (None).  \<^verbatim>\<open>respToLua\<close>, which tells a nil slice from an empty one, belongs to it.
  A Lua table is a finite tree; \<^verbatim>\<open>luaToResp\<close> does not terminate on a cyclic one.
\<close>

section \<open>The backend\<close>

text \<open>
  \<^verbatim>\<open>storage.Backend\<close>: its own operations, those of the open transaction, and the
  methods of transactions.  \<open>backoff\<close> is the wait before a retry (the error of
  the context when it ends first).
\<close>

record ('st, 's) backend =
  store :: "('st, 's) operations"
  tx :: "('st, 's) operations"
  beginTx :: "'st \<Rightarrow> (pg_error + unit) \<times> 'st"
  lockTx :: "string list \<Rightarrow> 'st \<Rightarrow> (pg_error + unit) \<times> 'st"
  commitTx :: "'st \<Rightarrow> (pg_error + unit) \<times> 'st"
  rollbackTx :: "'st \<Rightarrow> 'st"
  flushAll :: "'st \<Rightarrow> (pg_error + unit) \<times> 'st"
  backoff :: "nat \<Rightarrow> 'st \<Rightarrow> string option \<times> 'st"

text \<open>\<^verbatim>\<open>Error()\<close> of an error of the driver.\<close>

primrec errorText :: "pg_error \<Rightarrow> string" where
  "errorText (PgError code msg) = ''ERROR: '' @ msg @ '' (SQLSTATE '' @ code @ '')''"
| "errorText (OtherError msg) = msg"

definition isRetryableMessage :: "string \<Rightarrow> bool" where
  "isRetryableMessage msg = (Contains msg ''(SQLSTATE 40P01)'' \<or> Contains msg ''(SQLSTATE 40001)'')"

definition hasRetryableError :: "Value \<Rightarrow> bool" where
  "hasRetryableError v =
     (if vType v = Error then isRetryableMessage (vStr v)
      else \<exists>e \<in> set (vArray v). vType e = Error \<and> isRetryableMessage (vStr e))"

section \<open>The script cache\<close>

type_synonym ScriptCache = "(string \<times> string) list"

type_synonym 'st world = "ScriptCache \<times> 'st"

definition cacheStore :: "string \<Rightarrow> ScriptCache \<Rightarrow> string \<times> ScriptCache" where
  "cacheStore script sc = (let sha = scriptSHA1 script in (sha, AList.update sha script sc))"

definition cacheLookup :: "string \<Rightarrow> ScriptCache \<Rightarrow> string option" where
  "cacheLookup sha sc = map_of sc (ToLower sha)"

definition cacheExists :: "string list \<Rightarrow> ScriptCache \<Rightarrow> bool list" where
  "cacheExists shas sc = map (\<lambda>sha. map_of sc (ToLower sha) \<noteq> None) shas"

definition cacheFlush :: "ScriptCache \<Rightarrow> ScriptCache" where
  "cacheFlush sc = []"

section \<open>Transactions with retry\<close>

definition maxExecRetries :: nat where
  "maxExecRetries = 3"

text \<open>
  One round of the loop of \<^verbatim>\<open>runTx\<close>: the reply it would return, and whether
  the error behind it may be retried.
\<close>

definition tryTx ::
  "('st, 's) backend \<Rightarrow> string list \<Rightarrow> ('st world \<Rightarrow> 'st world handled option) \<Rightarrow> 'st world \<Rightarrow> ('st world handled \<times> bool) option" where
  "tryTx be keys fn = (\<lambda>(sc, st).
     case beginTx be st of
       (Inl e, st) \<Rightarrow> Some (says (Err (''transaction start failed: '' @ errorText e)) (sc, st), False)
     | (Inr _, st) \<Rightarrow>
         (case lockTx be keys st of
            (Inl e, st) \<Rightarrow>
              Some (says (Err (''transaction failed: '' @ errorText e)) (sc, rollbackTx be st), isRetryableError e)
          | (Inr _, st) \<Rightarrow>
              (case fn (sc, st) of
                 None \<Rightarrow> None
               | Some (Inl p, w) \<Rightarrow> Some (panic p w, False)
               | Some (Inr result, (sc, st)) \<Rightarrow>
                   if hasRetryableError result then Some (says result (sc, rollbackTx be st), True)
                   else (case commitTx be st of
                           (Inl e, st) \<Rightarrow>
                             Some (says (if vType result = Error then result
                                         else Err (''transaction commit failed: '' @ errorText e))
                                     (sc, rollbackTx be st), isRetryableError e)
                         | (Inr _, st) \<Rightarrow> Some (says result (sc, st), False)))))"

function runTxLoop ::
  "('st, 's) backend \<Rightarrow> string list \<Rightarrow> ('st world \<Rightarrow> 'st world handled option) \<Rightarrow> nat \<Rightarrow> 'st world \<Rightarrow> 'st world handled option" where
  "runTxLoop be keys fn attempt (sc, st) =
     (case (if attempt > 0 then backoff be attempt st else (None, st)) of
        (Some e, st) \<Rightarrow> Some (says (Err (''transaction aborted: '' @ e)) (sc, st))
      | (None, st) \<Rightarrow>
          (case tryTx be keys fn (sc, st) of
             None \<Rightarrow> None
           | Some (h, again) \<Rightarrow>
               if again \<and> attempt < maxExecRetries then runTxLoop be keys fn (attempt + 1) (snd h) else Some h))"
  by pat_completeness auto

termination runTxLoop
  by (relation "measure (\<lambda>(_, _, _, attempt, _). maxExecRetries - attempt)") auto

declare runTxLoop.simps [simp del]

definition runTx ::
  "('st, 's) backend \<Rightarrow> string list \<Rightarrow> ('st world \<Rightarrow> 'st world handled option) \<Rightarrow> 'st world \<Rightarrow> 'st world handled option" where
  "runTx be keys fn = runTxLoop be keys fn 0"

section \<open>Lua\<close>

text \<open>
  The values of gopher-lua: \<open>LOther\<close> stands for functions, threads and user data.
  A step of the interpreter is a call of \<^verbatim>\<open>redis.call\<close> or \<^verbatim>\<open>redis.pcall\<close>
  (\<open>LCall\<close>: whether protected, the command name unless there are no arguments,
  the other arguments), the end of the script with the value on top of the stack,
  or a Lua error.
\<close>

datatype 's lua_value =
  LString string | LNumber 's | LBool bool | LNil | LTable "('s lua_value \<times> 's lua_value) list" | LOther

datatype 's lua_step = LCall bool "string option" "'s lua_value list" | LReturn "'s lua_value option" | LFail string

record 's lua =
  luaStep :: "string \<Rightarrow> string list \<Rightarrow> string list \<Rightarrow> Value list \<Rightarrow> 's lua_step"
  luaPrint :: "'s lua_value \<Rightarrow> string"
  wholeNumber :: "'s \<Rightarrow> int option"

definition luaToString :: "'s floats \<Rightarrow> 's lua \<Rightarrow> 's lua_value \<Rightarrow> string" where
  "luaToString fl lua v =
     (case v of
        LString s \<Rightarrow> s
      | LNumber x \<Rightarrow> (case wholeNumber lua x of Some n \<Rightarrow> FormatInt n | None \<Rightarrow> FormatFloat fl x)
      | LBool b \<Rightarrow> if b then ''1'' else ''0''
      | LNil \<Rightarrow> []
      | _ \<Rightarrow> luaPrint lua v)"

text \<open>\<^verbatim>\<open>RawGetString\<close>: nil when the field is not there.\<close>

definition rawGetString :: "string \<Rightarrow> ('s lua_value \<times> 's lua_value) list \<Rightarrow> 's lua_value" where
  "rawGetString field entries = (case map_of entries (LString field) of Some v \<Rightarrow> v | None \<Rightarrow> LNil)"

fun isNumber :: "'s lua_value \<Rightarrow> bool" where
  "isNumber (LNumber _) = True" | "isNumber _ = False"

fun luaToResp :: "'s floats \<Rightarrow> 's lua \<Rightarrow> 's lua_value \<Rightarrow> Value"
  and luaItems :: "'s floats \<Rightarrow> 's lua \<Rightarrow> ('s lua_value \<times> 's lua_value) list \<Rightarrow> Value list" where
  "luaToResp fl lua (LString s) = Bulk s"
| "luaToResp fl lua (LNumber x) = (case wholeNumber lua x of Some n \<Rightarrow> IntVal n | None \<Rightarrow> Bulk (FormatFloat fl x))"
| "luaToResp fl lua (LBool b) = (if b then IntVal 1 else NullBulk)"
| "luaToResp fl lua LNil = NullBulk"
| "luaToResp fl lua (LTable entries) =
     (let err = rawGetString ''err'' entries; ok' = rawGetString ''ok'' entries
      in if err \<noteq> LNil then ErrCustom (luaToString fl lua err)
         else if ok' \<noteq> LNil then SimpleVal (luaToString fl lua ok')
         else Arr (luaItems fl lua entries))"
| "luaToResp fl lua LOther = NullBulk"
| "luaItems fl lua [] = []"
| "luaItems fl lua ((k, v) # rest) =
     (if isNumber k then luaToResp fl lua v # luaItems fl lua rest else luaItems fl lua rest)"

text \<open>\<^verbatim>\<open>luaErrLine\<close>: the digits of the first match of \<^verbatim>\<open><string>:(\d+):\<close>.\<close>

fun luaErrLine :: "string \<Rightarrow> string option" where
  "luaErrLine [] = None"
| "luaErrLine (c # s) =
     (let rest = drop 9 (c # s); digits = takeWhile is_digit rest
      in if HasPrefix (c # s) ''<string>:'' \<and> digits \<noteq> [] \<and> HasPrefix (drop (length digits) rest) '':''
         then Some digits else luaErrLine s)"

definition scriptError :: "string \<Rightarrow> string \<Rightarrow> string \<Rightarrow> string" where
  "scriptError script err callErr =
     (let msg = takeWhile (\<lambda>c. c \<noteq> LF) err; line = (case luaErrLine msg of Some l \<Rightarrow> l | None \<Rightarrow> ''?'')
      in if callErr \<noteq> [] \<and> HasSuffix msg callErr
         then callErr @ '' script: '' @ scriptSHA1 script @ '', on @user_script:'' @ line @ ''.''
         else ''ERR Error running script: '' @ msg)"

definition scriptForbidden :: "string set" where
  "scriptForbidden = {''SUBSCRIBE'', ''PSUBSCRIBE'', ''UNSUBSCRIBE'', ''PUNSUBSCRIBE'', ''PUBLISH'', ''MULTI'', ''EXEC'',
     ''DISCARD'', ''WATCH'', ''UNWATCH'', ''EVAL'', ''EVALSHA'', ''SCRIPT''}"

definition executeRedisCommand ::
  "Handler \<Rightarrow> ('s :: {linorder, plus, zero}) floats \<Rightarrow> 's lua \<Rightarrow> ctx \<Rightarrow> ('st, 's) operations \<Rightarrow> string option \<Rightarrow> 's lua_value list
     \<Rightarrow> 'st \<Rightarrow> 'st handled option" where
  "executeRedisCommand h fl lua ctx ops name largs st =
     (case name of
        None \<Rightarrow> Some (says (Err ''Please specify at least one argument for redis.call()'') st)
      | Some name \<Rightarrow>
          let cmdName = ToUpper name
          in if cmdName \<in> scriptForbidden then Some (says (Err ''This Redis command is not allowed from a script'') st)
             else executeData h fl ctx ops cmdName (map (\<lambda>v. Bulk (luaToString fl lua v)) largs) st)"

text \<open>
  \<^verbatim>\<open>Execute\<close>: the script runs until it returns or fails.  The state of the loop is
  the last error raised by \<^verbatim>\<open>redis.call\<close>, the replies so far, and the storage.
\<close>

definition luaRound ::
  "Handler \<Rightarrow> ('s :: {linorder, plus, zero}) floats \<Rightarrow> 's lua \<Rightarrow> ctx \<Rightarrow> ('st, 's) operations \<Rightarrow> string \<Rightarrow> string list \<Rightarrow> string list
     \<Rightarrow> string \<times> Value list \<times> 'st \<Rightarrow> ((string \<times> Value list \<times> 'st) handled + (string \<times> Value list \<times> 'st)) option" where
  "luaRound h fl lua ctx ops script keys argv = (\<lambda>(callErr, replies, st).
     case luaStep lua script keys argv replies of
       LReturn None \<Rightarrow> Some (Inl (Inr NullBulk, (callErr, replies, st)))
     | LReturn (Some v) \<Rightarrow> Some (Inl (Inr (luaToResp fl lua v), (callErr, replies, st)))
     | LFail e \<Rightarrow> Some (Inl (Inr (ErrCustom (scriptError script e callErr)), (callErr, replies, st)))
     | LCall protected name largs \<Rightarrow>
         (case executeRedisCommand h fl lua ctx ops name largs st of
            None \<Rightarrow> None
          | Some (Inl p, st) \<Rightarrow> Some (Inl (Inl p, (callErr, replies, st)))
          | Some (Inr v, st) \<Rightarrow>
              Some (Inr (if vType v = Error \<and> \<not> protected then vStr v else callErr, replies @ [v], st))))"

partial_function (option) luaLoop ::
  "('x \<Rightarrow> ('x handled + 'x) option) \<Rightarrow> 'x \<Rightarrow> 'x handled option" where
  "luaLoop rd x = Option.bind (rd x) (\<lambda>r. case r of Inl h \<Rightarrow> Some h | Inr x' \<Rightarrow> luaLoop rd x')"

definition luaExecute ::
  "Handler \<Rightarrow> ('s :: {linorder, plus, zero}) floats \<Rightarrow> 's lua \<Rightarrow> ctx \<Rightarrow> ('st, 's) operations \<Rightarrow> string list \<Rightarrow> string list \<Rightarrow> string
     \<Rightarrow> 'st \<Rightarrow> 'st handled option" where
  "luaExecute h fl lua ctx ops keys argv script st =
     map_option (\<lambda>(r, (_, _, st)). (r, st)) (luaLoop (luaRound h fl lua ctx ops script keys argv) ([], [], st))"

section \<open>EVAL, EVALSHA and SCRIPT\<close>

text \<open>An operation on the storage as one on storage and script cache.\<close>

definition onStorage :: "('st \<Rightarrow> 'st handled option) \<Rightarrow> 'st world \<Rightarrow> 'st world handled option" where
  "onStorage f = (\<lambda>(sc, st). map_option (\<lambda>(r, st). (r, (sc, st))) (f st))"

text \<open>\<^verbatim>\<open>runScript\<close>: \<open>inTrans\<close> tells whether the operations are those of a transaction.\<close>

definition runScript ::
  "Handler \<Rightarrow> ('s :: {linorder, plus, zero}) floats \<Rightarrow> 's lua \<Rightarrow> ('st, 's) backend \<Rightarrow> ctx \<Rightarrow> bool \<Rightarrow> string \<Rightarrow> string list \<Rightarrow> string list
     \<Rightarrow> 'st world \<Rightarrow> 'st world handled option" where
  "runScript h fl lua be ctx inTrans script keys argv = (\<lambda>(sc, st).
     let run' = onStorage (luaExecute h fl lua (ctx\<lparr>noBlock := True\<rparr>) (tx be) keys argv script)
     in if inTrans
        then (case lockTx be keys st of
                (Inl e, st) \<Rightarrow> Some (says (Err (errorText e)) (sc, st))
              | (Inr _, st) \<Rightarrow> run' (sc, st))
        else runTx be keys run' (sc, st))"

text \<open>The arguments \<^verbatim>\<open>numkeys key ... arg ...\<close> after the script.\<close>

definition evalArgs :: "Value list \<Rightarrow> Value + int" where
  "evalArgs args =
     (case Atoi (arg args 1) of
        Inl _ \<Rightarrow> Inl (Err errInt)
      | Inr numKeys \<Rightarrow>
          if numKeys < 0 then Inl (Err (''Number of keys can'' @ [CHR 0x27] @ ''t be negative''))
          else if int (length args) < wrap64 (2 + numKeys)
          then Inl (Err (''Number of keys can'' @ [CHR 0x27] @ ''t be greater than number of args''))
          else Inr numKeys)"

definition evalOp ::
  "Handler \<Rightarrow> ('s :: {linorder, plus, zero}) floats \<Rightarrow> 's lua \<Rightarrow> ('st, 's) backend \<Rightarrow> ctx \<Rightarrow> bool \<Rightarrow> Value list \<Rightarrow> 'st world
     \<Rightarrow> 'st world handled option" where
  "evalOp h fl lua be ctx inTrans args w =
     (if length args < 2 then Some (says (ErrWrongArgs ''eval'') w)
      else case evalArgs args of
             Inl e \<Rightarrow> Some (says e w)
           | Inr numKeys \<Rightarrow>
               (case takeKeys numKeys (bulks (drop 2 args)) of
                  Inl r \<Rightarrow> Some (stops r w)
                | Inr keys \<Rightarrow>
                    let script = arg args 0; argv = bulks (drop (2 + nat numKeys) args)
                    in case w of (sc, st) \<Rightarrow>
                         runScript h fl lua be ctx inTrans script keys argv (snd (cacheStore script sc), st)))"

definition errNoScript :: Value where
  "errNoScript = ErrCustom ''NOSCRIPT No matching script. Please use EVAL.''"

definition evalshaOp ::
  "Handler \<Rightarrow> ('s :: {linorder, plus, zero}) floats \<Rightarrow> 's lua \<Rightarrow> ('st, 's) backend \<Rightarrow> ctx \<Rightarrow> bool \<Rightarrow> Value list \<Rightarrow> 'st world
     \<Rightarrow> 'st world handled option" where
  "evalshaOp h fl lua be ctx inTrans args w =
     (if length args < 2 then Some (says (ErrWrongArgs ''evalsha'') w)
      else case evalArgs args of
             Inl e \<Rightarrow> Some (says e w)
           | Inr numKeys \<Rightarrow>
               (case cacheLookup (arg args 0) (fst w) of
                  None \<Rightarrow> Some (says errNoScript w)
                | Some script \<Rightarrow>
                    (case takeKeys numKeys (bulks (drop 2 args)) of
                       Inl r \<Rightarrow> Some (stops r w)
                     | Inr keys \<Rightarrow>
                         runScript h fl lua be ctx inTrans script keys (bulks (drop (2 + nat numKeys) args)) w)))"

definition scriptOp :: "Value list \<Rightarrow> 'st world \<Rightarrow> 'st world handled" where
  "scriptOp args = (\<lambda>(sc, st).
     if args = [] then says (ErrWrongArgs ''script'') (sc, st)
     else let subCmd = ToUpper (arg args 0); subArgs = bulks (tl args)
          in if subCmd = ''LOAD''
             then (if length subArgs \<noteq> 1 then says (ErrWrongArgs ''script load'') (sc, st)
                   else case cacheStore (hd subArgs) sc of (sha, sc) \<Rightarrow> says (Bulk sha) (sc, st))
             else if subCmd = ''EXISTS''
             then (if subArgs = [] then says (ErrWrongArgs ''script exists'') (sc, st)
                   else says (Arr (map bit (cacheExists subArgs sc))) (sc, st))
             else if subCmd = ''FLUSH'' then says OK (cacheFlush sc, st)
             else if subCmd = ''KILL'' then says (Err ''NOTBUSY No scripts in execution right now.'') (sc, st)
             else if subCmd = ''DEBUG'' then says OK (sc, st)
             else says (Err (''Unknown subcommand or wrong number of arguments for '' @ quoted subCmd)) (sc, st))"

section \<open>ExecuteWithOps\<close>

definition ExecuteWithOps ::
  "Handler \<Rightarrow> ('s :: {linorder, plus, zero}) floats \<Rightarrow> 's lua \<Rightarrow> ('st, 's) backend \<Rightarrow> ctx \<Rightarrow> bool \<Rightarrow> string \<Rightarrow> Value list
     \<Rightarrow> 'st world \<Rightarrow> 'st world handled option" where
  "ExecuteWithOps h fl lua be ctx inTrans cmdName args =
     (if cmdName = ''EVAL'' then evalOp h fl lua be ctx inTrans args
      else if cmdName = ''EVALSHA'' then evalshaOp h fl lua be ctx inTrans args
      else if cmdName = ''SCRIPT'' then (\<lambda>w. Some (scriptOp args w))
      else onStorage (executeData h fl ctx (if inTrans then tx be else store be) cmdName args))"

end
