(* ===== verification/Client.thy ===== *)
theory Client
  imports HandlerBase
begin

text \<open>
  Per-connection state: \<^verbatim>\<open>ClientState\<close> of \<^verbatim>\<open>src/internal/server/client.go\<close>.  The
  locks and the network connection are left out; what is written to the client
  is a list of replies.
\<close>

record ClientState =
  ID :: nat
  Name :: string
  Addr :: string
  CreatedAt :: time
  LibName :: string
  LibVersion :: string
  protocolVersion :: int
  inTransaction :: bool
  queuedCommands :: "Value list"
  inPubSubMode :: bool

definition NewClientState :: "nat \<Rightarrow> string \<Rightarrow> time \<Rightarrow> ClientState" where
  "NewClientState id' addr now =
     \<lparr>ID = id', Name = [], Addr = addr, CreatedAt = now, LibName = [], LibVersion = [], protocolVersion = 2,
      inTransaction = False, queuedCommands = [], inPubSubMode = False\<rparr>"

definition SetProtocolVersion :: "int \<Rightarrow> ClientState \<Rightarrow> ClientState" where
  "SetProtocolVersion version c = (if 2 \<le> version \<and> version \<le> 3 then c\<lparr>protocolVersion := version\<rparr> else c)"

definition UseRESP3 :: "ClientState \<Rightarrow> bool" where
  "UseRESP3 c = (protocolVersion c \<ge> 3)"

definition SetName :: "string \<Rightarrow> ClientState \<Rightarrow> ClientState" where
  "SetName name c = c\<lparr>Name := name\<rparr>"

definition SetLibInfo :: "string \<Rightarrow> string \<Rightarrow> ClientState \<Rightarrow> ClientState" where
  "SetLibInfo libName libVersion c =
     (let c = (if libName \<noteq> [] then c\<lparr>LibName := libName\<rparr> else c)
      in if libVersion \<noteq> [] then c\<lparr>LibVersion := libVersion\<rparr> else c)"

definition GetInfo :: "'s floats \<Rightarrow> time \<Rightarrow> ClientState \<Rightarrow> string" where
  "GetInfo fl now c =
     ''id='' @ FormatUint (ID c) @ '' addr='' @ Addr c @ '' age='' @ FormatInt (wholeSeconds fl (until (CreatedAt c) now))
       @ '' name='' @ Name c
       @ (if LibName c \<noteq> [] then '' lib-name='' @ LibName c else [])
       @ (if LibVersion c \<noteq> [] then '' lib-ver='' @ LibVersion c else [])"

definition StartTransaction :: "ClientState \<Rightarrow> (string + unit) \<times> ClientState" where
  "StartTransaction c =
     (if inTransaction c then (Inl ''ERR MULTI calls can not be nested'', c)
      else (Inr (), c\<lparr>inTransaction := True, queuedCommands := []\<rparr>))"

definition QueueCommand :: "Value \<Rightarrow> ClientState \<Rightarrow> ClientState" where
  "QueueCommand cmd c = c\<lparr>queuedCommands := queuedCommands c @ [cmd]\<rparr>"

definition GetQueuedCommands :: "ClientState \<Rightarrow> Value list \<times> ClientState" where
  "GetQueuedCommands c = (queuedCommands c, c\<lparr>queuedCommands := [], inTransaction := False\<rparr>)"

definition DiscardTransaction :: "ClientState \<Rightarrow> (string + unit) \<times> ClientState" where
  "DiscardTransaction c =
     (if \<not> inTransaction c then (Inl ''ERR DISCARD without MULTI'', c)
      else (Inr (), c\<lparr>inTransaction := False, queuedCommands := []\<rparr>))"

definition QueueLength :: "ClientState \<Rightarrow> nat" where
  "QueueLength c = length (queuedCommands c)"

definition EnterPubSubMode :: "ClientState \<Rightarrow> ClientState" where
  "EnterPubSubMode c = c\<lparr>inPubSubMode := True\<rparr>"

definition ExitPubSubMode :: "ClientState \<Rightarrow> ClientState" where
  "ExitPubSubMode c = c\<lparr>inPubSubMode := False\<rparr>"

text \<open>\<^verbatim>\<open>SendPubSubMessage\<close>: the value that is written, or an error.\<close>

definition pubSubValue :: "bool \<Rightarrow> Value list \<Rightarrow> Value" where
  "pubSubValue r3 items = Value (if r3 then PushType else Array) [] 0 [] items [] False"

definition pubSubMessage :: "bool \<Rightarrow> string \<Rightarrow> string \<Rightarrow> string \<Rightarrow> string + Value" where
  "pubSubMessage r3 msgType channel body =
     (if msgType = ''message'' then Inr (pubSubValue r3 [Bulk ''message'', Bulk channel, Bulk body])
      else if msgType = ''pmessage''
      then (if CHR 0x00 \<notin> set channel then Inl ''invalid pmessage channel format''
            else let pattern = takeWhile (\<lambda>c. c \<noteq> CHR 0x00) channel
                 in Inr (pubSubValue r3 [Bulk ''pmessage'', Bulk pattern, Bulk (drop (length pattern + 1) channel), Bulk body]))
      else Inl (''unknown message type: '' @ msgType))"

end
