(* ===== verification/Commands.thy ===== *)
theory Commands
  imports Scripting Client
begin

text \<open>
  The handler of \<^verbatim>\<open>src/internal/handler/handler.go\<close>: commands that do not use the
  storage, CLIENT, MULTI/EXEC/DISCARD, and the entry point \<^verbatim>\<open>Handle\<close>.  Metrics are left out.
\<close>

section \<open>Connection commands\<close>

definition RequiresAuth :: "Handler \<Rightarrow> bool" where
  "RequiresAuth h = (password h \<noteq> [])"

definition CheckAuth :: "Handler \<Rightarrow> string \<Rightarrow> bool" where
  "CheckAuth h provided = (password h = provided)"

definition GetHelloProtocolVersion :: "Value \<Rightarrow> int" where
  "GetHelloProtocolVersion cmd =
     (if vType cmd \<noteq> Array \<or> length (vArray cmd) < 2 then 2
      else case Atoi (arg (tl (vArray cmd)) 0) of
             Inr v \<Rightarrow> if 2 \<le> v \<and> v \<le> 3 then v else 2
           | Inl _ \<Rightarrow> 2)"

fun helloAuthScan :: "Handler \<Rightarrow> string list \<Rightarrow> bool \<times> bool" where
  "helloAuthScan h [] = (False, False)"
| "helloAuthScan h (a # rest) =
     (let opt = ToUpper a
      in if opt = ''AUTH''
         then (case rest of user # pw # _ \<Rightarrow> (True, CheckAuth h pw) | _ \<Rightarrow> (True, False))
         else if opt = ''SETNAME''
         then (case rest of [] \<Rightarrow> (False, False) | _ # rest' \<Rightarrow> helloAuthScan h rest')
         else (False, False))"

definition CheckHelloAuth :: "Handler \<Rightarrow> Value \<Rightarrow> bool \<times> bool" where
  "CheckHelloAuth h cmd =
     (if vType cmd \<noteq> Array \<or> length (vArray cmd) < 2 then (False, False)
      else let args = bulks (tl (vArray cmd))
           in helloAuthScan h (case Atoi (hd args) of Inr _ \<Rightarrow> tl args | Inl _ \<Rightarrow> args))"

definition ping :: "Value list \<Rightarrow> Value" where
  "ping args = (if args = [] then SimpleVal ''PONG'' else Bulk (arg args 0))"

definition echo :: "Value list \<Rightarrow> Value" where
  "echo args = (if length args \<noteq> 1 then ErrWrongArgs ''echo'' else Bulk (arg args 0))"

definition commandInfo :: "Value list \<Rightarrow> Value" where
  "commandInfo args = Arr []"

definition errUnknownSub :: "string \<Rightarrow> Value" where
  "errUnknownSub sub = Err (''Unknown subcommand or wrong number of arguments for '' @ quoted sub)"

definition clusterInfo :: string where
  "clusterInfo = concat (map (\<lambda>l. l @ [CR, LF])
     [''cluster_enabled:0'', ''cluster_state:ok'', ''cluster_slots_assigned:0'', ''cluster_slots_ok:0'',
      ''cluster_slots_pfail:0'', ''cluster_slots_fail:0'', ''cluster_known_nodes:1'', ''cluster_size:0'',
      ''cluster_current_epoch:0'', ''cluster_my_epoch:0'', ''cluster_stats_messages_sent:0'',
      ''cluster_stats_messages_received:0'', ''cluster_stats_messages_ping_sent:0'',
      ''cluster_stats_messages_pong_sent:0'', ''cluster_stats_messages_meet_sent:0'',
      ''cluster_stats_messages_ping_received:0'', ''cluster_stats_messages_pong_received:0''])
     @ ''cluster_stats_messages_meet_received:0''"

definition cluster :: "Value list \<Rightarrow> Value" where
  "cluster args =
     (if args = [] then ErrWrongArgs ''cluster''
      else let subCmd = ToUpper (arg args 0)
           in if subCmd = ''INFO'' then Bulk clusterInfo
              else if subCmd = ''SLOTS'' then Arr []
              else if subCmd = ''NODES'' then Bulk []
              else if subCmd = ''MYID'' then Bulk (replicate 40 (CHR ''0''))
              else if subCmd = ''KEYSLOT'' then IntVal 0
              else errUnknownSub subCmd)"

definition selectDB :: "Value list \<Rightarrow> Value" where
  "selectDB args =
     (if length args \<noteq> 1 then ErrWrongArgs ''select''
      else case Atoi (arg args 0) of
             Inl _ \<Rightarrow> Err errInt
           | Inr db \<Rightarrow> if db \<noteq> 0 then Err ''DB index is out of range'' else OK)"

definition wait :: "Value list \<Rightarrow> Value" where
  "wait args = (if length args < 2 then ErrWrongArgs ''wait'' else IntVal 0)"

definition config :: "Value list \<Rightarrow> Value" where
  "config args =
     (if args = [] then ErrWrongArgs ''config''
      else let subCmd = ToUpper (arg args 0)
           in if subCmd = ''GET'' then (if length args < 2 then ErrWrongArgs ''config get'' else Arr [])
              else if subCmd \<in> {''SET'', ''RESETSTAT'', ''REWRITE''} then OK
              else errUnknownSub (''CONFIG '' @ subCmd))"

definition errWrongPass :: Value where
  "errWrongPass = ErrCustom ''WRONGPASS invalid username-password pair''"

fun helloOptions :: "Handler \<Rightarrow> string list \<Rightarrow> Value option" where
  "helloOptions h [] = None"
| "helloOptions h (a # rest) =
     (let opt = ToUpper a
      in if opt = ''AUTH''
         then (case rest of
                 user # pw # rest' \<Rightarrow>
                   if RequiresAuth h \<and> \<not> CheckAuth h pw then Some errWrongPass else helloOptions h rest'
               | _ \<Rightarrow> Some (ErrWrongArgs ''hello''))
         else if opt = ''SETNAME''
         then (case rest of [] \<Rightarrow> Some (ErrWrongArgs ''hello'') | _ # rest' \<Rightarrow> helloOptions h rest')
         else Some (Err (''Unknown option '' @ quoted a @ '' for HELLO'')))"

definition helloReply :: "int \<Rightarrow> Value" where
  "helloReply protover =
     Arr [Bulk ''server'', Bulk ''postkeys'', Bulk ''version'', Bulk ''1.0.0'', Bulk ''proto'', IntVal protover,
          Bulk ''id'', IntVal 0, Bulk ''mode'', Bulk ''standalone'', Bulk ''role'', Bulk ''master'', Bulk ''modules'', Arr []]"

definition hello :: "Handler \<Rightarrow> Value list \<Rightarrow> Value" where
  "hello h args =
     (if args = [] then helloReply 2
      else case Atoi (arg args 0) of
             Inr v \<Rightarrow>
               if v < 2 \<or> v > 3 then Err ''NOPROTO unsupported protocol version''
               else (case helloOptions h (bulks (tl args)) of Some e \<Rightarrow> e | None \<Rightarrow> helloReply v)
           | Inl _ \<Rightarrow> (case helloOptions h (bulks (tl args)) of Some e \<Rightarrow> e | None \<Rightarrow> helloReply 2))"

definition auth :: "Handler \<Rightarrow> Value list \<Rightarrow> Value" where
  "auth h args =
     (if \<not> RequiresAuth h
      then Err ''AUTH <password> called without any password configured for the default user. Are you sure your configuration is correct?''
      else case bulks args of
             [pw] \<Rightarrow> if CheckAuth h pw then OK else errWrongPass
           | [user, pw] \<Rightarrow> if CheckAuth h pw then OK else errWrongPass
           | _ \<Rightarrow> ErrWrongArgs ''auth'')"

definition flushdb :: "('st, 's) backend \<Rightarrow> 'st world \<Rightarrow> 'st world handled" where
  "flushdb be = (\<lambda>(sc, st).
     case flushAll be st of
       (Inl e, st) \<Rightarrow> says (Err (errorText e)) (sc, st)
     | (Inr _, st) \<Rightarrow> says OK (sc, st))"

section \<open>The entry points\<close>

definition returns :: "Value \<Rightarrow> 'w \<Rightarrow> 'w handled option" where
  "returns v w = Some (says v w)"

definition executeCommand ::
  "Handler \<Rightarrow> ('s :: {linorder, plus, zero}) floats \<Rightarrow> 's lua \<Rightarrow> ('st, 's) backend \<Rightarrow> ctx \<Rightarrow> string \<Rightarrow> Value list
     \<Rightarrow> 'st world \<Rightarrow> 'st world handled option" where
  "executeCommand h fl lua be ctx cmdName args =
     (if cmdName = ''PING'' then returns (ping args)
      else if cmdName = ''ECHO'' then returns (echo args)
      else if cmdName = ''QUIT'' then returns OK
      else if cmdName = ''AUTH'' then returns (auth h args)
      else if cmdName = ''HELLO'' then returns (hello h args)
      else if cmdName = ''COMMAND'' then returns (commandInfo args)
      else if cmdName = ''CLUSTER'' then returns (cluster args)
      else if cmdName = ''CONFIG'' then returns (config args)
      else if cmdName = ''SELECT'' then returns (selectDB args)
      else if cmdName = ''WAIT'' then returns (wait args)
      else if cmdName \<in> {''MULTI'', ''EXEC'', ''DISCARD''}
      then returns (Err (''ERR '' @ cmdName @ '' must be handled with transaction context''))
      else if cmdName \<in> {''FLUSHDB'', ''FLUSHALL''} then (\<lambda>w. Some (flushdb be w))
      else ExecuteWithOps h fl lua be ctx False cmdName args)"

definition Handle ::
  "Handler \<Rightarrow> ('s :: {linorder, plus, zero}) floats \<Rightarrow> 's lua \<Rightarrow> ('st, 's) backend \<Rightarrow> ctx \<Rightarrow> Value
     \<Rightarrow> 'st world \<Rightarrow> 'st world handled option" where
  "Handle h fl lua be ctx cmd =
     (if vType cmd \<noteq> Array \<or> vArray cmd = [] then returns (Err ''invalid command format'')
      else executeCommand h fl lua be ctx (ToUpper (arg (vArray cmd) 0)) (tl (vArray cmd)))"

definition executeClientCommand :: "'s floats \<Rightarrow> time \<Rightarrow> string \<Rightarrow> Value list \<Rightarrow> ClientState \<Rightarrow> Value \<times> ClientState" where
  "executeClientCommand fl now subCmd args c =
     (if subCmd = ''ID'' then (IntVal (wrap64 (int (ID c))), c)
      else if subCmd = ''GETNAME'' then (if Name c = [] then NullBulk else Bulk (Name c), c)
      else if subCmd = ''SETNAME''
      then (if length args \<noteq> 1 then (ErrWrongArgs ''client setname'', c) else (OK, SetName (arg args 0) c))
      else if subCmd = ''SETINFO''
      then (if length args < 2 then (ErrWrongArgs ''client setinfo'', c)
            else let infoType = ToUpper (arg args 0); infoValue = arg args 1
                 in if infoType = ''LIB-NAME'' then (OK, SetLibInfo infoValue [] c)
                    else if infoType = ''LIB-VER'' then (OK, SetLibInfo [] infoValue c)
                    else (Err ''Unknown argument for CLIENT SETINFO'', c))
      else if subCmd = ''INFO'' then (Bulk (GetInfo fl now c), c)
      else if subCmd = ''LIST'' then (Bulk (GetInfo fl now c @ [LF]), c)
      else if subCmd = ''TRACKINGINFO'' then (Arr [], c)
      else if subCmd = ''CACHING'' then (OK, c)
      else if subCmd = ''GETREDIR'' then (IntVal (-1), c)
      else if subCmd \<in> {''UNPAUSE'', ''PAUSE'', ''NO-EVICT'', ''NO-TOUCH''} then (OK, c)
      else if subCmd = ''REPLY'' then (if length args \<noteq> 1 then ErrWrongArgs ''client reply'' else OK, c)
      else (errUnknownSub subCmd, c))"

definition HandleClient :: "'s floats \<Rightarrow> time \<Rightarrow> Value \<Rightarrow> ClientState \<Rightarrow> Value \<times> ClientState" where
  "HandleClient fl now cmd c =
     (if vType cmd \<noteq> Array \<or> length (vArray cmd) < 2 then (ErrWrongArgs ''client'', c)
      else executeClientCommand fl now (ToUpper (arg (vArray cmd) 1)) (drop 2 (vArray cmd)) c)"

definition HandleMulti :: "ClientState \<Rightarrow> Value \<times> ClientState" where
  "HandleMulti c = (case StartTransaction c of (Inl e, c) \<Rightarrow> (Err e, c) | (Inr _, c) \<Rightarrow> (OK, c))"

definition HandleDiscard :: "ClientState \<Rightarrow> Value \<times> ClientState" where
  "HandleDiscard c = (case DiscardTransaction c of (Inl e, c) \<Rightarrow> (Err e, c) | (Inr _, c) \<Rightarrow> (OK, c))"

section \<open>EXEC\<close>

text \<open>The keys of all queued commands, in order; a bad slice expression panics.\<close>

fun queuedKeys :: "Value list \<Rightarrow> string + string list" where
  "queuedKeys [] = Inr []"
| "queuedKeys (cmd # cmds) =
     (case (if vType cmd = Array \<and> vArray cmd \<noteq> []
            then commandKeys (ToUpper (arg (vArray cmd) 0)) (tl (vArray cmd)) else Inr []) of
        Inl e \<Rightarrow> Inl e
      | Inr ks \<Rightarrow> map_sum id (\<lambda>rest. ks @ rest) (queuedKeys cmds))"

text \<open>The queued commands run one after the other on the transaction.\<close>

fun execQueue ::
  "Handler \<Rightarrow> ('s :: {linorder, plus, zero}) floats \<Rightarrow> 's lua \<Rightarrow> ('st, 's) backend \<Rightarrow> ctx \<Rightarrow> Value list \<Rightarrow> 'st world
     \<Rightarrow> ((string + Value list) \<times> 'st world) option" where
  "execQueue h fl lua be ctx [] w = Some (Inr [], w)"
| "execQueue h fl lua be ctx (cmd # cmds) w =
     (case (if vType cmd \<noteq> Array \<or> vArray cmd = [] then returns (Err ''invalid command format'') w
            else ExecuteWithOps h fl lua be ctx True (ToUpper (arg (vArray cmd) 0)) (tl (vArray cmd)) w) of
        None \<Rightarrow> None
      | Some (Inl p, w) \<Rightarrow> Some (Inl p, w)
      | Some (Inr v, w) \<Rightarrow> map_option (\<lambda>(r, w). (map_sum id (\<lambda>vs. v # vs) r, w)) (execQueue h fl lua be ctx cmds w))"

definition HandleExec ::
  "Handler \<Rightarrow> ('s :: {linorder, plus, zero}) floats \<Rightarrow> 's lua \<Rightarrow> ('st, 's) backend \<Rightarrow> ctx \<Rightarrow> ClientState \<Rightarrow> 'st world
     \<Rightarrow> ClientState \<times> 'st world handled option" where
  "HandleExec h fl lua be ctx c w =
     (if \<not> inTransaction c then (c, returns (Err ''EXEC without MULTI'') w)
      else case GetQueuedCommands c of
             (commands, c) \<Rightarrow>
               (c, case queuedKeys commands of
                     Inl p \<Rightarrow> Some (panic p w)
                   | Inr keys \<Rightarrow>
                       runTx be keys
                         (\<lambda>w. map_option (\<lambda>(r, w). (map_sum id Arr r, w))
                                (execQueue h fl lua be (ctx\<lparr>noBlock := True\<rparr>) commands w)) w))"

end
