(* ===== verification/Sessions.thy ===== *)
theory Sessions
  imports Commands
begin

text \<open>
  The storage of \<open>Store\<close> as the backend of the handlers: \<^verbatim>\<open>Store\<close> and \<^verbatim>\<open>TxStore\<close> of
  \<^verbatim>\<open>src/internal/storage\<close> behind \<^verbatim>\<open>storage.Backend\<close> and \<^verbatim>\<open>storage.Transaction\<close>.
  A session is the committed database, the open transaction, the clock,
  the number of calls made so far and the list notifications sent.  What the surroundings decide
  at each call is the record \<open>fates\<close>: the fate of every try of a command, a
  statement, lock or commit that PostgreSQL refuses, how long a call takes, and
  how a wait ends.  A call takes at least a nanosecond.  \<open>waitFor\<close> is \<^verbatim>\<open>WaitForKeys\<close>:
  without a positive timeout it has no timer.
\<close>

record 's session =
  committed :: "'s db"
  transaction :: "'s TxStore option"
  clock :: time
  calls :: nat
  pushed :: "string list"

record 's fates =
  surroundings :: "'s env"
  attempts :: "nat \<Rightarrow> nat \<Rightarrow> attempt"
  cancels :: "nat \<Rightarrow> nat \<Rightarrow> bool"
  statementFails :: "nat \<Rightarrow> pg_error option"
  beginFails :: "nat \<Rightarrow> pg_error option"
  lockFails :: "nat \<Rightarrow> pg_error option"
  commitFails :: "nat \<Rightarrow> pg_error option"
  flushFails :: "nat \<Rightarrow> (nat \<times> pg_error) option"
  contextEnds :: "nat \<Rightarrow> string option"
  takes :: "nat \<Rightarrow> nat"
  woken :: "nat \<Rightarrow> string"

definition passes :: "'s fates \<Rightarrow> 's session \<Rightarrow> 's session" where
  "passes f s = s\<lparr>clock := clock s + 1 + int (takes f (calls s)), calls := calls s + 1\<rparr>"

definition waitFor :: "'s fates \<Rightarrow> string list \<Rightarrow> int \<Rightarrow> 's session \<Rightarrow> (string \<times> 's session) option" where
  "waitFor f keys t s =
     (let key = woken f (calls s)
      in if key \<in> set keys then Some (key, passes f s)
         else if keys = [] \<or> t > 0 \<or> contextEnds f (calls s) \<noteq> None then Some ([], passes f s)
         else None)"

definition waitTime :: "'s fates \<Rightarrow> int \<Rightarrow> 's session \<Rightarrow> bool \<times> 's session" where
  "waitTime f t s = (contextEnds f (calls s) \<noteq> None, passes f s)"

definition sessionExec ::
  "('s :: {linorder, plus, times, zero, one}) fates \<Rightarrow> 's command \<Rightarrow> 's session \<Rightarrow> (string + 's reply) \<times> 's session" where
  "sessionExec f c s =
     (case storeExec (surroundings f) (attempts f (calls s)) (cancels f (calls s)) (clock s) c (committed s) of
        (r, d) \<Rightarrow> (map_sum errorText id r, passes f (s\<lparr>committed := d\<rparr>)))"

definition errNoTx :: string where
  "errNoTx = ''tx is closed''"

definition abortTx :: "'s session \<Rightarrow> 's session" where
  "abortTx s = s\<lparr>transaction := map_option (\<lambda>t. t\<lparr>aborted := True\<rparr>) (transaction s)\<rparr>"

definition sessionTxExec ::
  "('s :: {linorder, plus, times, zero, one}) fates \<Rightarrow> 's command \<Rightarrow> 's session \<Rightarrow> (string + 's reply) \<times> 's session" where
  "sessionTxExec f c s =
     (case transaction s of
        None \<Rightarrow> (Inl errNoTx, passes f s)
      | Some t \<Rightarrow>
          (case statementFails f (calls s) of
             Some e \<Rightarrow> (Inl (errorText e), passes f (abortTx s))
           | None \<Rightarrow>
               (case txExec (surroundings f) (clock s) c t of (r, t) \<Rightarrow> (r, passes f (s\<lparr>transaction := Some t\<rparr>)))))"

definition sessionOps ::
  "('s fates \<Rightarrow> 's command \<Rightarrow> 's session \<Rightarrow> (string + 's reply) \<times> 's session) \<Rightarrow> 's fates \<Rightarrow> ('s session, 's) operations" where
  "sessionOps ex f =
     \<lparr>exec = ex f, clockOf = clock, elapse = passes f, notifyPush = (\<lambda>key s. s\<lparr>pushed := pushed s @ [key]\<rparr>),
      waitForKeys = waitFor f, waitTimer = waitTime f, ctxDone = (\<lambda>s. contextEnds f (calls s) \<noteq> None)\<rparr>"

definition errAbortedPg :: pg_error where
  "errAbortedPg = PgError ''25P02'' ''current transaction is aborted, commands ignored until end of transaction block''"

definition sessionBegin :: "'s fates \<Rightarrow> 's session \<Rightarrow> (pg_error + unit) \<times> 's session" where
  "sessionBegin f s =
     (case beginFails f (calls s) of
        Some e \<Rightarrow> (Inl e, passes f s)
      | None \<Rightarrow> (Inr (), passes f (s\<lparr>transaction := Some (BeginTx (committed s))\<rparr>)))"

definition sessionLock :: "'s fates \<Rightarrow> string list \<Rightarrow> 's session \<Rightarrow> (pg_error + unit) \<times> 's session" where
  "sessionLock f keys s =
     (case transaction s of
        None \<Rightarrow> (Inl (OtherError errNoTx), passes f s)
      | Some t \<Rightarrow>
          if keys = [] then (Inr (), s)
          else if aborted t then (Inl errAbortedPg, passes f s)
          else (case lockFails f (calls s) of
                  Some e \<Rightarrow> (Inl e, passes f (abortTx s))
                | None \<Rightarrow> (Inr (), passes f (s\<lparr>transaction := Some (LockKeys keys t)\<rparr>))))"

definition sessionCommit :: "'s fates \<Rightarrow> 's session \<Rightarrow> (pg_error + unit) \<times> 's session" where
  "sessionCommit f s =
     (case transaction s of
        None \<Rightarrow> (Inl (OtherError errNoTx), passes f s)
      | Some t \<Rightarrow>
          (case commitFails f (calls s) of
             Some e \<Rightarrow> (Inl e, passes f (s\<lparr>transaction := Some (t\<lparr>txdone := True\<rparr>)\<rparr>))
           | None \<Rightarrow>
               (case Commit t (committed s) of
                  (r, t, d) \<Rightarrow> (map_sum OtherError id r, passes f (s\<lparr>transaction := Some t, committed := d\<rparr>)))))"

definition sessionRollback :: "'s fates \<Rightarrow> 's session \<Rightarrow> 's session" where
  "sessionRollback f s = passes f (s\<lparr>transaction := map_option Rollback (transaction s)\<rparr>)"

definition sessionFlush :: "'s fates \<Rightarrow> 's session \<Rightarrow> (pg_error + unit) \<times> 's session" where
  "sessionFlush f s =
     (case flushDB (flushFails f (calls s)) (committed s) of (r, d) \<Rightarrow> (r, passes f (s\<lparr>committed := d\<rparr>)))"

definition sessionBackend :: "('s :: {linorder, plus, times, zero, one}) fates \<Rightarrow> ('s session, 's) backend" where
  "sessionBackend f =
     \<lparr>store = sessionOps sessionExec f, tx = sessionOps sessionTxExec f, beginTx = sessionBegin f, lockTx = sessionLock f,
      commitTx = sessionCommit f, rollbackTx = sessionRollback f, flushAll = sessionFlush f,
      backoff = (\<lambda>attempt s. (contextEnds f (calls s), passes f s))\<rparr>"

definition newSession :: "'s db \<Rightarrow> time \<Rightarrow> 's session" where
  "newSession d now = \<lparr>committed = d, transaction = None, clock = now, calls = 0, pushed = []\<rparr>"

section \<open>The session keeps the storage contract\<close>

text \<open>What a handler may do to a session, outside and inside a transaction.\<close>

definition storeRel :: "string set \<Rightarrow> 's session \<Rightarrow> 's session \<Rightarrow> bool" where
  "storeRel K s s' =
     (framed (encodeKey ` K) (committed s) (committed s') \<and> transaction s' = transaction s \<and> clock s \<le> clock s')"

definition txRel :: "string set \<Rightarrow> 's session \<Rightarrow> 's session \<Rightarrow> bool" where
  "txRel K s s' =
     (committed s' = committed s \<and> clock s \<le> clock s' \<and>
      rel_option (\<lambda>t t'. framed (encodeKey ` K) (txdb t) (txdb t') \<and> txdone t' = txdone t) (transaction s) (transaction s'))"

lemma passes_simps [simp]:
  "committed (passes f s) = committed s" "transaction (passes f s) = transaction s" "pushed (passes f s) = pushed s"
  "calls (passes f s) = Suc (calls s)" "clock s < clock (passes f s)"
  by (simp_all add: passes_def)

lemma passes_le [simp]: "clock s \<le> clock (passes f s)"
  using passes_simps(5) [of s f] by linarith

lemma sessionOps_simps [simp]:
  "exec (sessionOps ex f) = ex f" "clockOf (sessionOps ex f) = clock" "elapse (sessionOps ex f) = passes f" "notifyPush (sessionOps ex f) k s = s\<lparr>pushed := pushed s @ [k]\<rparr>"
  "waitForKeys (sessionOps ex f) = waitFor f" "waitTimer (sessionOps ex f) = waitTime f"
  "ctxDone (sessionOps ex f) s = (contextEnds f (calls s) \<noteq> None)"
  by (simp_all add: sessionOps_def)

lemma framed_storeExec:
  "framed (encodeKey ` set (writeKeys c)) d (snd (storeExec env sched cancelled now c d))"
proof -
  have fr: "framed (encodeKey ` set (writeKeys c)) d (d1\<lparr>held := held d\<rparr>)" if "run env now c d = (x, d1)" for x d1
    using framed_run [of c d env now] that by (intro framed_held) simp
  obtain r d1 n where "withTx sched cancelled (run env now c) d = Some (r, d1, n)"
    "(\<exists>e. r = Inl e \<and> d1 = d) \<or> (\<exists>x d2. r = Inr x \<and> run env now c d = (Inr x, d2) \<and> d1 = d2\<lparr>held := held d\<rparr>)"
    using withTxLoop_cases [of 0 sched cancelled "run env now c" d] by (auto simp: withTx_def)
  with fr show ?thesis by (auto simp: storeExec_def split: prod.splits sum.splits)
qed

lemma framed_txExec: "framed (encodeKey ` set (writeKeys c)) (txdb t) (txdb (snd (txExec env now c t)))"
  using framed_run [of c "txdb t" env now] by (auto simp: txExec_def split: prod.splits sum.splits)

lemma txExec_done: "txdone (snd (txExec env now c t)) = txdone t"
  by (auto simp: txExec_def split: prod.splits sum.splits)

interpretation st: storage_api "sessionOps sessionExec f" storeRel for f :: "('s :: {linorder, plus, times, zero, one}) fates"
proof
  fix K L :: "string set" and s s' s'' :: "'s session" and c :: "'s command"
  show "storeRel K s s" by (simp add: storeRel_def)
  show "storeRel K s s' \<Longrightarrow> storeRel K s' s'' \<Longrightarrow> storeRel K s s''" by (auto simp: storeRel_def intro: framed_trans)
  show "storeRel K s s' \<Longrightarrow> K \<subseteq> L \<Longrightarrow> storeRel L s s'" by (auto simp: storeRel_def intro: framed_mono image_mono)
  show "storeRel (set (writeKeys c)) s (snd (exec (sessionOps sessionExec f) c s))"
    using framed_storeExec [of c "committed s"] passes_le [of s f]
    by (auto simp: storeRel_def sessionExec_def case_prod_unfold passes_def)
qed (auto simp: storeRel_def waitFor_def waitTime_def Let_def split: if_splits)

interpretation tr: storage_api "sessionOps sessionTxExec f" txRel for f :: "('s :: {linorder, plus, times, zero, one}) fates"
proof
  fix K L :: "string set" and s s' s'' :: "'s session" and c :: "'s command"
  show refl: "txRel K s s" for K and s :: "'s session" by (auto simp: txRel_def intro: option.rel_refl)
  show "txRel K s s' \<Longrightarrow> txRel K s' s'' \<Longrightarrow> txRel K s s''"
    by (cases "transaction s"; cases "transaction s'"; cases "transaction s''") (auto simp: txRel_def intro: framed_trans)
  show "txRel K s s' \<Longrightarrow> K \<subseteq> L \<Longrightarrow> txRel L s s'"
    by (auto simp: txRel_def elim!: option.rel_mono_strong intro: framed_mono image_mono)
  show "txRel (set (writeKeys c)) s (snd (exec (sessionOps sessionTxExec f) c s))"
    using framed_txExec [of c] passes_le [of s f]
    by (auto simp: txRel_def sessionTxExec_def case_prod_unfold abortTx_def passes_def txExec_done split: option.split)
qed (auto simp: txRel_def waitFor_def waitTime_def Let_def intro: option.rel_refl split: if_splits)

end
