(* ===== verification/Transactions.thy ===== *)
theory Transactions
  imports Sessions
begin

text \<open>
  What the handlers guarantee on top of the storage contract: replies fit the
  protocol version, single commands stay within their keys, and EXEC and EVAL are
  atomic.
\<close>

section \<open>Scripts keep the contract\<close>

lemma wire_lua [wire]:
  "wireOK r3 (luaToResp fl lua v)" "list_all (wireOK r3) (luaItems fl lua entries)"
  by (induction fl lua v and fl lua entries rule: luaToResp_luaItems.induct) (auto simp: wire Let_def split: option.split)

lemma luaLoop_induct:
  assumes "luaLoop rd x = Some h"
    and "\<And>x h. rd x = Some (Inl h) \<Longrightarrow> P x h"
    and "\<And>x x' h. rd x = Some (Inr x') \<Longrightarrow> P x' h \<Longrightarrow> P x h"
  shows "P x h"
proof -
  have "rd' = rd \<longrightarrow> P x h" if "luaLoop rd' x = Some h" for rd' x h
  proof (rule luaLoop.raw_induct [where P = "\<lambda>rd' x h. rd' = rd \<longrightarrow> P x h" and xa = "(rd', x)" for rd' x, unfolded prod.case, OF _ that])
    fix rec rd' x h
    assume IH: "\<And>rd' x h. rec rd' x = Some h \<Longrightarrow> rd' = rd \<longrightarrow> P x h"
      and step: "Option.bind (rd' x) (\<lambda>r. case r of Inl h \<Rightarrow> Some h | Inr x' \<Rightarrow> rec rd' x') = Some h"
    from step obtain r where r: "rd' x = Some r" "(case r of Inl h \<Rightarrow> Some h | Inr x' \<Rightarrow> rec rd' x') = Some h"
      by (auto simp: bind_eq_Some_conv)
    then show "rd' = rd \<longrightarrow> P x h"
      using IH [of rd' _ h] assms(2) [of x h] assms(3) [of x _ h] by (cases r) auto
  qed
  with assms(1) show ?thesis by blast
qed

context storage_api
begin

lemma executeData_any: "behavesO R (resp3 ctx) UNIV (executeData h fl ctx ops cmdName args)"
proof (cases "commandKeys cmdName args")
  case (Inl e)
  then show ?thesis by (rule executeData_nokeys)
next
  case (Inr ks)
  from executeData_ok [OF this, of ctx h fl] show ?thesis by (auto simp: behavesO_def intro: R_mono [OF _ subset_UNIV])
qed

lemma executeRedisCommand_ok: "behavesO R (resp3 ctx) UNIV (executeRedisCommand h fl lua ctx ops name largs)"
  using executeData_any by (auto simp: behavesO_def executeRedisCommand_def Let_def says_def R_refl wire split: option.splits)

lemma luaExecute_ok: "behavesO R (resp3 ctx) UNIV (luaExecute h fl lua ctx ops keys argv script)"
proof -
  let ?P = "\<lambda>x h. R UNIV (snd (snd x)) (snd (snd (snd h))) \<and> (\<forall>v. fst h = Inr v \<longrightarrow> wireOK (resp3 ctx) v)"
  let ?rd = "luaRound h fl lua ctx ops script keys argv"
  note call = executeRedisCommand_ok [unfolded behavesO_def, rule_format]
  have "?P x y" if "luaLoop ?rd x = Some y" for x y
  proof (rule luaLoop_induct [OF that])
    fix x y
    assume "?rd x = Some (Inl y)"
    then show "?P x y"
      by (auto simp: luaRound_def R_refl wire split: prod.splits lua_step.splits option.splits sum.splits dest: call)
  next
    fix x x' y
    assume "?rd x = Some (Inr x')" "?P x' y"
    moreover from this(1) have "R UNIV (snd (snd x)) (snd (snd x'))"
      by (auto simp: luaRound_def split: prod.splits lua_step.splits option.splits sum.splits dest: call)
    ultimately show "?P x y" using R_trans by blast
  qed
  then show ?thesis by (fastforce simp: behavesO_def luaExecute_def)
qed

end

text \<open>The contract with no frame: it holds of every storage, so replies have the right type on every one.\<close>

interpretation any: storage_api ops "\<lambda>_ _ _. True" for ops :: "('st, 's :: {linorder, plus, zero}) operations"
  by unfold_locales simp_all

section \<open>The retry loop\<close>

lemma runTxLoop_induct:
  assumes "runTxLoop be keys fn attempt w = Some h"
    and stop: "\<And>attempt w e st. backoff be attempt (snd w) = (Some e, st) \<Longrightarrow> P w (says (Err (''transaction aborted: '' @ e)) (fst w, st))"
    and sleep: "\<And>attempt w st h. backoff be attempt (snd w) = (None, st) \<Longrightarrow> P (fst w, st) h \<Longrightarrow> P w h"
    and once: "\<And>w h again. tryTx be keys fn w = Some (h, again) \<Longrightarrow> P w h"
    and again: "\<And>w h h'. tryTx be keys fn w = Some (h', True) \<Longrightarrow> P (snd h') h \<Longrightarrow> P w h"
  shows "P w h"
  using assms(1)
proof (induction "maxExecRetries - attempt" arbitrary: attempt w h rule: less_induct)
  case less
  obtain sc st where w: "w = (sc, st)" by fastforce
  have tried: "P (sc, st') h"
    if "(case tryTx be keys fn (sc, st') of None \<Rightarrow> None
         | Some (h, again) \<Rightarrow> if again \<and> attempt < maxExecRetries then runTxLoop be keys fn (attempt + 1) (snd h) else Some h) = Some h" for st'
  proof (cases "tryTx be keys fn (sc, st')")
    case (Some p)
    obtain h' ag where p: "p = (h', ag)" by fastforce
    show ?thesis
    proof (cases "ag \<and> attempt < maxExecRetries")
      case True
      with that Some p have "runTxLoop be keys fn (attempt + 1) (snd h') = Some h" by simp
      with True have "P (snd h') h" by (intro less.hyps) auto
      with again [of "(sc, st')" h' h] Some p True show ?thesis by simp
    next
      case False
      with that Some p once show ?thesis by (auto split: if_splits)
    qed
  qed (use that in simp)
  show ?case
  proof (cases "attempt > 0")
    case True
    obtain e st' where b: "backoff be attempt st = (e, st')" by fastforce
    show ?thesis
    proof (cases e)
      case None
      with less.prems True b w have "P (sc, st') h" by (intro tried) (simp add: runTxLoop.simps)
      with sleep [of attempt w st'] b None w show ?thesis by simp
    next
      case (Some x)
      with less.prems True b w stop [of attempt w x st'] show ?thesis by (simp add: runTxLoop.simps)
    qed
  next
    case False
    with less.prems w show ?thesis by (auto intro!: tried simp: runTxLoop.simps)
  qed
qed

section \<open>Replies fit the protocol version\<close>

definition fits :: "bool \<Rightarrow> ('w \<Rightarrow> 'w handled option) \<Rightarrow> bool" where
  "fits r3 fn = (\<forall>w v w'. fn w = Some (Inr v, w') \<longrightarrow> wireOK r3 v)"

lemma fitsD: "fits r3 fn \<Longrightarrow> fn w = Some (Inr v, w') \<Longrightarrow> wireOK r3 v"
  by (auto simp: fits_def)

lemma fits_simps [simp]:
  "fits r3 (\<lambda>w. Some (says v w)) = wireOK r3 v" "fits r3 (returns v) = wireOK r3 v" "fits r3 (\<lambda>w. Some (panic e w))"
  by (simp_all add: fits_def says_def returns_def panic_def)

lemma fits_behavesO: "behavesO (\<lambda>_ _ _. True) r3 K f \<Longrightarrow> fits r3 (onStorage f)"
  by (fastforce simp: fits_def behavesO_def onStorage_def)

lemma fits_runTx:
  assumes "fits r3 fn"
  shows "fits r3 (runTx be keys fn)"
proof -
  have "wireOK r3 v" if "runTx be keys fn w = Some (Inr v, w')" for w v w'
  proof -
    from that [unfolded runTx_def] have "fst (Inr v, w') = Inr v' \<Longrightarrow> wireOK r3 v'" for v'
    proof (rule runTxLoop_induct [where P = "\<lambda>_ h. \<forall>v'. fst h = Inr v' \<longrightarrow> wireOK r3 v'", rule_format])
      fix w h again v'
      assume "tryTx be keys fn w = Some (h, again)" "fst h = Inr v'"
      then show "wireOK r3 v'"
        by (cases h) (auto simp: tryTx_def says_def panic_def wire dest: fitsD [OF assms] split: prod.splits sum.splits option.splits if_splits)
    qed (auto simp: says_def wire)
    then show ?thesis by simp
  qed
  then show ?thesis by (simp add: fits_def)
qed

lemma fits_runScript: "fits (resp3 ctx) (runScript h fl lua be ctx inTrans script keys argv)"
proof -
  let ?run = "onStorage (luaExecute h fl lua (ctx\<lparr>noBlock := True\<rparr>) (tx be) keys argv script)"
  have r: "fits (resp3 ctx) ?run"
    using fits_behavesO [OF any.luaExecute_ok [of "ctx\<lparr>noBlock := True\<rparr>"]] by simp
  show ?thesis
    unfolding fits_def
    by (auto simp: runScript_def Let_def says_def wire dest: fitsD [OF r] fitsD [OF fits_runTx [OF r]]
        split: if_splits prod.splits sum.splits)
qed

lemma evalArgs_wire: "evalArgs args = Inl e \<Longrightarrow> wireOK r3 e"
  by (auto simp: evalArgs_def wire split: sum.splits if_splits)

lemma takeKeys_reply: "takeKeys n as = Inl (Inr v) \<Longrightarrow> wireOK r3 v"
  by (auto simp: takeKeys_def split: if_splits)

lemma fits_evals:
  "fits (resp3 ctx) (evalOp h fl lua be ctx inTrans args)" "fits (resp3 ctx) (evalshaOp h fl lua be ctx inTrans args)"
  unfolding fits_def
  by (auto simp: evalOp_def evalshaOp_def says_def stops_def Let_def wire errNoScript_def
      dest: fitsD [OF fits_runScript] evalArgs_wire takeKeys_reply
      split: if_splits sum.splits option.splits prod.splits)

lemma fits_scriptOp: "fits r3 (\<lambda>w. Some (scriptOp args w))"
  unfolding fits_def
  by (auto simp: scriptOp_def says_def Let_def wire list_all_iff split: if_splits prod.splits)

lemma fits_ExecuteWithOps: "fits (resp3 ctx) (ExecuteWithOps h fl lua be ctx inTrans cmdName args)"
  by (simp add: ExecuteWithOps_def fits_evals fits_scriptOp fits_behavesO [OF any.executeData_any])

lemma helloOptions_wire: "helloOptions h as = Some e \<Longrightarrow> wireOK r3 e"
  by (induction h as rule: helloOptions.induct) (auto simp: wire Let_def errWrongPass_def split: if_splits list.splits)

lemma wire_connection [wire]:
  "wireOK r3 (ping args)" "wireOK r3 (echo args)" "wireOK r3 (auth h args)" "wireOK r3 (hello h args)" "wireOK r3 (commandInfo args)"
  "wireOK r3 (cluster args)" "wireOK r3 (config args)" "wireOK r3 (selectDB args)" "wireOK r3 (wait args)"
  by (auto simp: ping_def echo_def auth_def hello_def commandInfo_def cluster_def config_def selectDB_def wait_def wire Let_def
      errWrongPass_def errUnknownSub_def helloReply_def dest: helloOptions_wire split: sum.split option.split list.split)

lemma fits_Handle: "fits (resp3 ctx) (Handle h fl lua be ctx cmd)"
proof -
  have "fits (resp3 ctx) (\<lambda>w. Some (flushdb be w))"
    unfolding fits_def by (auto simp: flushdb_def says_def wire split: prod.splits sum.splits)
  then show ?thesis by (simp add: Handle_def executeCommand_def wire fits_ExecuteWithOps)
qed

lemma execQueue_replies:
  "execQueue h fl lua be ctx cmds w = Some (Inr vs, w') \<Longrightarrow> length vs = length cmds \<and> list_all (wireOK (resp3 ctx)) vs"
proof (induction cmds arbitrary: w vs)
  case (Cons cmd cmds)
  then show ?case
    by (cases w) (auto simp: returns_def says_def wire map_sum_Inr dest: fitsD [OF fits_ExecuteWithOps]
        split: if_splits option.splits sum.splits prod.splits)
qed simp

lemma fits_HandleExec: "snd (HandleExec h fl lua be ctx c w) = Some (Inr v, w') \<Longrightarrow> wireOK (resp3 ctx) v"
proof -
  have "fits (resp3 ctx) (\<lambda>w. map_option (\<lambda>(r, w). (map_sum id Arr r, w)) (execQueue h fl lua be (ctx\<lparr>noBlock := True\<rparr>) cmds w))" for cmds
    unfolding fits_def using execQueue_replies [of h fl lua be "ctx\<lparr>noBlock := True\<rparr>" cmds]
    by (auto simp: map_sum_Inr wire)
  note r = fitsD [OF fits_runTx [OF this]]
  show "snd (HandleExec h fl lua be ctx c w) = Some (Inr v, w') \<Longrightarrow> wireOK (resp3 ctx) v"
    by (auto simp: HandleExec_def GetQueuedCommands_def returns_def says_def panic_def wire dest: r split: if_splits sum.splits)
qed

lemma wire_HandleClient: "wireOK r3 (fst (HandleClient fl now cmd c))"
  by (auto simp: HandleClient_def executeClientCommand_def Let_def wire errUnknownSub_def)

section \<open>Transactions on sessions\<close>

text \<open>What an operation on script cache and session does to the session.\<close>

definition behavesTx :: "string set \<Rightarrow> ('s session world \<Rightarrow> 's session world handled option) \<Rightarrow> bool" where
  "behavesTx K fn = (\<forall>w h. fn w = Some h \<longrightarrow> txRel K (snd w) (snd (snd h)))"

lemma behavesTxD: "behavesTx K fn \<Longrightarrow> fn (sc, s) = Some (r, (sc', s')) \<Longrightarrow> txRel K s s'"
  by (fastforce simp: behavesTx_def)

lemma behavesTx_onStorage: "behavesO txRel r3 K f \<Longrightarrow> behavesTx K (onStorage f)"
  by (fastforce simp: behavesTx_def behavesO_def onStorage_def)

lemma session_simps [simp]:
  "store (sessionBackend f) = sessionOps sessionExec f" "tx (sessionBackend f) = sessionOps sessionTxExec f"
  "beginTx (sessionBackend f) = sessionBegin f" "lockTx (sessionBackend f) = sessionLock f"
  "commitTx (sessionBackend f) = sessionCommit f" "rollbackTx (sessionBackend f) = sessionRollback f"
  "flushAll (sessionBackend f) = sessionFlush f"
  "backoff (sessionBackend f) attempt s = (contextEnds f (calls s), passes f s)"
  by (simp_all add: sessionBackend_def)

lemma sessionRollback_committed [simp]: "committed (sessionRollback f s) = committed s"
  by (simp add: sessionRollback_def)

lemma sessionBegin_props:
  "sessionBegin f s = (r, s') \<Longrightarrow> committed s' = committed s \<and> (r = Inr () \<longrightarrow> transaction s' = Some (BeginTx (committed s)))"
  by (auto simp: sessionBegin_def split: option.splits)

lemma LockKeys_Nil [simp]: "LockKeys [] t = t"
  by (simp add: LockKeys_def lockKeys_def lockOrder_def)

lemma sessionLock_props:
  "sessionLock f keys s = (r, s') \<Longrightarrow> transaction s = Some t \<Longrightarrow>
     committed s' = committed s \<and> (r = Inr () \<longrightarrow> transaction s' = Some (LockKeys keys t))"
  by (auto simp: sessionLock_def abortTx_def split: option.splits if_splits)

lemma sessionCommit_props:
  "sessionCommit f s = (r, s') \<Longrightarrow> transaction s = Some t \<Longrightarrow>
     (case r of Inl _ \<Rightarrow> committed s' = committed s
      | Inr _ \<Rightarrow> \<not> aborted t \<and> committed s' = (txdb t)\<lparr>held := held (committed s)\<rparr>)"
  by (auto simp: sessionCommit_def Commit_def split: option.splits if_splits)

text \<open>The function ran on the database the transaction began with, and its effect is what was committed.\<close>

definition committedBy ::
  "('s session world \<Rightarrow> 's session world handled option) \<Rightarrow> string list \<Rightarrow> 's session \<Rightarrow> 's session world handled \<Rightarrow> bool" where
  "committedBy fn keys s h =
     (\<exists>sc1 s1 v sc2 s2 t. fn (sc1, s1) = Some (Inr v, (sc2, s2)) \<and> fst h = Inr v \<and> \<not> hasRetryableError v \<and>
        transaction s1 = Some (LockKeys keys (BeginTx (committed s))) \<and> transaction s2 = Some t \<and> \<not> aborted t \<and>
        committed (snd (snd h)) = (txdb t)\<lparr>held := held (committed s)\<rparr>)"

lemma committedByI:
  "fn (sc1, s1) = Some (Inr v, (sc2, s2)) \<Longrightarrow> fst h = Inr v \<Longrightarrow> \<not> hasRetryableError v \<Longrightarrow>
     transaction s1 = Some (LockKeys keys (BeginTx (committed s))) \<Longrightarrow> transaction s2 = Some t \<Longrightarrow> \<not> aborted t \<Longrightarrow>
     committed (snd (snd h)) = (txdb t)\<lparr>held := held (committed s)\<rparr> \<Longrightarrow> committedBy fn keys s h"
  unfolding committedBy_def by blast

definition refused :: "'w handled \<Rightarrow> bool" where
  "refused h = (\<forall>v. fst h = Inr v \<longrightarrow> vType v = Error \<or> hasRetryableError v)"

lemma vType_Err [simp]: "vType (Err e) = Error" "vType (ErrCustom e) = Error"
  by (simp_all add: Err_def ErrCustom_def)

lemma tryTx_session:
  assumes fn: "behavesTx K fn" and run: "tryTx (sessionBackend f) keys fn (sc, s) = Some (h, again)"
  shows "committed (snd (snd h)) = committed s \<and> refused h \<or> committedBy fn keys s h \<and> \<not> again"
proof -
  obtain r1 s1 where b: "sessionBegin f s = (r1, s1)" by fastforce
  note c1 = sessionBegin_props [OF b]
  show ?thesis
  proof (cases r1)
    case (Inl e)
    with b c1 run show ?thesis by (auto simp: tryTx_def says_def refused_def)
  next
    case (Inr u)
    then have t1: "transaction s1 = Some (BeginTx (committed s))" using c1 by simp
    obtain r2 s2 where l: "sessionLock f keys s1 = (r2, s2)" by fastforce
    note c2 = sessionLock_props [OF l t1]
    show ?thesis
    proof (cases r2)
      case (Inl e)
      with b l c1 c2 Inr run show ?thesis by (auto simp: tryTx_def says_def refused_def)
    next
      case (Inr u')
      obtain r sc3 s3 where f3: "fn (sc, s2) = Some (r, (sc3, s3))"
        using run b l Inr \<open>r1 = Inr u\<close> by (cases "fn (sc, s2)") (auto simp: tryTx_def)
      have c3: "committed s3 = committed s" "transaction s3 \<noteq> None"
        using behavesTxD [OF fn f3] c1 c2 Inr by (auto simp: txRel_def option_rel_Some1)
      then obtain t where t: "transaction s3 = Some t" by blast
      have t2: "transaction s2 = Some (LockKeys keys (BeginTx (committed s)))" using c2 Inr by simp
      show ?thesis
      proof (cases r)
        case (Inl e)
        with run b l f3 c3 \<open>r1 = Inr u\<close> \<open>r2 = Inr u'\<close> show ?thesis by (auto simp: tryTx_def panic_def refused_def)
      next
        case (Inr v)
        obtain r4 s4 where m: "sessionCommit f s3 = (r4, s4)" by fastforce
        show ?thesis
        proof (cases "hasRetryableError v \<or> isl r4")
          case True
          with run b l f3 c3 m \<open>r1 = Inr u\<close> \<open>r2 = Inr u'\<close> Inr sessionCommit_props [OF m t] show ?thesis
            by (auto simp: tryTx_def says_def refused_def isl_def split: if_splits)
        next
          case False
          then have h: "h = (Inr v, (sc3, s4))" "\<not> again" "isl r4 = False"
            using run b l f3 m \<open>r1 = Inr u\<close> \<open>r2 = Inr u'\<close> Inr by (auto simp: tryTx_def says_def refused_def split: sum.splits)
          have "\<not> aborted t" "committed s4 = (txdb t)\<lparr>held := held (committed s)\<rparr>"
            using sessionCommit_props [OF m t] h(3) c3(1) by (auto split: sum.splits)
          with f3 t2 t Inr False h have "committedBy fn keys s h"
            by (intro committedByI [of fn sc s2 v sc3 s3 h keys s t]) simp_all
          with h show ?thesis by blast
        qed
      qed
    qed
  qed
qed

lemma runTx_session:
  assumes fn: "behavesTx K fn" and run: "runTx (sessionBackend f) keys fn w = Some h"
  shows "committed (snd (snd h)) = committed (snd w) \<and> refused h \<or> committedBy fn keys (snd w) h"
proof (rule runTxLoop_induct [OF run [unfolded runTx_def],
      where P = "\<lambda>w h. committed (snd (snd h)) = committed (snd w) \<and> refused h \<or> committedBy fn keys (snd w) h"])
  show "committed (snd (snd h)) = committed (snd w) \<and> refused h \<or> committedBy fn keys (snd w) h"
    if "tryTx (sessionBackend f) keys fn w = Some (h, again)" for w h again
    using tryTx_session [OF fn, of f keys "fst w" "snd w" h again] that by auto
  show "committed (snd (snd h)) = committed (snd w) \<and> refused h \<or> committedBy fn keys (snd w) h"
    if "tryTx (sessionBackend f) keys fn w = Some (h', True)"
      "committed (snd (snd h)) = committed (snd (snd h')) \<and> refused h \<or> committedBy fn keys (snd (snd h')) h" for w h h'
    using tryTx_session [OF fn, of f keys "fst w" "snd w" h' True] that by (auto simp: committedBy_def)
qed (auto simp: says_def committedBy_def refused_def)

section \<open>The queued commands\<close>

lemma txRel_refl: "txRel K s s"
  by (auto simp: txRel_def intro: option.rel_refl)

lemma txRel_lock: "txRel K s (snd (sessionLock f keys s))"
proof -
  have "framed K' d (lockKeys ks d)" for K' ks and d :: "'a db"
    by (simp add: framed_def)
  then show ?thesis
    by (auto simp: sessionLock_def txRel_def abortTx_def LockKeys_def passes_def split: option.splits)
qed

lemma tx_runScript: "behavesTx UNIV (runScript h fl lua (sessionBackend f) ctx True script keys argv)"
proof -
  let ?run = "onStorage (luaExecute h fl lua (ctx\<lparr>noBlock := True\<rparr>) (sessionOps sessionTxExec f) keys argv script)"
  have r: "behavesTx UNIV ?run" by (rule behavesTx_onStorage [OF tr.luaExecute_ok])
  have "txRel UNIV s (snd (snd y))" if "runScript h fl lua (sessionBackend f) ctx True script keys argv (sc, s) = Some y" for sc s y
  proof -
    obtain e s1 where l: "sessionLock f keys s = (e, s1)" by fastforce
    have "txRel UNIV s s1" using txRel_lock [of UNIV s f keys] by (simp add: l)
    with that l behavesTxD [OF r] show ?thesis
      by (cases y) (auto simp: runScript_def Let_def says_def split: sum.splits intro: tr.R_trans)
  qed
  then show ?thesis by (auto simp: behavesTx_def)
qed

lemma tx_evals:
  "behavesTx UNIV (evalOp h fl lua (sessionBackend f) ctx True args)" "behavesTx UNIV (evalshaOp h fl lua (sessionBackend f) ctx True args)"
  unfolding behavesTx_def
  by (auto simp: evalOp_def evalshaOp_def says_def stops_def Let_def tr.R_refl dest!: behavesTxD [OF tx_runScript]
      split: if_splits sum.splits option.splits prod.splits)

definition isScript :: "string \<Rightarrow> bool" where
  "isScript cmdName = (cmdName = ''EVAL'' \<or> cmdName = ''EVALSHA'')"

lemma scriptOp_session: "scriptOp args (sc, s) = (r, (sc', s')) \<Longrightarrow> s' = s"
  by (auto simp: scriptOp_def says_def Let_def split: prod.splits if_splits)

lemma tx_scriptOp: "behavesTx K (\<lambda>w. Some (scriptOp args w))"
  unfolding behavesTx_def by (auto simp: scriptOp_def says_def Let_def txRel_refl split: prod.splits)

lemma tx_ExecuteWithOps:
  "behavesTx UNIV (ExecuteWithOps h fl lua (sessionBackend f) ctx True cmdName args)"
  "\<not> isScript cmdName \<Longrightarrow> commandKeys cmdName args = Inr ks \<Longrightarrow>
     behavesTx (set ks) (ExecuteWithOps h fl lua (sessionBackend f) ctx True cmdName args)"
  by (simp_all add: ExecuteWithOps_def isScript_def tx_evals tx_scriptOp behavesTx_onStorage [OF tr.executeData_any]
      behavesTx_onStorage [OF tr.executeData_ok])

lemma execQueue_rel:
  assumes "\<And>cmd. cmd \<in> set cmds \<Longrightarrow> vType cmd = Array \<Longrightarrow> vArray cmd \<noteq> [] \<Longrightarrow>
      behavesTx K (ExecuteWithOps h fl lua (sessionBackend f) ctx True (ToUpper (arg (vArray cmd) 0)) (tl (vArray cmd)))"
    and "execQueue h fl lua (sessionBackend f) ctx cmds (sc, s) = Some (r, (sc', s'))"
  shows "txRel K s s'"
  using assms
proof (induction cmds arbitrary: sc s r)
  case (Cons cmd cmds)
  let ?go = "if vType cmd \<noteq> Array \<or> vArray cmd = [] then returns (Err ''invalid command format'') (sc, s)
     else ExecuteWithOps h fl lua (sessionBackend f) ctx True (ToUpper (arg (vArray cmd) 0)) (tl (vArray cmd)) (sc, s)"
  obtain x sc1 s1 where go: "?go = Some (x, (sc1, s1))"
    using Cons.prems(2) by (cases ?go) (auto split: if_splits)
  have R1: "txRel K s s1"
    using go behavesTxD [OF Cons.prems(1) [of cmd], of sc s x sc1 s1]
    by (auto simp: returns_def says_def tr.R_refl split: if_splits)
  show ?case
  proof (cases x)
    case (Inl p)
    with Cons.prems(2) go R1 show ?thesis by simp
  next
    case (Inr v)
    with Cons.prems(2) go obtain r' where "execQueue h fl lua (sessionBackend f) ctx cmds (sc1, s1) = Some (r', (sc', s'))" by auto
    with Cons.IH Cons.prems(1) have "txRel K s1 s'" by simp
    with R1 show ?thesis by (rule tr.R_trans)
  qed
qed (simp add: tr.R_refl)

lemma queuedKeys_of:
  "queuedKeys cmds = Inr keys \<Longrightarrow> cmd \<in> set cmds \<Longrightarrow> vType cmd = Array \<Longrightarrow> vArray cmd \<noteq> [] \<Longrightarrow>
     \<exists>ks. commandKeys (ToUpper (arg (vArray cmd) 0)) (tl (vArray cmd)) = Inr ks \<and> set ks \<subseteq> set keys"
  by (induction cmds arbitrary: keys) (auto simp: map_sum_Inr split: sum.splits if_splits)

lemma tx_execQueue:
  assumes "K = UNIV \<or> queuedKeys cmds = Inr keys \<and> set keys \<subseteq> K \<and>
      (\<forall>cmd \<in> set cmds. vType cmd = Array \<longrightarrow> vArray cmd \<noteq> [] \<longrightarrow> \<not> isScript (ToUpper (arg (vArray cmd) 0)))"
  shows "behavesTx K (\<lambda>w. map_option (\<lambda>(r, w). (map_sum id Arr r, w)) (execQueue h fl lua (sessionBackend f) ctx cmds w))"
proof -
  have mono: "behavesTx L fn \<Longrightarrow> L \<subseteq> K \<Longrightarrow> behavesTx K fn" for L and fn :: "'a session world \<Rightarrow> 'a session world handled option"
    unfolding behavesTx_def using tr.R_mono by blast
  have "behavesTx K (ExecuteWithOps h fl lua (sessionBackend f) ctx True (ToUpper (arg (vArray cmd) 0)) (tl (vArray cmd)))"
    if "cmd \<in> set cmds" "vType cmd = Array" "vArray cmd \<noteq> []" for cmd
  proof (cases "K = UNIV")
    case False
    with assms that queuedKeys_of [of cmds keys cmd] obtain ks
      where "commandKeys (ToUpper (arg (vArray cmd) 0)) (tl (vArray cmd)) = Inr ks" "set ks \<subseteq> K" by blast
    with assms that False show ?thesis by (intro mono [OF tx_ExecuteWithOps(2)]) auto
  qed (simp add: tx_ExecuteWithOps)
  from execQueue_rel [OF this] show ?thesis by (auto simp: behavesTx_def)
qed

lemma framed_committed:
  assumes "behavesTx K fn" "committedBy fn keys s h"
  shows "framed (encodeKey ` K) (committed s) (committed (snd (snd h)))"
proof -
  from assms(2) obtain sc1 s1 v sc2 s2 t where
    run: "fn (sc1, s1) = Some (Inr v, (sc2, s2))" and t1: "transaction s1 = Some (LockKeys keys (BeginTx (committed s)))"
    and t: "transaction s2 = Some t" and c: "committed (snd (snd h)) = (txdb t)\<lparr>held := held (committed s)\<rparr>"
    unfolding committedBy_def by blast
  have "framed (encodeKey ` K) (txdb (LockKeys keys (BeginTx (committed s)))) (txdb t)"
    using behavesTxD [OF assms(1) run] t1 t by (simp add: txRel_def)
  moreover have "framed (encodeKey ` K) (committed s) (txdb (LockKeys keys (BeginTx (committed s))))"
    by (simp add: LockKeys_def BeginTx_def framed_def wf_db_def touches_def rows_def)
  ultimately show ?thesis by (auto simp: c intro: framed_held framed_trans)
qed

lemma command_simps [simp]:
  "vType (Arr vs) = Array" "vArray (Arr vs) = vs" "vBulk (Bulk b) = b" "vStr (ErrCustom e) = e" "vNull (Arr vs) = False"
  by (simp_all add: Arr_def Bulk_def ErrCustom_def)

lemma Handle_Arr: "Handle h fl lua be ctx (Arr (Bulk name # args)) = executeCommand h fl lua be ctx (ToUpper name) args"
  by (simp add: Handle_def arg_def)

section \<open>Commands that return\<close>

lemma rounds_induct:
  assumes "rounds rd x = Some h"
    and "\<And>x h. rd x = Some (Inl h) \<Longrightarrow> P x h"
    and "\<And>x x' h. rd x = Some (Inr x') \<Longrightarrow> P x' h \<Longrightarrow> P x h"
  shows "P x h"
proof -
  have "rd' = rd \<longrightarrow> P x h" if "rounds rd' x = Some h" for rd' x h
  proof (rule rounds.raw_induct [where P = "\<lambda>rd' x h. rd' = rd \<longrightarrow> P x h", OF _ that])
    fix rec rd' x h
    assume IH: "\<And>rd' x h. rec rd' x = Some h \<Longrightarrow> rd' = rd \<longrightarrow> P x h"
      and step: "(case rd' x of None \<Rightarrow> None | Some (Inl r) \<Rightarrow> Some r | Some (Inr x') \<Rightarrow> rec rd' x') = Some h"
    from step show "rd' = rd \<longrightarrow> P x h"
      using IH [of rd' _ h] assms(2) [of x h] assms(3) [of x _ h] by (auto split: option.splits sum.splits)
  qed
  with assms(1) show ?thesis by blast
qed

lemma rounds_returns:
  assumes "\<And>st st'. rd st = Some (Inr st') \<Longrightarrow> m st' < (m st :: nat)" "\<And>st. rd st \<noteq> None"
  shows "rounds rd st \<noteq> None"
proof (induction "m st" arbitrary: st rule: less_induct)
  case less
  show ?case
    using less.hyps assms(1) assms(2) [of st] by (subst rounds.simps) (auto split: option.split sum.split)
qed

lemma noBlock_executeData: "noBlock ctx \<Longrightarrow> executeData h fl ctx ops cmdName args st \<noteq> None"
proof -
  assume nb: "noBlock ctx"
  have "waitOr v h ctx ops keys dl st = Some (Inl (says v st))" for v keys dl and st :: 'a
    using nb by (simp add: waitOr_def waitStep_def)
  then have "\<exists>y. popRound h ctx ops keys dl pop st = Some (Inl y)" "\<exists>y. mpopRound h ctx ops keys dl popOnce st = Some (Inl y)"
    for keys dl pop popOnce and st :: 'a
    by (auto simp: popRound_def mpopRound_def split: prod.splits sum.splits reply.splits)
  then have "blockingPop h fl ctx ops keys t pop st \<noteq> None" "blockingMPop h fl ctx ops keys t popOnce st \<noteq> None"
    for keys t pop popOnce and st :: 'a
    unfolding blockingPop_def blockingMPop_def by (intro rounds_returns [where m = "\<lambda>_. 0"]; metis Inl_Inr_False option.inject option.distinct(1))+
  then show ?thesis
    by (auto simp: executeData_def blpopOp_def brpopOp_def blmpopOp_def bzmpopOp_def Let_def split: option.splits sum.splits)
qed

lemma ExecuteWithOps_returns:
  assumes "\<not> isScript n"
  shows "ExecuteWithOps h fl lua be (ctx\<lparr>noBlock := True\<rparr>) inTrans n args w \<noteq> None"
proof -
  obtain sc st where w: "w = (sc, st)" by fastforce
  have "executeData h fl (ctx\<lparr>noBlock := True\<rparr>) (if inTrans then tx be else store be) n args st \<noteq> None"
    by (rule noBlock_executeData) simp
  with assms w show ?thesis by (simp add: ExecuteWithOps_def isScript_def onStorage_def del: not_None_eq)
qed

lemma runTx_returns:
  assumes "\<And>w. fn w \<noteq> None"
  shows "runTx be keys fn w \<noteq> None"
proof -
  have tr': "tryTx be keys fn w \<noteq> None" for w
  proof
    assume "tryTx be keys fn w = None"
    then have "\<exists>w. fn w = None" by (auto simp: tryTx_def split: prod.splits sum.splits option.splits if_splits)
    with assms show False by blast
  qed
  have "runTxLoop be keys fn attempt w \<noteq> None" for attempt w
  proof (induction "maxExecRetries - attempt" arbitrary: attempt w rule: less_induct)
    case less
    obtain sc st where w: "w = (sc, st)" by fastforce
    obtain e st' where b: "(if attempt > 0 then backoff be attempt st else (None, st)) = (e, st')" by fastforce
    obtain y ag where y: "tryTx be keys fn (sc, st') = Some (y, ag)" using tr' [of "(sc, st')"] by (cases "tryTx be keys fn (sc, st')") auto
    have "attempt < maxExecRetries \<Longrightarrow> runTxLoop be keys fn (attempt + 1) (snd y) \<noteq> None" by (rule less.hyps) simp
    then show ?case unfolding w runTxLoop.simps b by (cases e) (simp_all add: y del: not_None_eq)
  qed
  then show ?thesis by (simp add: runTx_def)
qed

lemma waitOr_continues:
  "waitOr v h ctx (sessionOps ex f) keys (Some d) s = Some (Inr s') \<Longrightarrow> clock s \<le> d \<and> clock s < clock s'"
  by (auto simp: waitOr_def waitStep_def waitFor_def waitTime_def Let_def passes_def split: if_splits)

text \<open>No notifier is set, or every wait for a key is ended by a push or a lost connection.\<close>

definition wakes :: "Handler \<Rightarrow> 's fates \<Rightarrow> string list \<Rightarrow> bool" where
  "wakes h f keys = (listNotifier h \<longrightarrow> (\<forall>n. woken f n \<in> set keys \<or> contextEnds f n \<noteq> None))"

lemma waitOr_blocks:
  "waitOr v h ctx (sessionOps ex f) keys dl s = None \<Longrightarrow> \<not> wakes h f keys"
  by (auto simp: wakes_def waitOr_def waitStep_def waitFor_def waitTime_def Let_def split: if_splits)

lemma waitOr_gives_up:
  "waitOr v h ctx (sessionOps ex f) keys (Some d) s = Some (Inl (r, s')) \<Longrightarrow> \<not> noBlock ctx \<Longrightarrow> (\<And>n. contextEnds f n = None) \<Longrightarrow>
     s' = s \<and> d < clock s"
  by (auto simp: waitOr_def waitStep_def waitFor_def waitTime_def Let_def says_def passes_def split: if_splits)

text \<open>A round of a blocking pop on a session: it ends with the pop, or waits.\<close>

lemma popRound_cases:
  fixes f :: "('s :: {linorder, plus, times, zero, one}) fates"
  assumes "x = popRound h ctx (sessionOps sessionExec f) keys (Some d) pop s"
  obtains (wait) s1 where "clock s \<le> clock s1" "x = waitOr NullBulk h ctx (sessionOps sessionExec f) keys (Some d) s1"
    | (pop) v s1 where "x = Some (Inl (v, s1))" "v \<noteq> Inr NullBulk"
proof -
  obtain r s1 where e: "sessionExec f (ListC pop) s = (r, s1)" by fastforce
  have "clock s \<le> clock s1" using st.R_exec [of "ListC pop" s f] e by (simp add: storeRel_def)
  with assms that show thesis
    by (auto simp: popRound_def e panic_def says_def Err_def ErrCustom_def NullBulk_def Arr_def split: sum.splits reply.splits if_splits)
qed

lemma popRound_returns:
  assumes "wakes h f keys"
  shows "rounds (popRound h ctx (sessionOps sessionExec f) keys (Some d) pop) s \<noteq> None"
proof (rule rounds_returns [where m = "\<lambda>s. nat (d + 1 - clock s)"])
  show "popRound h ctx (sessionOps sessionExec f) keys (Some d) pop s \<noteq> None" for s
    using assms waitOr_blocks [of NullBulk h ctx sessionExec f keys] by (cases rule: popRound_cases [OF refl, where h = h and ctx = ctx and f = f and keys = keys and d = d and pop = pop and s = s]) auto
next
  fix s s'
  assume r: "popRound h ctx (sessionOps sessionExec f) keys (Some d) pop s = Some (Inr s')"
  from r [symmetric] show "nat (d + 1 - clock s') < nat (d + 1 - clock s)"
  proof (cases rule: popRound_cases)
    case (wait s1)
    with waitOr_continues [of NullBulk h ctx sessionExec f keys d s1 s'] show ?thesis by auto
  qed simp
qed

lemma popRound_late:
  assumes "rounds (popRound h ctx (sessionOps sessionExec f) keys (Some d) pop) s = Some y"
    and "\<not> noBlock ctx" "\<And>n. contextEnds f n = None"
  shows "fst y = Inr NullBulk \<longrightarrow> d < clock (snd y)"
proof (rule rounds_induct [OF assms(1)])
  fix s y
  assume r: "popRound h ctx (sessionOps sessionExec f) keys (Some d) pop s = Some (Inl y)"
  from r [symmetric] show "fst y = Inr NullBulk \<longrightarrow> d < clock (snd y)"
  proof (cases rule: popRound_cases)
    case (wait s1)
    with waitOr_gives_up [of NullBulk h ctx sessionExec f keys d s1 "fst y" "snd y"] assms(2,3) show ?thesis by auto
  qed auto
qed

lemma mpopRound_returns:
  assumes "\<And>s. clock s \<le> clock (snd (popOnce s))" "wakes h f keys"
  shows "rounds (mpopRound h ctx (sessionOps ex f) keys (Some d) popOnce) s \<noteq> None"
proof (rule rounds_returns [where m = "\<lambda>s. nat (d + 1 - clock s)"])
  show "mpopRound h ctx (sessionOps ex f) keys (Some d) popOnce s \<noteq> None" for s
    using assms(2) waitOr_blocks [of NullArray h ctx ex f keys] by (auto simp: mpopRound_def split: sum.splits prod.splits if_splits)
next
  fix s s'
  assume "mpopRound h ctx (sessionOps ex f) keys (Some d) popOnce s = Some (Inr s')"
  then show "nat (d + 1 - clock s') < nat (d + 1 - clock s)"
    using assms(1) [of s] by (auto simp: mpopRound_def dest!: waitOr_continues split: sum.splits prod.splits if_splits)
qed

lemma bpop_returns:
  assumes "\<forall>t. ParseFloat fl (arg args (length args - 1)) = Some t \<longrightarrow> 0 < t" "wakes h f (bulks (butlast args))"
  shows "\<exists>y. blpopOp h fl ctx (sessionOps sessionExec f) args s = Some y" "\<exists>y. brpopOp h fl ctx (sessionOps sessionExec f) args s = Some y"
  using assms(1) popRound_returns [OF assms(2)]
  by (auto simp: blpopOp_def brpopOp_def blockingPop_def deadlineOf_def Let_def split: option.splits)

lemma bpop_late:
  assumes "\<forall>t. ParseFloat fl (arg args (length args - 1)) = Some t \<longrightarrow> 0 < t"
    and "blpopOp h fl ctx (sessionOps sessionExec f) args s = Some (Inr NullBulk, s') \<or>
      brpopOp h fl ctx (sessionOps sessionExec f) args s = Some (Inr NullBulk, s')"
    and t: "ParseFloat fl (arg args (length args - 1)) = Some t" and "\<not> noBlock ctx" "\<forall>n. contextEnds f n = None"
  shows "clock s + toDuration fl t < clock s'"
proof -
  have "ErrWrongArgs x \<noteq> NullBulk" for x by (simp add: NullBulk_def ErrWrongArgs_def ErrCustom_def)
  then obtain pop where
    "rounds (popRound h ctx (sessionOps sessionExec f) (bulks (butlast args)) (Some (clock s + toDuration fl t)) pop) s = Some (Inr NullBulk, s')"
    using assms(1-3) by (auto simp: blpopOp_def brpopOp_def blockingPop_def deadlineOf_def Let_def says_def split: if_splits)
  from popRound_late [OF this] assms(4,5) show ?thesis by simp
qed

lemma bmpop_returns:
  assumes "\<forall>t. ParseFloat fl (arg args 0) = Some t \<longrightarrow> 0 < t" "\<not> listNotifier h"
  shows "\<exists>y. blmpopOp h fl ctx (sessionOps sessionExec f) args s = Some y" "\<exists>y. bzmpopOp h fl ctx (sessionOps sessionExec f) args s = Some y"
proof -
  have "behaves storeRel False (set keys) (doLMPop (sessionOps sessionExec f) keys whr cnt)"
    "behaves storeRel False (set keys) (doZMPop fl (sessionOps sessionExec f) keys whr cnt)" for keys whr cnt
    by (rule st.ok_doMPop; simp)+
  then have "clock s \<le> clock (snd (doLMPop (sessionOps sessionExec f) keys whr cnt s))" "clock s \<le> clock (snd (doZMPop fl (sessionOps sessionExec f) keys whr cnt s))"
    for s keys whr cnt
    by (auto simp: behaves_def storeRel_def)
  note r = mpopRound_returns [OF this(1), where h = h] mpopRound_returns [OF this(2), where h = h]
  show "\<exists>y. blmpopOp h fl ctx (sessionOps sessionExec f) args s = Some y" "\<exists>y. bzmpopOp h fl ctx (sessionOps sessionExec f) args s = Some y"
    using assms r
    by (auto simp: wakes_def blmpopOp_def bzmpopOp_def blockingMPop_def deadlineOf_def split: option.splits sum.splits)
qed

lemma ToLower_scriptSHA1: "ToLower (scriptSHA1 src) = scriptSHA1 src"
proof -
  have "lower_char c = c \<and> c \<noteq> CHR 0xC4 \<and> c \<noteq> CHR 0xE2" if "c \<in> set ''0123456789abcdef''" for c
    using that by (auto simp: lower_char_def)
  then have "set x \<subseteq> set ''0123456789abcdef'' \<Longrightarrow> ToLower x = x" for x
    by (induction x rule: ToLower.induct) auto
  then show ?thesis using scriptSHA1_hex [of src] by blast
qed

section \<open>A quiet environment\<close>

text \<open>Surroundings in which nothing fails, with integers as scores, and a script that returns 1.\<close>

definition quietEnv :: "int env" where
  "quietEnv = \<lparr>busy = None, permKeys = id, permFields = id, permMembers = id, permZ = id, draws = \<lambda>_ _. 0, estimate = \<lambda>_. 0,
     sqlLike = \<lambda>_. Inr (\<lambda>_. True), parseFloat = \<lambda>_. None, formatFloat = \<lambda>_. []\<rparr>"

definition quiet :: "int fates" where
  "quiet = \<lparr>surroundings = quietEnv, attempts = \<lambda>_ _. Completes, cancels = \<lambda>_ _. False, statementFails = \<lambda>_. None,
     beginFails = \<lambda>_. None, lockFails = \<lambda>_. None, commitFails = \<lambda>_. None, flushFails = \<lambda>_. None, contextEnds = \<lambda>_. None,
     takes = \<lambda>_. 0, woken = \<lambda>_. []\<rparr>"

definition intFloats :: "int floats" where
  "intFloats = \<lparr>ParseFloat = \<lambda>s. (case ParseInt s of Inr n \<Rightarrow> Some n | Inl _ \<Rightarrow> None), FormatFloat = FormatInt,
     posInf = 1000, negInf = -1000, tiny = 0, huge = 999, negHuge = -999, fsub = (-), toDuration = seconds,
     wholeSeconds = \<lambda>d. d div 1000000000, wholeDays = \<lambda>d. d div 86400000000000\<rparr>"

definition constLua :: "int lua" where
  "constLua = \<lparr>luaStep = \<lambda>_ _ _ _. LReturn (Some (LNumber 1)), luaPrint = \<lambda>_. [], wholeNumber = Some\<rparr>"

definition plainHandler :: Handler where
  "plainHandler = \<lparr>password = ''secret'', startTime = 0, listNotifier = False, blockingPollInterval = 100000000, goos = ''linux'', goarch = ''amd64''\<rparr>"

definition resp2 :: ctx where
  "resp2 = \<lparr>resp3 = False, noBlock = False\<rparr>"

definition setKV :: Value where
  "setKV = Arr [Bulk ''SET'', Bulk ''k'', Bulk ''v'']"

definition queuing :: "Value list \<Rightarrow> ClientState" where
  "queuing cmds = (NewClientState 1 [] 0)\<lparr>inTransaction := True, queuedCommands := cmds\<rparr>"

lemma queuing_simps [simp]: "inTransaction (queuing cmds)" "queuedCommands (queuing cmds) = cmds"
  by (simp_all add: queuing_def)

lemma quiet_simps [simp]:
  "surroundings quiet = quietEnv" "attempts quiet = (\<lambda>_ _. Completes)" "cancels quiet = (\<lambda>_ _. False)" "statementFails quiet = (\<lambda>_. None)"
  "beginFails quiet = (\<lambda>_. None)" "lockFails quiet = (\<lambda>_. None)" "commitFails quiet = (\<lambda>_. None)" "flushFails quiet = (\<lambda>_. None)"
  "contextEnds quiet = (\<lambda>_. None)" "takes quiet = (\<lambda>_. 0)" "woken quiet = (\<lambda>_. [])"
  by (simp_all add: quiet_def)

lemma setKV_simps:
  "encodeKey ''k'' = ''k''" "queuedKeys [setKV] = Inr [''k'']" "vArray setKV \<noteq> []" "\<not> isScript (ToUpper (arg (vArray setKV) 0))"
  "commandKeys ''SET'' [Bulk ''k'', Bulk ''v''] = Inr [''k'']" "ToUpper ''SET'' = ''SET''"
  by (code_simp, simp_all add: setKV_def arg_def commandKeys_def bulks_def upper_char_def isScript_def)

lemma executeData_SET:
  "executeData h fl ctx ops ''SET'' [Bulk k, Bulk v] = (\<lambda>st. Some (call Err (\<lambda>_. OK) ops (StringC (Set k v 0)) st))"
  by (rule ext, simp add: executeData_def commandTable_def stringTable_def setOp_def setOpAt_def bulks_def noSetOptions_def
      Let_def setWrite_def arg_def)

lemma ParseInt_one: "ParseInt ''1'' = Inr 1"
  by (simp add: ParseInt_def ParseUint_def is_digit_def digit_val_def)

lemma Handle_setKV:
  "Handle h fl lua be ctx setKV = onStorage (\<lambda>st. Some (call Err (\<lambda>_. OK) (store be) (StringC (Set ''k'' ''v'' 0)) st))"
  unfolding setKV_def Handle_Arr setKV_simps(6) by (simp add: executeCommand_def ExecuteWithOps_def executeData_SET)

definition quietStart :: "string list \<Rightarrow> int session \<Rightarrow> int session" where
  "quietStart keys s = snd (sessionLock quiet keys (snd (sessionBegin quiet s)))"

lemma quietStart_tx: "transaction (quietStart keys s) = Some (LockKeys keys (BeginTx (committed s)))" "committed (quietStart keys s) = committed s"
  by (auto simp: quietStart_def sessionLock_def sessionBegin_def BeginTx_def)

lemma quiet_runTx:
  assumes "fn (sc, quietStart keys s) = Some (Inr v, (sc2, s2))" "\<not> hasRetryableError v"
    "transaction s2 = Some t" "\<not> txdone t" "\<not> aborted t"
  shows "\<exists>s'. runTx (sessionBackend quiet) keys fn (sc, s) = Some (Inr v, (sc2, s')) \<and> committed s' = (txdb t)\<lparr>held := held (committed s2)\<rparr>"
proof -
  obtain s1 where b: "sessionBegin quiet s = (Inr (), s1)" by (simp add: sessionBegin_def)
  have "aborted (BeginTx (committed s)) = False" by (simp add: BeginTx_def)
  then have "fst (sessionLock quiet keys s1) = Inr ()" using b by (auto simp: sessionBegin_def sessionLock_def)
  then have "sessionLock quiet keys s1 = (Inr (), quietStart keys s)" by (simp add: quietStart_def b prod_eq_iff)
  with b assms show ?thesis
    by (auto simp: runTx_def runTxLoop.simps tryTx_def says_def sessionCommit_def Commit_def)
qed

lemma execQueue_setKV:
  "execQueue h fl lua be ctx [setKV] (sc, st) =
     (case call Err (\<lambda>_. OK) (tx be) (StringC (Set ''k'' ''v'' 0)) st of
        (Inl p, st) \<Rightarrow> Some (Inl p, (sc, st)) | (Inr v, st) \<Rightarrow> Some (Inr [v], (sc, st)))"
  by (simp add: setKV_def arg_def upper_char_def ExecuteWithOps_def onStorage_def executeData_SET split: prod.split sum.split)

lemma exec_setKV:
  "\<exists>c' s'. HandleExec h fl lua (sessionBackend quiet) ctx (queuing [setKV]) (sc, s) = (c', Some (Inr (Arr [OK]), (sc, s'))) \<and>
     get now ''k'' (committed s') = Some ''v''"
proof -
  let ?s1 = "quietStart [''k''] s" and ?t = "LockKeys [''k''] (BeginTx (committed s))"
  let ?d = "set' (clock ?s1) ''k'' ''v'' 0 (txdb ?t)" and ?ctx = "ctx\<lparr>noBlock := True\<rparr>"
  let ?s2 = "passes quiet (?s1\<lparr>transaction := Some (?t\<lparr>txdb := ?d\<rparr>)\<rparr>)"
  have t: "\<not> aborted ?t" "\<not> txdone ?t" by (simp_all add: LockKeys_def BeginTx_def)
  have "execQueue h fl lua (sessionBackend quiet) ?ctx [setKV] (sc, ?s1) = Some (Inr [OK], (sc, ?s2))"
    using t by (simp add: execQueue_setKV call_def callThen_def sessionTxExec_def quietStart_tx txExec_def says_def answer_def del: execQueue.simps)
  then have "\<exists>s'. runTx (sessionBackend quiet) [''k''] (\<lambda>w. map_option (\<lambda>(r, w). (map_sum id Arr r, w))
        (execQueue h fl lua (sessionBackend quiet) ?ctx [setKV] w)) (sc, s) = Some (Inr (Arr [OK]), (sc, s')) \<and>
      committed s' = ?d\<lparr>held := held (committed ?s2)\<rparr>"
    using quiet_runTx [of "\<lambda>w. map_option (\<lambda>(r, w). (map_sum id Arr r, w)) (execQueue h fl lua (sessionBackend quiet) ?ctx [setKV] w)"
        sc "[''k'']" s "Arr [OK]" sc ?s2 "?t\<lparr>txdb := ?d\<rparr>"] t
    by (simp add: hasRetryableError_def OK_def SimpleVal_def del: execQueue.simps)
  moreover have "get now ''k'' (?d\<lparr>held := hh\<rparr>) = Some ''v''" for hh
  proof -
    have "get now ''k'' ?d = Some ''v''" by (simp add: get_set' expiryOf_def)
    then show ?thesis by (simp add: get_def selectString_def)
  qed
  ultimately show ?thesis
    by (auto simp: HandleExec_def GetQueuedCommands_def setKV_simps simp del: execQueue.simps queuedKeys.simps)
qed

section \<open>Properties\<close>

text \<open>
  C8.  Whatever the storage, every reply of the handler has a type that the client's
  protocol version knows: a RESP2 client never receives a RESP3 map, not even
  nested in an array, from a command, from EXEC or from CLIENT.
\<close>

theorem replies_fit_protocol:
  "(Handle h fl lua be ctx cmd w = Some (Inr v, w') \<longrightarrow> wireOK (resp3 ctx) v) \<and>
   (snd (HandleExec h fl lua be ctx c w) = Some (Inr v, w') \<longrightarrow> wireOK (resp3 ctx) v) \<and>
   wireOK r3 (fst (HandleClient fl now cmd c))"
  by (intro conjI impI) (erule fitsD [OF fits_Handle], erule fits_HandleExec, rule wire_HandleClient)

theorem replies_fit_protocol_witness:
  "Handle plainHandler intFloats constLua (sessionBackend quiet) resp2 (Arr [Bulk ''echo'', Bulk ''hi'']) ([], newSession initSchema 0)
     = Some (Inr (Bulk ''hi''), ([], newSession initSchema 0)) \<and> wireOK False (Bulk ''hi'')"
proof -
  have u: "ToUpper ''echo'' = ''ECHO''" by code_simp
  have e: "Handle plainHandler intFloats constLua (sessionBackend quiet) resp2 (Arr [Bulk ''echo'', Bulk ''hi'']) ([], newSession initSchema 0)
     = Some (Inr (Bulk ''hi''), ([], newSession initSchema 0))"
    unfolding Handle_Arr u by (simp add: executeCommand_def returns_def echo_def arg_def says_def)
  then show ?thesis
    using replies_fit_protocol [of plainHandler intFloats constLua "sessionBackend quiet" resp2 "Arr [Bulk ''echo'', Bulk ''hi'']"
        "([], newSession initSchema 0)" "Bulk ''hi''" "([], newSession initSchema 0)" "queuing []" False 0]
    by (simp add: resp2_def)
qed

text \<open>
  C1.  A command sent outside a transaction changes only the keys that
  \<^verbatim>\<open>commandKeys\<close> reports for it (none if that slice expression panics), keeps the
  database well-formed, and leaves an open transaction alone.  Excepted are
  FLUSHDB, FLUSHALL and scripts.
\<close>

theorem handle_confined:
  assumes "n = ToUpper name" "n \<notin> {''FLUSHDB'', ''FLUSHALL'', ''EVAL'', ''EVALSHA''}"
    and "Handle h fl lua (sessionBackend f) ctx (Arr (Bulk name # args)) (sc, s) = Some (r, (sc', s'))"
    and "wf_db (committed s)"
  shows "wf_db (committed s') \<and> transaction s' = transaction s \<and>
    (\<forall>k. k \<notin> encodeKey ` (case commandKeys n args of Inr ks \<Rightarrow> set ks | Inl _ \<Rightarrow> {}) \<longrightarrow>
       rows k (committed s') = rows k (committed s))"
proof -
  let ?K = "case commandKeys n args of Inr ks \<Rightarrow> set ks | Inl _ \<Rightarrow> {}"
  have "behavesO storeRel (resp3 ctx) ?K (executeData h fl ctx (sessionOps sessionExec f) n args)"
    by (cases "commandKeys n args") (simp_all add: st.executeData_ok st.executeData_nokeys)
  moreover have "storeRel K t t" for K and t :: "'a session" by (rule st.R_refl)
  ultimately have "storeRel ?K s s'"
    using assms(1-3)
    by (auto simp: Handle_Arr executeCommand_def ExecuteWithOps_def behavesO_def onStorage_def returns_def says_def
        dest: scriptOp_session split: if_splits)
  then show ?thesis using assms(4) by (auto simp: storeRel_def framed_def touches_def)
qed

theorem handle_confined_witness:
  "\<exists>r sc' s'. Handle plainHandler intFloats constLua (sessionBackend quiet) resp2 setKV ([], newSession initSchema 0) = Some (r, (sc', s')) \<and>
     wf_db (committed s') \<and> rows ''other'' (committed s') = rows ''other'' (initSchema :: int db)"
proof -
  obtain r sc' s' where e: "Handle plainHandler intFloats constLua (sessionBackend quiet) resp2 setKV ([], newSession initSchema 0) = Some (r, (sc', s'))"
    by (cases "call Err (\<lambda>_. OK) (sessionOps sessionExec quiet) (StringC (Set ''k'' ''v'' 0)) (newSession initSchema 0)")
      (auto simp: Handle_setKV onStorage_def)
  with handle_confined [of "''SET''" "''SET''" plainHandler intFloats constLua quiet resp2 "[Bulk ''k'', Bulk ''v'']" "[]" "newSession initSchema 0" r sc' s']
  show ?thesis by (auto simp: setKV_simps setKV_def newSession_def wf_initSchema simp del: ToUpper.simps)
qed

text \<open>
  C3.  EXEC is atomic.  The queue and the transaction state are cleared.  Either
  nothing is committed, and the reply is an error, an array with the error of a deadlock in it, or a panic;
  or the queued commands all ran, in order, on the database the transaction began with after the
  locks of their keys were taken, one reply each, and exactly their effect is
  committed.  Without scripts in the queue only the keys of the queued commands change.
\<close>

theorem exec_atomic:
  assumes "inTransaction c" "queuedKeys (queuedCommands c) = Inr keys"
    and "HandleExec h fl lua (sessionBackend f) ctx c (sc, s) = (c', Some (r, (sc', s')))"
  shows "\<not> inTransaction c' \<and> queuedCommands c' = [] \<and>
    (committed s' = committed s \<and> (\<forall>v. r = Inr v \<longrightarrow> vType v = Error \<or> hasRetryableError v) \<or>
     (\<exists>sc1 s1 vs sc2 s2 t.
        execQueue h fl lua (sessionBackend f) (ctx\<lparr>noBlock := True\<rparr>) (queuedCommands c) (sc1, s1) = Some (Inr vs, (sc2, s2)) \<and>
        r = Inr (Arr vs) \<and> length vs = length (queuedCommands c) \<and> \<not> hasRetryableError (Arr vs) \<and>
        transaction s1 = Some (LockKeys keys (BeginTx (committed s))) \<and> transaction s2 = Some t \<and> \<not> aborted t \<and>
        committed s' = (txdb t)\<lparr>held := held (committed s)\<rparr>)) \<and>
    ((\<forall>cmd \<in> set (queuedCommands c). vArray cmd \<noteq> [] \<longrightarrow> \<not> isScript (ToUpper (arg (vArray cmd) 0))) \<longrightarrow>
       framed (encodeKey ` set keys) (committed s) (committed s'))"
proof -
  let ?ctx = "ctx\<lparr>noBlock := True\<rparr>" and ?cmds = "queuedCommands c"
  let ?fn = "\<lambda>w. map_option (\<lambda>(r, w). (map_sum id Arr r, w)) (execQueue h fl lua (sessionBackend f) ?ctx ?cmds w)"
  have c': "\<not> inTransaction c'" "queuedCommands c' = []" and run: "runTx (sessionBackend f) keys ?fn (sc, s) = Some (r, (sc', s'))"
    using assms by (auto simp: HandleExec_def GetQueuedCommands_def)
  have any: "behavesTx UNIV ?fn" by (intro tx_execQueue) simp
  note res = runTx_session [OF any run, unfolded fst_conv snd_conv]
  have by': "\<exists>sc1 s1 vs sc2 s2 t. execQueue h fl lua (sessionBackend f) ?ctx ?cmds (sc1, s1) = Some (Inr vs, (sc2, s2)) \<and>
        r = Inr (Arr vs) \<and> length vs = length ?cmds \<and> \<not> hasRetryableError (Arr vs) \<and>
        transaction s1 = Some (LockKeys keys (BeginTx (committed s))) \<and> transaction s2 = Some t \<and> \<not> aborted t \<and>
        committed s' = (txdb t)\<lparr>held := held (committed s)\<rparr>" if "committedBy ?fn keys s (r, (sc', s'))"
    using that execQueue_replies by (fastforce simp: committedBy_def map_sum_Inr)
  have "framed (encodeKey ` set keys) (committed s) (committed s')"
    if "\<forall>cmd \<in> set ?cmds. vArray cmd \<noteq> [] \<longrightarrow> \<not> isScript (ToUpper (arg (vArray cmd) 0))"
  proof -
    have "behavesTx (set keys) ?fn" using assms(2) that by (intro tx_execQueue) auto
    with res framed_committed [OF this, of keys s "(r, (sc', s'))"] show ?thesis by auto
  qed
  with c' res by' show ?thesis by (auto simp: refused_def)
qed

theorem exec_atomic_witness:
  "\<exists>c' s'. HandleExec plainHandler intFloats constLua (sessionBackend quiet) resp2 (queuing [setKV]) ([], newSession initSchema 0)
      = (c', Some (Inr (Arr [OK]), ([], s'))) \<and> \<not> inTransaction c' \<and> get 7 ''k'' (committed s') = Some ''v'' \<and>
    rows ''other'' (committed s') = rows ''other'' (initSchema :: int db)"
proof -
  obtain c' s' where e: "HandleExec plainHandler intFloats constLua (sessionBackend quiet) resp2 (queuing [setKV]) ([], newSession initSchema 0)
      = (c', Some (Inr (Arr [OK]), ([], s')))" "get 7 ''k'' (committed s') = Some ''v''"
    using exec_setKV by blast
  show ?thesis
    using e exec_atomic [of "queuing [setKV]" "[''k'']", OF _ _ e(1)]
    by (simp add: setKV_simps newSession_def framed_def touches_def wf_initSchema del: queuedKeys.simps execQueue.simps)
qed





text \<open>
  With a notifier BLPOP may outstay its timeout.  When the deadline passes between the check and
  the computation of the time to wait, that time is not positive, which
  \<^verbatim>\<open>WaitForKeys\<close> takes for no timeout: here BLPOP k 1 never returns.
\<close>

definition lateBy :: "nat \<Rightarrow> int fates" where
  "lateBy d = quiet\<lparr>takes := (\<lambda>n. if n = 0 then d else 0)\<rparr>"

lemma blocking_pop_outstays_timeout:
  "executeData (plainHandler\<lparr>listNotifier := True\<rparr>) intFloats resp2 (sessionOps sessionExec (lateBy 999999999)) ''BLPOP'' [Bulk ''k'', Bulk ''1'']
     (newSession initSchema 0) = None"
proof -
  have "ParseFloat intFloats ''1'' = Some 1" by (simp add: intFloats_def ParseInt_one)
  moreover have "sessionExec (lateBy 999999999) (ListC (LPopMulti [''k''])) (newSession initSchema 0)
      = (Inr RNil, (newSession initSchema 0)\<lparr>clock := 1000000000, calls := 1\<rparr>)"
    by (simp add: sessionExec_def storeExec_def lateBy_def newSession_def passes_def withTx_def withTxLoop.simps execTx_def
        lPopMulti_def popMulti_def popRows_def listRows_def rows_of_def encodeKeys_def initSchema_def answer_def writes_def maxDeadlockRetries_def)
  moreover have "waitOr NullBulk (plainHandler\<lparr>listNotifier := True\<rparr>) resp2 (sessionOps sessionExec (lateBy 999999999)) [''k''] (Some 1000000000)
      ((newSession initSchema 0)\<lparr>clock := 1000000000, calls := 1\<rparr>) = None"
    by (simp add: waitOr_def waitStep_def waitFor_def newSession_def resp2_def passes_def lateBy_def until_def plainHandler_def Let_def
        wrap64_def min_int64_def max_int64_def)
  moreover have "clock (newSession (initSchema :: int db) 0) + toDuration intFloats 1 = 1000000000"
    by (simp add: newSession_def intFloats_def seconds_def wrap64_def)
  ultimately show ?thesis
    unfolding st.executeData_blocking
    by (simp add: blpopOp_def arg_def Let_def bulks_def blockingPop_def deadlineOf_def) (subst rounds.simps, simp add: popRound_def)
qed

text \<open>
  C14.  EVAL outside a transaction is atomic: either nothing is committed, or the script
  ran to its end on the database its transaction began with, after the locks of
  KEYS were taken, and its effect is what was committed and its value the reply.
\<close>

theorem eval_atomic:
  assumes "2 \<le> length args" "evalArgs args = Inr n" "takeKeys n (bulks (drop 2 args)) = Inr keys"
    and "evalOp h fl lua (sessionBackend f) ctx False args (sc, s) = Some (r, (sc', s'))"
  shows "committed s' = committed s \<and> (\<forall>v. r = Inr v \<longrightarrow> vType v = Error \<or> hasRetryableError v) \<or>
    (\<exists>s1 v s2 t.
       luaExecute h fl lua (ctx\<lparr>noBlock := True\<rparr>) (sessionOps sessionTxExec f) keys (bulks (drop (2 + nat n) args)) (arg args 0) s1
         = Some (Inr v, s2) \<and> r = Inr v \<and> \<not> hasRetryableError v \<and>
       transaction s1 = Some (LockKeys keys (BeginTx (committed s))) \<and> transaction s2 = Some t \<and> \<not> aborted t \<and>
       committed s' = (txdb t)\<lparr>held := held (committed s)\<rparr>)"
proof -
  let ?fn = "onStorage (luaExecute h fl lua (ctx\<lparr>noBlock := True\<rparr>) (sessionOps sessionTxExec f) keys (bulks (drop (2 + nat n) args)) (arg args 0))"
  have "runTx (sessionBackend f) keys ?fn (snd (cacheStore (arg args 0) sc), s) = Some (r, (sc', s'))"
    using assms by (auto simp: evalOp_def runScript_def Let_def)
  from runTx_session [OF behavesTx_onStorage [OF tr.luaExecute_ok] this]
  show ?thesis by (fastforce simp: committedBy_def refused_def onStorage_def)
qed

theorem eval_atomic_witness:
  "\<exists>sc' s'. evalOp plainHandler intFloats constLua (sessionBackend quiet) resp2 False [Bulk ''return 1'', Bulk ''1'', Bulk ''k''] ([], newSession initSchema 0)
     = Some (Inr (IntVal 1), (sc', s')) \<and>
     (\<exists>t :: int TxStore. \<not> aborted t \<and> committed s' = (txdb t)\<lparr>held := held (initSchema :: int db)\<rparr>)"
proof -
  let ?args = "[Bulk ''return 1'', Bulk ''1'', Bulk ''k'']" and ?s = "newSession initSchema 0 :: int session"
  let ?sc = "snd (cacheStore ''return 1'' [])"
  have a: "evalArgs ?args = Inr 1" "takeKeys 1 (bulks (drop 2 ?args)) = Inr [''k'']"
    by (simp_all add: evalArgs_def arg_def ParseInt_one takeKeys_def bulks_def wrap64_def makeable_def)
  let ?run = "luaExecute plainHandler intFloats constLua (resp2\<lparr>noBlock := True\<rparr>) (sessionOps sessionTxExec quiet) [''k''] [] ''return 1''"
  have l: "?run s = Some (Inr (IntVal 1), s)" for s
    by (simp add: luaExecute_def luaLoop.simps luaRound_def constLua_def)
  have v: "vType (IntVal 1) \<noteq> Error" "\<not> hasRetryableError (IntVal 1)"
    by (simp_all add: IntVal_def hasRetryableError_def)
  then have "\<exists>s'. runTx (sessionBackend quiet) [''k''] (onStorage ?run) (?sc, ?s) = Some (Inr (IntVal 1), (?sc, s'))"
    using quiet_runTx [of "onStorage ?run" ?sc "[''k'']" ?s "IntVal 1" ?sc "quietStart [''k''] ?s" "LockKeys [''k''] (BeginTx (committed ?s))"]
    by (auto simp: onStorage_def l quietStart_tx LockKeys_def BeginTx_def)
  then obtain s' where e: "evalOp plainHandler intFloats constLua (sessionBackend quiet) resp2 False ?args ([], ?s) = Some (Inr (IntVal 1), (?sc, s'))"
    using a by (auto simp: evalOp_def runScript_def arg_def bulks_def)
  have l2: "2 \<le> length ?args" and c: "committed ?s = initSchema" by (simp_all add: newSession_def)
  from eval_atomic [OF l2 a e] have "\<exists>t :: int TxStore. \<not> aborted t \<and> committed s' = (txdb t)\<lparr>held := held (initSchema :: int db)\<rparr>"
    unfolding c using v by blast
  with e show ?thesis by blast
qed

text \<open>
  C34.  SCRIPT LOAD returns the SHA-1 of the script and forgets no other script.  EVALSHA with
  that hash, in either case of letters, then does what EVAL with the source does;
  after SCRIPT FLUSH it answers NOSCRIPT.
\<close>

theorem script_load_evalsha:
  assumes "scriptOp [Bulk ''LOAD'', Bulk src] (sc, st) = (r, (sc', st'))"
    and "ToLower sha = scriptSHA1 src"
  shows "r = Inr (Bulk (scriptSHA1 src)) \<and> st' = st \<and> (\<forall>h. h \<noteq> scriptSHA1 src \<longrightarrow> map_of sc' h = map_of sc h) \<and>
    evalshaOp hdl fl lua be ctx inTrans (Bulk sha # num # args) (sc', st) = evalOp hdl fl lua be ctx inTrans (Bulk src # num # args) (sc', st) \<and>
    scriptOp [Bulk ''EXISTS'', Bulk sha] (sc', st) = says (Arr [IntVal 1]) (sc', st) \<and>
    (evalArgs (Bulk sha # num # args) = Inr n \<longrightarrow>
       evalshaOp hdl fl lua be ctx inTrans (Bulk sha # num # args) (snd (scriptOp [Bulk ''FLUSH''] (sc', st))) = Some (says errNoScript ([], st)))"
proof -
  have sc': "sc' = AList.update (scriptSHA1 src) src sc" "r = Inr (Bulk (scriptSHA1 src))" "st' = st"
    using assms(1) by (auto simp: scriptOp_def arg_def bulks_def cacheStore_def says_def Let_def upper_char_def)
  then have m: "map_of sc' (scriptSHA1 src) = Some src" by (simp add: AList.update_conv')
  then have "AList.update (scriptSHA1 src) src sc' = sc'" by (rule AList.update_triv)
  moreover have "evalArgs (Bulk sha # num # args) = evalArgs (Bulk src # num # args)"
    by (simp add: evalArgs_def arg_def split: sum.split)
  ultimately show ?thesis
    using assms(2) sc' m
    by (auto simp: evalshaOp_def evalOp_def cacheLookup_def cacheStore_def arg_def scriptOp_def cacheFlush_def says_def Let_def
        bulks_def cacheExists_def bit_def AList.update_conv' upper_char_def split: sum.split)
qed

theorem script_load_evalsha_witness:
  "evalshaOp plainHandler intFloats constLua (sessionBackend quiet) resp2 False [Bulk (scriptSHA1 ''return 1''), Bulk ''0'']
       (snd (scriptOp [Bulk ''LOAD'', Bulk ''return 1''] ([], newSession initSchema 0)))
     = evalOp plainHandler intFloats constLua (sessionBackend quiet) resp2 False [Bulk ''return 1'', Bulk ''0'']
       (snd (scriptOp [Bulk ''LOAD'', Bulk ''return 1''] ([], newSession initSchema 0)))"
proof -
  obtain r sc' st' where e: "scriptOp [Bulk ''LOAD'', Bulk ''return 1''] ([], newSession initSchema 0 :: int session) = (r, (sc', st'))"
    using prod_cases3 by blast
  show ?thesis
    using script_load_evalsha [OF e ToLower_scriptSHA1, of plainHandler intFloats constLua "sessionBackend quiet" resp2 False "Bulk ''0''" "[]"]
    by (simp add: e)
qed

end
