(* ===== verification/Hub.thy ===== *)
theory Hub
  imports Client Glob
begin

text \<open>
  Publish/subscribe: the hub of \<^verbatim>\<open>src/internal/pubsub/hub.go\<close> and the handlers of
  \<^verbatim>\<open>src/internal/handler/handler_pubsub.go\<close>.  A Go map from names to sets of
  subscribers is an association list of lists; a subscriber is its client id.
  The hub keeps every subscription twice, by channel and by subscriber, and the
  same again for patterns.  The PostgreSQL connection that carries
  notifications is left out: what arrives on it is an event of the listener.
\<close>

section \<open>Subscriptions\<close>

definition entries :: "'k \<Rightarrow> ('k \<times> 'v list) list \<Rightarrow> 'v list" where
  "entries k m = (case map_of m k of Some xs \<Rightarrow> xs | None \<Rightarrow> [])"

definition addEntry :: "'k \<Rightarrow> 'v \<Rightarrow> ('k \<times> 'v list) list \<Rightarrow> ('k \<times> 'v list) list" where
  "addEntry k v m = AList.update k (List.insert v (entries k m)) m"

definition dropEntry :: "'k \<Rightarrow> 'v \<Rightarrow> ('k \<times> 'v list) list \<Rightarrow> ('k \<times> 'v list) list" where
  "dropEntry k v m =
     (case map_of m k of
        None \<Rightarrow> m
      | Some xs \<Rightarrow> let xs' = removeAll v xs in if xs' = [] then AList.delete k m else AList.update k xs' m)"

record Hub =
  subscriptions :: "(string \<times> nat list) list"
  subscribers :: "(nat \<times> string list) list"
  patterns :: "(string \<times> nat list) list"
  subPatterns :: "(nat \<times> string list) list"

definition NewHub :: Hub where
  "NewHub = \<lparr>subscriptions = [], subscribers = [], patterns = [], subPatterns = []\<rparr>"

text \<open>The loops of \<^verbatim>\<open>Subscribe\<close>/\<^verbatim>\<open>PSubscribe\<close> and of \<^verbatim>\<open>Unsubscribe\<close>/\<^verbatim>\<open>PUnsubscribe\<close>, over one pair of maps.\<close>

fun subscribeLoop ::
  "nat \<Rightarrow> string list \<Rightarrow> (string \<times> nat list) list \<times> (nat \<times> string list) list
     \<Rightarrow> nat list \<times> (string \<times> nat list) list \<times> (nat \<times> string list) list" where
  "subscribeLoop sub [] (byName, bySub) = ([], byName, bySub)"
| "subscribeLoop sub (name # names) (byName, bySub) =
     (let byName = addEntry name sub byName; bySub = addEntry sub name bySub
      in case subscribeLoop sub names (byName, bySub) of (counts, m) \<Rightarrow> (length (entries sub bySub) # counts, m))"

definition subscribeIn where
  "subscribeIn sub names = (\<lambda>(byName, bySub).
     subscribeLoop sub names (byName, if map_of bySub sub = None then AList.update sub [] bySub else bySub))"

fun unsubscribeLoop ::
  "nat \<Rightarrow> string list \<Rightarrow> (string \<times> nat list) list \<times> (nat \<times> string list) list
     \<Rightarrow> nat list \<times> (string \<times> nat list) list \<times> (nat \<times> string list) list" where
  "unsubscribeLoop sub [] (byName, bySub) = ([], byName, bySub)"
| "unsubscribeLoop sub (name # names) (byName, bySub) =
     (let byName = dropEntry name sub byName; bySub = dropEntry sub name bySub
      in case unsubscribeLoop sub names (byName, bySub) of (counts, m) \<Rightarrow> (length (entries sub bySub) # counts, m))"

definition unsubscribeIn where
  "unsubscribeIn sub names = (\<lambda>(byName, bySub).
     unsubscribeLoop sub (if names = [] then entries sub bySub else names) (byName, bySub))"

definition removeIn ::
  "nat \<Rightarrow> (string \<times> nat list) list \<times> (nat \<times> string list) list \<Rightarrow> (string \<times> nat list) list \<times> (nat \<times> string list) list" where
  "removeIn sub = (\<lambda>(byName, bySub).
     case map_of bySub sub of
       None \<Rightarrow> (byName, bySub)
     | Some names \<Rightarrow> (fold (\<lambda>name. dropEntry name sub) names byName, AList.delete sub bySub))"

definition onChannels where
  "onChannels f h =
     (case f (subscriptions h, subscribers h) of (counts :: nat list, byName, bySub) \<Rightarrow>
        (counts, h\<lparr>subscriptions := byName, subscribers := bySub\<rparr>))"

definition onPatterns where
  "onPatterns f h =
     (case f (patterns h, subPatterns h) of (counts :: nat list, byName, bySub) \<Rightarrow>
        (counts, h\<lparr>patterns := byName, subPatterns := bySub\<rparr>))"

definition Subscribe :: "nat \<Rightarrow> string list \<Rightarrow> Hub \<Rightarrow> nat list \<times> Hub" where
  "Subscribe sub channels = onChannels (subscribeIn sub channels)"

definition Unsubscribe :: "nat \<Rightarrow> string list \<Rightarrow> Hub \<Rightarrow> nat list \<times> Hub" where
  "Unsubscribe sub channels = onChannels (unsubscribeIn sub channels)"

definition PSubscribe :: "nat \<Rightarrow> string list \<Rightarrow> Hub \<Rightarrow> nat list \<times> Hub" where
  "PSubscribe sub pats = onPatterns (subscribeIn sub pats)"

definition PUnsubscribe :: "nat \<Rightarrow> string list \<Rightarrow> Hub \<Rightarrow> nat list \<times> Hub" where
  "PUnsubscribe sub pats = onPatterns (unsubscribeIn sub pats)"

definition GetSubscriptionCount :: "nat \<Rightarrow> Hub \<Rightarrow> nat \<times> nat" where
  "GetSubscriptionCount sub h = (length (entries sub (subscribers h)), length (entries sub (subPatterns h)))"

definition GetSubscribedChannels :: "nat \<Rightarrow> Hub \<Rightarrow> string list" where
  "GetSubscribedChannels sub h = entries sub (subscribers h)"

definition GetSubscribedPatterns :: "nat \<Rightarrow> Hub \<Rightarrow> string list" where
  "GetSubscribedPatterns sub h = entries sub (subPatterns h)"

definition RemoveSubscriber :: "nat \<Rightarrow> Hub \<Rightarrow> Hub" where
  "RemoveSubscriber sub h =
     (case removeIn sub (subscriptions h, subscribers h) of (chs, subs) \<Rightarrow>
      case removeIn sub (patterns h, subPatterns h) of (pats, subPats) \<Rightarrow>
        \<lparr>subscriptions = chs, subscribers = subs, patterns = pats, subPatterns = subPats\<rparr>)"

section \<open>Publishing and delivery\<close>

definition broadcastChannel :: string where
  "broadcastChannel = ''postkeys_pubsub''"

definition matchPattern :: "string \<Rightarrow> string \<Rightarrow> bool" where
  "matchPattern pattern channel = globMatch pattern channel"

definition countSubscribers :: "string \<Rightarrow> Hub \<Rightarrow> nat" where
  "countSubscribers channel h =
     length (entries channel (subscriptions h)) +
     sum_list (map (\<lambda>(pattern, subs). if matchPattern pattern channel then length subs else 0) (patterns h))"

text \<open>
  The envelope \<^verbatim>\<open>{"c":...,"m":...,"b":true}\<close>.  Both strings are base64, so JSON
  escapes nothing in them.  \<open>unmarshalPayload\<close> reads envelopes of this form, the only
  ones that \<^verbatim>\<open>Publish\<close> sends.
\<close>

definition jsonString :: "string \<Rightarrow> string" where
  "jsonString s = [CHR 0x22] @ s @ [CHR 0x22]"

definition marshalPayload :: "string \<Rightarrow> string \<Rightarrow> string" where
  "marshalPayload c m =
     ''{'' @ jsonString ''c'' @ '':'' @ jsonString c @ '','' @ jsonString ''m'' @ '':'' @ jsonString m @ '','' @ jsonString ''b'' @ '':true}''"

definition stripPrefix :: "string \<Rightarrow> string \<Rightarrow> string option" where
  "stripPrefix p s = (if HasPrefix s p then Some (drop (length p) s) else None)"

definition quotedRest :: "string \<Rightarrow> string \<times> string" where
  "quotedRest s = (takeWhile (\<lambda>c. c \<noteq> CHR 0x22) s, drop 1 (dropWhile (\<lambda>c. c \<noteq> CHR 0x22) s))"

definition unmarshalPayload :: "string \<Rightarrow> (string \<times> string) option" where
  "unmarshalPayload s =
     Option.bind (stripPrefix (''{'' @ jsonString ''c'' @ '':'' @ [CHR 0x22]) s) (\<lambda>s.
       case quotedRest s of (c, s) \<Rightarrow>
         Option.bind (stripPrefix ('','' @ jsonString ''m'' @ '':'' @ [CHR 0x22]) s) (\<lambda>s.
           case quotedRest s of (m, s) \<Rightarrow>
             if s = '','' @ jsonString ''b'' @ '':true}'' then Some (c, m) else None))"

definition broadcastPayload :: "string \<Rightarrow> string \<Rightarrow> string" where
  "broadcastPayload channel message = EncodeToString (marshalPayload (EncodeToString channel) (EncodeToString message))"

text \<open>\<^verbatim>\<open>Publish\<close>: the reply, and the payload of the notification it sends; \<open>fails\<close> is the error of \<^verbatim>\<open>pg_notify\<close>.\<close>

definition Publish :: "string option \<Rightarrow> string \<Rightarrow> string \<Rightarrow> Hub \<Rightarrow> string + nat \<times> string" where
  "Publish fails channel message h =
     (case fails of
        Some e \<Rightarrow> Inl (''failed to publish: '' @ e)
      | None \<Rightarrow> Inr (countSubscribers channel h, broadcastPayload channel message))"

text \<open>A delivery: the subscriber and the arguments of \<^verbatim>\<open>SendPubSubMessage\<close>.\<close>

type_synonym delivery = "nat \<times> string \<times> string \<times> string"

definition deliverToChannel :: "string \<Rightarrow> string \<Rightarrow> Hub \<Rightarrow> delivery list" where
  "deliverToChannel channel body h = map (\<lambda>sub. (sub, ''message'', channel, body)) (entries channel (subscriptions h))"

definition deliverToPatterns :: "string \<Rightarrow> string \<Rightarrow> Hub \<Rightarrow> delivery list" where
  "deliverToPatterns channel body h =
     concat (map (\<lambda>(pattern, subs).
       if matchPattern pattern channel then map (\<lambda>sub. (sub, ''pmessage'', pattern @ [NUL] @ channel, body)) subs else []) (patterns h))"

definition decoded :: "string \<Rightarrow> string" where
  "decoded s = (case DecodeString s of Some t \<Rightarrow> t | None \<Rightarrow> s)"

definition onNotification :: "string \<Rightarrow> string \<Rightarrow> Hub \<Rightarrow> delivery list" where
  "onNotification pgChannel body h =
     (if pgChannel \<noteq> broadcastChannel then []
      else case Option.bind (DecodeString body) unmarshalPayload of
             None \<Rightarrow> []
           | Some (c, m) \<Rightarrow> deliverToChannel (decoded c) (decoded m) h @ deliverToPatterns (decoded c) (decoded m) h)"

section \<open>The listener\<close>

text \<open>
  \<^verbatim>\<open>listenLoop\<close>, one event at a time: the hub's context ends, a try to reconnect
  succeeds or fails, or the wait for a notification times out, fails or
  brings one.  Times are nanoseconds.  None: the event cannot happen in this state.
\<close>

record listener =
  connected :: bool
  currentTimeout :: int
  reconnectBackoff :: int
  stopped :: bool

datatype hub_event = HubDone | Reconnected bool | WaitTimeout | WaitError | Notified string string

definition minTimeout :: int where "minTimeout = 50000000"
definition maxTimeout :: int where "maxTimeout = 2000000000"
definition minReconnectBackoff :: int where "minReconnectBackoff = 100000000"
definition maxReconnectBackoff :: int where "maxReconnectBackoff = 30000000000"

definition newListener :: listener where
  "newListener = \<lparr>connected = True, currentTimeout = minTimeout, reconnectBackoff = minReconnectBackoff, stopped = False\<rparr>"

definition listenStep :: "Hub \<Rightarrow> hub_event \<Rightarrow> listener \<Rightarrow> (delivery list \<times> listener) option" where
  "listenStep h ev l =
     (if stopped l then None
      else case ev of
        HubDone \<Rightarrow> Some ([], l\<lparr>stopped := True\<rparr>)
      | Reconnected ok' \<Rightarrow>
          if connected l then None
          else if ok' then Some ([], l\<lparr>connected := True, reconnectBackoff := minReconnectBackoff, currentTimeout := minTimeout\<rparr>)
          else Some ([], l\<lparr>reconnectBackoff := min (reconnectBackoff l * 2) maxReconnectBackoff\<rparr>)
      | WaitTimeout \<Rightarrow>
          if \<not> connected l then None
          else Some ([], if currentTimeout l < maxTimeout then l\<lparr>currentTimeout := min (currentTimeout l * 2) maxTimeout\<rparr> else l)
      | WaitError \<Rightarrow> if \<not> connected l then None else Some ([], l\<lparr>connected := False\<rparr>)
      | Notified pgChannel body \<Rightarrow>
          if \<not> connected l then None else Some (onNotification pgChannel body h, l\<lparr>currentTimeout := minTimeout\<rparr>))"

section \<open>The handlers\<close>

definition buildResponse :: "string \<Rightarrow> string \<Rightarrow> nat \<Rightarrow> Value" where
  "buildResponse kind name count' = Arr [Bulk kind, Bulk name, IntVal (int count')]"

definition BuildSubscribeResponse :: "string \<Rightarrow> nat \<Rightarrow> Value" where
  "BuildSubscribeResponse = buildResponse ''subscribe''"

definition BuildUnsubscribeResponse :: "string \<Rightarrow> nat \<Rightarrow> Value" where
  "BuildUnsubscribeResponse = buildResponse ''unsubscribe''"

definition BuildPSubscribeResponse :: "string \<Rightarrow> nat \<Rightarrow> Value" where
  "BuildPSubscribeResponse = buildResponse ''psubscribe''"

definition BuildPUnsubscribeResponse :: "string \<Rightarrow> nat \<Rightarrow> Value" where
  "BuildPUnsubscribeResponse = buildResponse ''punsubscribe''"

definition HandleSubscribe :: "string list \<Rightarrow> Hub \<times> ClientState \<Rightarrow> Value list \<times> Hub \<times> ClientState" where
  "HandleSubscribe channels = (\<lambda>(hub, c).
     if channels = [] then ([ErrWrongArgs ''subscribe''], hub, c)
     else let c = EnterPubSubMode c in
       case Subscribe (ID c) channels hub of (counts, hub) \<Rightarrow>
         (map2 (\<lambda>channel n. BuildSubscribeResponse channel (n + snd (GetSubscriptionCount (ID c) hub))) channels counts, hub, c))"

definition HandleUnsubscribe :: "string list \<Rightarrow> Hub \<times> ClientState \<Rightarrow> Value list \<times> Hub \<times> ClientState" where
  "HandleUnsubscribe channels = (\<lambda>(hub, c).
     let unsubChannels = (if channels = [] then GetSubscribedChannels (ID c) hub else channels) in
       case Unsubscribe (ID c) unsubChannels hub of (counts, hub) \<Rightarrow>
       case GetSubscriptionCount (ID c) hub of (channelCount, patternCount) \<Rightarrow>
         let c = (if channelCount = 0 \<and> patternCount = 0 then ExitPubSubMode c else c) in
         (if unsubChannels = [] then [BuildUnsubscribeResponse [] patternCount]
          else map2 (\<lambda>channel n. BuildUnsubscribeResponse channel (n + patternCount)) unsubChannels counts, hub, c))"

definition HandlePSubscribe :: "string list \<Rightarrow> Hub \<times> ClientState \<Rightarrow> Value list \<times> Hub \<times> ClientState" where
  "HandlePSubscribe pats = (\<lambda>(hub, c).
     if pats = [] then ([ErrWrongArgs ''psubscribe''], hub, c)
     else let c = EnterPubSubMode c in
       case PSubscribe (ID c) pats hub of (counts, hub) \<Rightarrow>
         (map2 (\<lambda>pattern n. BuildPSubscribeResponse pattern (n + fst (GetSubscriptionCount (ID c) hub))) pats counts, hub, c))"

definition HandlePUnsubscribe :: "string list \<Rightarrow> Hub \<times> ClientState \<Rightarrow> Value list \<times> Hub \<times> ClientState" where
  "HandlePUnsubscribe pats = (\<lambda>(hub, c).
     let pats = (if pats = [] then GetSubscribedPatterns (ID c) hub else pats) in
       case PUnsubscribe (ID c) pats hub of (counts, hub) \<Rightarrow>
       case GetSubscriptionCount (ID c) hub of (channelCount, patternCount) \<Rightarrow>
         let c = (if channelCount = 0 \<and> patternCount = 0 then ExitPubSubMode c else c) in
         (if pats = [] then [BuildPUnsubscribeResponse [] channelCount]
          else map2 (\<lambda>pattern n. BuildPUnsubscribeResponse pattern (n + channelCount)) pats counts, hub, c))"

definition HandlePublish :: "string option \<Rightarrow> string \<Rightarrow> string \<Rightarrow> Hub \<Rightarrow> Value" where
  "HandlePublish fails channel message hub =
     (case Publish fails channel message hub of
        Inl e \<Rightarrow> Err (''ERR '' @ e)
      | Inr (count', _) \<Rightarrow> IntVal (int count'))"

section \<open>The two maps agree\<close>

lemma entries_addEntry: "set (entries k' (addEntry k v m)) = (if k' = k then insert v (set (entries k m)) else set (entries k' m))"
  by (auto simp: entries_def addEntry_def AList.update_conv')

lemma entries_dropEntry: "set (entries k' (dropEntry k v m)) = (if k' = k then set (entries k m) - {v} else set (entries k' m))"
  by (auto simp: entries_def dropEntry_def Let_def AList.update_conv' AList.delete_conv' removeAll_filter_not_eq filter_empty_conv split: option.split)

lemma entries_start: "entries k' (if map_of m k = None then AList.update k [] m else m) = entries k' m"
  by (auto simp: entries_def AList.update_conv')

lemma entries_delete: "entries k' (AList.delete k m) = (if k' = k then [] else entries k' m)"
  by (auto simp: entries_def AList.delete_conv')

text \<open>Distinct keys, no empty and no repeating entry.\<close>

definition tidy :: "('k \<times> 'v list) list \<Rightarrow> bool" where
  "tidy m = (distinct (map fst m) \<and> (\<forall>(k, xs) \<in> set m. distinct xs \<and> xs \<noteq> []))"

lemma tidy_update: "tidy m \<Longrightarrow> distinct xs \<Longrightarrow> xs \<noteq> [] \<Longrightarrow> tidy (AList.update k xs m)"
proof -
  have "set (AList.update k xs m) \<subseteq> insert (k, xs) (set m)" by (induction m) auto
  then show "tidy m \<Longrightarrow> distinct xs \<Longrightarrow> xs \<noteq> [] \<Longrightarrow> tidy (AList.update k xs m)"
    by (auto simp: tidy_def AList.distinct_update)
qed

lemma tidy_delete: "tidy m \<Longrightarrow> tidy (AList.delete k m)"
proof -
  have "set (AList.delete k m) \<subseteq> set m" by (auto simp: AList.delete_eq)
  then show "tidy m \<Longrightarrow> tidy (AList.delete k m)" by (auto simp: tidy_def AList.distinct_delete)
qed

lemma tidy_entries: "tidy m \<Longrightarrow> distinct (entries k m)"
  by (auto simp: tidy_def entries_def split: option.split dest: map_of_SomeD)

lemma tidy_addEntry: "tidy m \<Longrightarrow> tidy (addEntry k v m)"
  unfolding addEntry_def by (rule tidy_update) (auto simp: tidy_entries List.insert_def)

lemma tidy_dropEntry: "tidy m \<Longrightarrow> tidy (dropEntry k v m)"
  using tidy_entries [of m k] by (auto simp: dropEntry_def Let_def entries_def tidy_delete distinct_removeAll intro!: tidy_update split: option.split)

text \<open>The relation the two maps represent, and when they represent the same one.\<close>

definition holdsSub :: "(nat \<times> string list) list \<Rightarrow> nat \<Rightarrow> string set" where
  "holdsSub bySub sub = set (entries sub bySub)"

definition mirrored :: "(string \<times> nat list) list \<times> (nat \<times> string list) list \<Rightarrow> bool" where
  "mirrored = (\<lambda>(byName, bySub). tidy byName \<and> tidy bySub \<and>
     (\<forall>name sub. sub \<in> set (entries name byName) \<longleftrightarrow> name \<in> holdsSub bySub sub))"

lemma subscribeIn_loop: "names \<noteq> [] \<Longrightarrow> subscribeIn sub names m = subscribeLoop sub names m"
proof (cases m; cases names)
  fix byName bySub name rest
  assume m: "m = (byName, bySub)" and names: "names = name # rest"
  have "addEntry sub name (if map_of bySub sub = None then AList.update sub [] bySub else bySub) = addEntry sub name bySub"
    by (simp add: addEntry_def entries_start [unfolded if_distrib] entries_def AList.update_conv')
  then show ?thesis by (simp add: subscribeIn_def m names)
qed simp

lemma subscribeLoop_refines:
  assumes "mirrored m" "subscribeLoop sub names m = (counts, m')"
  shows "mirrored m' \<and> length counts = length names \<and>
    (\<forall>s. holdsSub (snd m') s = (if s = sub then set names else {}) \<union> holdsSub (snd m) s)"
  using assms
proof (induction names arbitrary: m counts)
  case (Cons name names)
  obtain byName bySub where m: "m = (byName, bySub)" by fastforce
  let ?n = "addEntry name sub byName" and ?s = "addEntry sub name bySub"
  obtain cs where r: "subscribeLoop sub names (?n, ?s) = (cs, m')" "counts = length (entries sub ?s) # cs"
    using Cons.prems(2) by (auto simp: m Let_def split: prod.splits)
  have "mirrored (?n, ?s)"
    using Cons.prems(1) by (auto simp: m mirrored_def tidy_addEntry entries_addEntry holdsSub_def)
  from Cons.IH [OF this r(1)] show ?case
    by (auto simp: m r(2) holdsSub_def entries_addEntry)
next
  case Nil
  then show ?case by (cases m) auto
qed

lemma unsubscribeLoop_refines:
  assumes "mirrored m" "unsubscribeLoop sub names m = (counts, m')"
  shows "mirrored m' \<and> length counts = length names \<and>
    (\<forall>s. holdsSub (snd m') s = holdsSub (snd m) s - (if s = sub then set names else {}))"
  using assms
proof (induction names arbitrary: m counts)
  case (Cons name names)
  obtain byName bySub where m: "m = (byName, bySub)" by fastforce
  let ?n = "dropEntry name sub byName" and ?s = "dropEntry sub name bySub"
  obtain cs where r: "unsubscribeLoop sub names (?n, ?s) = (cs, m')" "counts = length (entries sub ?s) # cs"
    using Cons.prems(2) by (auto simp: m Let_def split: prod.splits)
  have "mirrored (?n, ?s)"
    using Cons.prems(1) by (auto simp: m mirrored_def tidy_dropEntry entries_dropEntry holdsSub_def)
  from Cons.IH [OF this r(1)] show ?case
    by (auto simp: m r(2) holdsSub_def entries_dropEntry)
next
  case Nil
  then show ?case by (cases m) auto
qed

lemma fold_dropEntry:
  "set (entries k (fold (\<lambda>name. dropEntry name sub) names m)) = set (entries k m) - (if k \<in> set names then {sub} else {})"
  "tidy m \<Longrightarrow> tidy (fold (\<lambda>name. dropEntry name sub) names m)"
  by (induction names arbitrary: m) (auto simp: entries_dropEntry tidy_dropEntry)

lemma removeIn_refines:
  assumes "mirrored m"
  shows "mirrored (removeIn sub m) \<and> (\<forall>s. holdsSub (snd (removeIn sub m)) s = (if s = sub then {} else holdsSub (snd m) s))"
proof -
  obtain byName bySub where m: "m = (byName, bySub)" by fastforce
  show ?thesis
  proof (cases "map_of bySub sub")
    case None
    then show ?thesis using assms by (auto simp: m removeIn_def holdsSub_def entries_def)
  next
    case (Some names)
    then have "names = entries sub bySub" by (simp add: entries_def)
    then show ?thesis using assms Some
      by (auto simp: m removeIn_def mirrored_def holdsSub_def fold_dropEntry tidy_delete entries_delete)
  qed
qed

definition hub_ok :: "Hub \<Rightarrow> bool" where
  "hub_ok h = (mirrored (subscriptions h, subscribers h) \<and> mirrored (patterns h, subPatterns h))"

definition channelsOf :: "Hub \<Rightarrow> nat \<Rightarrow> string set" where
  "channelsOf h = holdsSub (subscribers h)"

definition patternsOf :: "Hub \<Rightarrow> nat \<Rightarrow> string set" where
  "patternsOf h = holdsSub (subPatterns h)"

lemmas hub_defs = hub_ok_def channelsOf_def patternsOf_def onChannels_def onPatterns_def

lemma Subscribe_refines:
  assumes "hub_ok h" "channels \<noteq> []" "Subscribe sub channels h = (counts, h')"
  shows "hub_ok h' \<and> length counts = length channels \<and> patternsOf h' = patternsOf h \<and>
    (\<forall>s. channelsOf h' s = (if s = sub then set channels else {}) \<union> channelsOf h s)"
proof -
  obtain cs m where r: "subscribeLoop sub channels (subscriptions h, subscribers h) = (cs, m)" by (metis surj_pair)
  with assms subscribeLoop_refines [OF _ r] show ?thesis
    by (cases m) (auto simp: Subscribe_def subscribeIn_loop hub_defs)
qed

lemma PSubscribe_refines:
  assumes "hub_ok h" "pats \<noteq> []" "PSubscribe sub pats h = (counts, h')"
  shows "hub_ok h' \<and> length counts = length pats \<and> channelsOf h' = channelsOf h \<and>
    (\<forall>s. patternsOf h' s = (if s = sub then set pats else {}) \<union> patternsOf h s)"
proof -
  obtain cs m where r: "subscribeLoop sub pats (patterns h, subPatterns h) = (cs, m)" by (metis surj_pair)
  with assms subscribeLoop_refines [OF _ r] show ?thesis
    by (cases m) (auto simp: PSubscribe_def subscribeIn_loop hub_defs)
qed

lemma Unsubscribe_refines:
  assumes "hub_ok h" "Unsubscribe sub channels h = (counts, h')"
  shows "hub_ok h' \<and> (channels \<noteq> [] \<longrightarrow> length counts = length channels) \<and> patternsOf h' = patternsOf h \<and>
    (\<forall>s. channelsOf h' s = channelsOf h s - (if s = sub then if channels = [] then UNIV else set channels else {}))"
proof -
  let ?n = "if channels = [] then entries sub (subscribers h) else channels"
  obtain cs m where r: "unsubscribeLoop sub ?n (subscriptions h, subscribers h) = (cs, m)" by (metis surj_pair)
  with assms unsubscribeLoop_refines [OF _ r] show ?thesis
    by (cases m) (auto simp: Unsubscribe_def unsubscribeIn_def hub_defs holdsSub_def split: if_splits)
qed

lemma PUnsubscribe_refines:
  assumes "hub_ok h" "PUnsubscribe sub pats h = (counts, h')"
  shows "hub_ok h' \<and> (pats \<noteq> [] \<longrightarrow> length counts = length pats) \<and> channelsOf h' = channelsOf h \<and>
    (\<forall>s. patternsOf h' s = patternsOf h s - (if s = sub then if pats = [] then UNIV else set pats else {}))"
proof -
  let ?n = "if pats = [] then entries sub (subPatterns h) else pats"
  obtain cs m where r: "unsubscribeLoop sub ?n (patterns h, subPatterns h) = (cs, m)" by (metis surj_pair)
  with assms unsubscribeLoop_refines [OF _ r] show ?thesis
    by (cases m) (auto simp: PUnsubscribe_def unsubscribeIn_def hub_defs holdsSub_def split: if_splits)
qed

lemma RemoveSubscriber_refines:
  assumes "hub_ok h"
  shows "hub_ok (RemoveSubscriber sub h) \<and> channelsOf (RemoveSubscriber sub h) = (channelsOf h)(sub := {}) \<and>
    patternsOf (RemoveSubscriber sub h) = (patternsOf h)(sub := {})"
  using assms removeIn_refines [of "(subscriptions h, subscribers h)" sub] removeIn_refines [of "(patterns h, subPatterns h)" sub]
  by (auto simp: RemoveSubscriber_def hub_defs fun_eq_iff split: prod.splits)

lemma GetSubscriptionCount_card:
  "hub_ok h \<Longrightarrow> GetSubscriptionCount sub h = (card (channelsOf h sub), card (patternsOf h sub))"
  by (auto simp: GetSubscriptionCount_def hub_defs mirrored_def holdsSub_def tidy_entries distinct_card)

section \<open>Histories of the hub\<close>

inductive hub_step :: "Hub \<Rightarrow> Hub \<Rightarrow> bool" where
  hub_subscribe: "HandleSubscribe channels (h, c) = (vs, h', c') \<Longrightarrow> hub_step h h'"
| hub_unsubscribe: "HandleUnsubscribe channels (h, c) = (vs, h', c') \<Longrightarrow> hub_step h h'"
| hub_psubscribe: "HandlePSubscribe pats (h, c) = (vs, h', c') \<Longrightarrow> hub_step h h'"
| hub_punsubscribe: "HandlePUnsubscribe pats (h, c) = (vs, h', c') \<Longrightarrow> hub_step h h'"
| hub_remove: "hub_step h (RemoveSubscriber sub h)"

inductive hub_reaches :: "Hub \<Rightarrow> bool" where
  hub_start: "hub_reaches NewHub"
| hub_next: "hub_reaches h \<Longrightarrow> hub_step h h' \<Longrightarrow> hub_reaches h'"

lemma hub_ok_step: "hub_step h h' \<Longrightarrow> hub_ok h \<Longrightarrow> hub_ok h'"
proof (induction rule: hub_step.induct)
  case (hub_subscribe channels h c vs h' c')
  then show ?case using Subscribe_refines [of h channels "ID c"]
    by (cases "Subscribe (ID (EnterPubSubMode c)) channels h") (auto simp: HandleSubscribe_def Let_def EnterPubSubMode_def split: if_splits)
next
  case (hub_psubscribe pats h c vs h' c')
  then show ?case using PSubscribe_refines [of h pats "ID c"]
    by (cases "PSubscribe (ID (EnterPubSubMode c)) pats h") (auto simp: HandlePSubscribe_def Let_def EnterPubSubMode_def split: if_splits)
next
  case (hub_unsubscribe channels h c vs h' c')
  then show ?case using Unsubscribe_refines [of h "ID c"]
    by (auto simp: HandleUnsubscribe_def Let_def split: prod.splits if_splits)
next
  case (hub_punsubscribe pats h c vs h' c')
  then show ?case using PUnsubscribe_refines [of h "ID c"]
    by (auto simp: HandlePUnsubscribe_def Let_def split: prod.splits if_splits)
qed (simp add: RemoveSubscriber_refines)

lemma hub_ok_NewHub: "hub_ok NewHub"
  by (simp add: NewHub_def hub_ok_def mirrored_def tidy_def holdsSub_def entries_def)

lemma hub_ok_reaches: "hub_reaches h \<Longrightarrow> hub_ok h"
  by (induction rule: hub_reaches.induct) (simp_all add: hub_ok_NewHub hub_ok_step)

section \<open>What is delivered\<close>

lemma quotedRest_quoted: "CHR 0x22 \<notin> set s \<Longrightarrow> quotedRest (s @ CHR 0x22 # r) = (s, r)"
  by (induction s) (auto simp: quotedRest_def)

lemma base64_no_quote: "CHR 0x22 \<notin> set (EncodeToString s)"
proof
  assume "CHR 0x22 \<in> set (EncodeToString s)"
  from EncodeToString_chars [OF this] obtain n where n: "n < 64" "b64_char n = CHR 0x22" by auto
  have "b64_char n \<in> set b64_alphabet" using n(1) by (simp add: b64_char_def b64_alphabet_length)
  moreover have "CHR 0x22 \<notin> set b64_alphabet" by (simp add: b64_alphabet_def)
  ultimately show False using n(2) by simp
qed

lemma unmarshal_marshal:
  "CHR 0x22 \<notin> set c \<Longrightarrow> CHR 0x22 \<notin> set m \<Longrightarrow> unmarshalPayload (marshalPayload c m) = Some (c, m)"
  by (simp add: unmarshalPayload_def marshalPayload_def jsonString_def stripPrefix_def quotedRest_quoted)

lemma onNotification_broadcast:
  "onNotification broadcastChannel (broadcastPayload channel message) h = deliverToChannel channel message h @ deliverToPatterns channel message h"
  by (simp add: onNotification_def broadcastPayload_def DecodeString_EncodeToString unmarshal_marshal base64_no_quote decoded_def)

lemma sum_length_concat: "sum_list (map (\<lambda>(p, xs). if P p then length xs else 0) m) = length (concat (map (\<lambda>(p, xs). if P p then map (f p) xs else []) m))"
  by (induction m) auto

lemma countSubscribers_length:
  "countSubscribers channel h = length (deliverToChannel channel body h @ deliverToPatterns channel body h)"
  unfolding countSubscribers_def deliverToChannel_def deliverToPatterns_def
    sum_length_concat [of "\<lambda>p. matchPattern p channel" _ "\<lambda>pattern sub. (sub, ''pmessage'', pattern @ [NUL] @ channel, body)"]
  by simp

lemma tidy_iff:
  assumes "tidy m"
  shows "s \<in> set (entries k m) \<longleftrightarrow> (\<exists>xs. (k, xs) \<in> set m \<and> s \<in> set xs)"
proof (cases "map_of m k")
  case None
  then have "k \<notin> fst ` set m" by (simp add: map_of_eq_None_iff)
  with None show ?thesis by (force simp: entries_def)
next
  case (Some ys)
  have "distinct (map fst m)" using assms by (simp add: tidy_def)
  with Some have "(k, xs) \<in> set m \<longleftrightarrow> xs = ys" for xs by (metis map_of_eq_Some_iff option.inject)
  with Some show ?thesis by (simp add: entries_def)
qed

text \<open>One element per subscription of a matching name.\<close>

lemma deliveries:
  assumes "mirrored (pats, subs)"
  shows "set (concat (map (\<lambda>(p, xs). if P p then map (f p) xs else []) pats)) = {f p s | p s. p \<in> holdsSub subs s \<and> P p}"
proof -
  have "(\<exists>xs. (p, xs) \<in> set pats \<and> s \<in> set xs) \<longleftrightarrow> p \<in> holdsSub subs s" for p s
    using assms tidy_iff [of pats s p] by (simp add: mirrored_def)
  moreover have "x \<in> set (concat (map (\<lambda>(p, xs). if P p then map (f p) xs else []) pats)) \<longleftrightarrow>
      (\<exists>p s. x = f p s \<and> P p \<and> (\<exists>xs. (p, xs) \<in> set pats \<and> s \<in> set xs))" for x
    by (induction pats) auto
  ultimately show ?thesis by blast
qed

lemma distinct_deliveries:
  assumes "tidy m" "\<And>p q s t. f p s = f q t \<Longrightarrow> p = q \<and> s = t"
  shows "distinct (concat (map (\<lambda>(p, xs). if P p then map (f p) xs else []) m))"
  using assms(1)
proof (induction m)
  case (Cons a m)
  obtain p xs where a: "a = (p, xs)" by fastforce
  have t: "tidy m" "distinct xs" "p \<notin> fst ` set m" using Cons.prems by (auto simp: tidy_def a)
  have "distinct (map (f p) xs)" using t(2) assms(2) by (auto simp: distinct_map inj_on_def)
  moreover define rest where "rest = concat (map (\<lambda>(p, xs). if P p then map (f p) xs else []) m)"
  moreover have "f p s \<notin> set rest" for s
    unfolding rest_def using t(3) assms(2) by (force split: if_splits)
  then have "set (map (f p) xs) \<inter> set rest = {}" by auto
  ultimately show ?case using Cons.IH [OF t(1)] by (simp add: a)
qed simp

section \<open>Properties\<close>

text \<open>
  C12.  Subscriptions.  In every hub reached by subscribing, unsubscribing and
  closing connections, both maps hold the same subscriptions; SUBSCRIBE adds
  exactly the given channels for that client and puts it into pub/sub mode;
  UNSUBSCRIBE without arguments removes exactly all of its channels, and the client leaves the mode
  if it has no pattern either; a closed connection leaves nothing behind.
\<close>

theorem hub_refines_relation:
  assumes "hub_reaches h"
  shows "(\<forall>name s. s \<in> set (entries name (subscriptions h)) \<longleftrightarrow> name \<in> channelsOf h s) \<and>
    (\<forall>name s. s \<in> set (entries name (patterns h)) \<longleftrightarrow> name \<in> patternsOf h s) \<and>
    (HandleSubscribe channels (h, c) = (vs, h', c') \<and> channels \<noteq> [] \<longrightarrow>
       channelsOf h' = (channelsOf h)(ID c := channelsOf h (ID c) \<union> set channels) \<and> patternsOf h' = patternsOf h \<and>
       inPubSubMode c' \<and> length vs = length channels) \<and>
    (HandleUnsubscribe [] (h, c) = (vs, h', c') \<longrightarrow>
       channelsOf h' = (channelsOf h)(ID c := {}) \<and> patternsOf h' = patternsOf h \<and>
       (patternsOf h (ID c) = {} \<longrightarrow> \<not> inPubSubMode c')) \<and>
    channelsOf (RemoveSubscriber s h) = (channelsOf h)(s := {}) \<and> patternsOf (RemoveSubscriber s h) = (patternsOf h)(s := {})"
proof -
  have ok': "hub_ok h" using assms by (rule hub_ok_reaches)
  have sub: "channelsOf h' = (channelsOf h)(ID c := channelsOf h (ID c) \<union> set channels) \<and> patternsOf h' = patternsOf h \<and>
       inPubSubMode c' \<and> length vs = length channels" if "HandleSubscribe channels (h, c) = (vs, h', c')" "channels \<noteq> []"
    using that Subscribe_refines [OF ok', of channels "ID c"]
    by (cases "Subscribe (ID c) channels h") (auto simp: HandleSubscribe_def Let_def EnterPubSubMode_def fun_eq_iff)
  have unsub: "channelsOf h' = (channelsOf h)(ID c := {}) \<and> patternsOf h' = patternsOf h \<and>
       (patternsOf h (ID c) = {} \<longrightarrow> \<not> inPubSubMode c')" if hu: "HandleUnsubscribe [] (h, c) = (vs, h', c')"
  proof -
    obtain counts where u: "Unsubscribe (ID c) (GetSubscribedChannels (ID c) h) h = (counts, h')"
      using hu by (auto simp: HandleUnsubscribe_def Let_def split: prod.splits)
    note r = Unsubscribe_refines [OF ok' u]
    have ch: "channelsOf h' = (channelsOf h)(ID c := {})"
      using r by (auto simp: fun_eq_iff GetSubscribedChannels_def channelsOf_def holdsSub_def split: if_splits)
    with r GetSubscriptionCount_card [of h' "ID c"] hu u show ?thesis
      by (auto simp: HandleUnsubscribe_def Let_def ExitPubSubMode_def)
  qed
  show ?thesis
    using ok' sub unsub RemoveSubscriber_refines [OF ok', of s] by (auto simp: hub_defs mirrored_def)
qed

theorem hub_refines_relation_witness:
  "let c = NewClientState 7 [] 0; (vs, h, c') = HandleSubscribe [''a'', ''b''] (NewHub, c)
   in vs = [BuildSubscribeResponse ''a'' 1, BuildSubscribeResponse ''b'' 2] \<and> channelsOf h 7 = {''a'', ''b''} \<and> inPubSubMode c' \<and>
      channelsOf (RemoveSubscriber 7 h) 7 = {}"
proof -
  let ?c = "NewClientState 7 [] 0"
  obtain vs h c' where e: "HandleSubscribe [''a'', ''b''] (NewHub, ?c) = (vs, h, c')" by (metis surj_pair)
  have "channelsOf NewHub 7 = {}" by (simp add: channelsOf_def NewHub_def holdsSub_def entries_def)
  moreover have "ID ?c = 7" by (simp add: NewClientState_def)
  moreover have "fst (HandleSubscribe [''a'', ''b''] (NewHub, ?c)) = [BuildSubscribeResponse ''a'' 1, BuildSubscribeResponse ''b'' 2]"
    by code_simp
  ultimately show ?thesis
    using e hub_refines_relation [OF hub_start, of "[''a'', ''b'']" ?c vs h c']
      hub_refines_relation [OF hub_next [OF hub_start hub_subscribe [OF e]], of "[]" ?c vs h c' 7]
    by simp
qed

text \<open>
  C11.  Publishing.  The payload that PUBLISH sends through PostgreSQL is read back by every listening
  instance as the same channel and message, whatever bytes they are.  Then each
  subscriber of the channel gets the message once, and once more for each
  of its patterns that matches, and nobody else gets anything; PUBLISH answers the number of
  these deliveries on its own instance.
\<close>

theorem publish_delivers:
  assumes "hub_reaches h" "Publish None channel message h = Inr (n, body)"
  shows "distinct (onNotification broadcastChannel body h) \<and> n = length (onNotification broadcastChannel body h) \<and>
    set (onNotification broadcastChannel body h) =
      {(s, ''message'', channel, message) | s. channel \<in> channelsOf h s} \<union>
      {(s, ''pmessage'', p @ [NUL] @ channel, message) | s p. p \<in> patternsOf h s \<and> globMatch p channel}"
proof -
  have ok': "hub_ok h" using assms(1) by (rule hub_ok_reaches)
  have n: "n = countSubscribers channel h" and body: "body = broadcastPayload channel message"
    using assms(2) by (auto simp: Publish_def)
  have L: "onNotification broadcastChannel body h = deliverToChannel channel message h @ deliverToPatterns channel message h"
    unfolding body by (rule onNotification_broadcast)
  have "set (deliverToChannel channel message h) = {(s, ''message'', channel, message) | s. channel \<in> channelsOf h s}"
    using ok' by (auto simp: deliverToChannel_def hub_defs mirrored_def)
  moreover have "set (deliverToPatterns channel message h) =
      {(s, ''pmessage'', p @ [NUL] @ channel, message) | s p. p \<in> patternsOf h s \<and> globMatch p channel}"
    using ok' deliveries [of "patterns h" "subPatterns h" "\<lambda>p. globMatch p channel" "\<lambda>p s. (s, ''pmessage'', p @ [NUL] @ channel, message)"]
    by (auto simp: deliverToPatterns_def matchPattern_def hub_defs)
  moreover have "distinct (deliverToChannel channel message h)"
    using ok' by (auto simp: deliverToChannel_def hub_defs mirrored_def distinct_map inj_on_def tidy_entries)
  moreover have "distinct (deliverToPatterns channel message h)"
    using ok' unfolding deliverToPatterns_def by (intro distinct_deliveries) (auto simp: hub_defs mirrored_def)
  ultimately show ?thesis
    unfolding L n by (auto simp: countSubscribers_length [of channel h message])
qed

theorem publish_delivers_witness:
  "let (vs, h, c) = HandlePSubscribe [''news.*''] (NewHub, NewClientState 7 [] 0)
   in case Publish None ''news.x'' ''hi'' h of Inl _ \<Rightarrow> False
      | Inr (n, body) \<Rightarrow> (7, ''pmessage'', ''news.*'' @ [NUL] @ ''news.x'', ''hi'') \<in> set (onNotification broadcastChannel body h) \<and> 0 < n"
proof -
  obtain vs h c where e: "HandlePSubscribe [''news.*''] (NewHub, NewClientState 7 [] 0) = (vs, h, c)" by (metis surj_pair)
  have r: "hub_reaches h" by (rule hub_next [OF hub_start hub_psubscribe [OF e]])
  obtain n body where p: "Publish None ''news.x'' ''hi'' h = Inr (n, body)" by (simp add: Publish_def)
  have "''news.*'' \<in> patternsOf (fst (snd (HandlePSubscribe [''news.*''] (NewHub, NewClientState 7 [] 0)))) 7" by code_simp
  then have "''news.*'' \<in> patternsOf h 7" by (simp add: e)
  moreover have "globMatch ''news.*'' ''news.x''" by code_simp
  ultimately have "(7, ''pmessage'', ''news.*'' @ [NUL] @ ''news.x'', ''hi'') \<in> set (onNotification broadcastChannel body h)"
    using publish_delivers [OF r p] by blast
  with publish_delivers [OF r p] e p show ?thesis by (cases "onNotification broadcastChannel body h") auto
qed

text \<open>
  The listener.  Through any sequence of events its wait stays between 50 ms and 2 s and its
  reconnect backoff between 100 ms and 30 s, it never waits on a connection it does not have,
  and once the context has ended nothing happens any more.
\<close>

definition listener_ok :: "listener \<Rightarrow> bool" where
  "listener_ok l = (minTimeout \<le> currentTimeout l \<and> currentTimeout l \<le> maxTimeout \<and>
     minReconnectBackoff \<le> reconnectBackoff l \<and> reconnectBackoff l \<le> maxReconnectBackoff)"

theorem listener_backoff_bounded:
  "listener_ok newListener \<and>
   (listener_ok l \<and> listenStep h ev l = Some (ds, l') \<longrightarrow> listener_ok l' \<and> (ds \<noteq> [] \<longrightarrow> connected l \<and> (\<exists>ch body. ev = Notified ch body)) \<and>
      (ev = Reconnected True \<longrightarrow> connected l' \<and> currentTimeout l' = minTimeout \<and> reconnectBackoff l' = minReconnectBackoff)) \<and>
   (stopped l \<longrightarrow> listenStep h ev l = None)"
  by (auto simp: listener_ok_def newListener_def listenStep_def minTimeout_def maxTimeout_def minReconnectBackoff_def maxReconnectBackoff_def
      split: hub_event.splits if_splits)

end
