(* ===== verification/Server.thy ===== *)
theory Server
  imports Transactions Hub
begin

text \<open>
  The connection loop of \<^verbatim>\<open>src/internal/server/server.go\<close> and its trace log.
  \<open>serveCommand\<close> is the body of the loop of \<^verbatim>\<open>handleConnection\<close> for one command;
  \<open>serve\<close> is the loop over the bytes a client sends.  The bytes a client sends
  while a blocking command waits are only read afterwards, and a lost connection ends the
  context of the command: that is \<open>contextEnds\<close> of the session.  Listening,
  accepting and draining connections are left out.
\<close>

section \<open>One command\<close>

record 'st connection =
  client :: ClientState
  authenticated :: bool
  hub :: "Hub option"
  world :: "'st world"

definition newConnection :: "Handler \<Rightarrow> nat \<Rightarrow> string \<Rightarrow> time \<Rightarrow> Hub option \<Rightarrow> 'st world \<Rightarrow> 'st connection" where
  "newConnection h id' addr now hb w =
     \<lparr>client = NewClientState id' addr now, authenticated = \<not> RequiresAuth h, hub = hb, world = w\<rparr>"

type_synonym 'st answered = "(string + Value list) \<times> 'st connection"

text \<open>A reply that needs no storage, and one of \<^verbatim>\<open>Handle\<close> or \<^verbatim>\<open>HandleExec\<close> followed by what the loop does with it.\<close>

definition answers :: "Value list \<Rightarrow> 'st connection \<Rightarrow> 'st answered option" where
  "answers vs c = Some (Inr vs, c)"

definition viaHandler :: "(Value \<Rightarrow> 'st connection \<Rightarrow> 'st connection) \<Rightarrow> 'st world handled option \<Rightarrow> 'st connection \<Rightarrow> 'st answered option" where
  "viaHandler after x c =
     map_option (\<lambda>(r, w). case r of
        Inl p \<Rightarrow> (Inl p, c\<lparr>world := w\<rparr>)
      | Inr v \<Rightarrow> (Inr [v], after v (c\<lparr>world := w\<rparr>))) x"

definition errNoAuth :: Value where
  "errNoAuth = ErrCustom ''NOAUTH Authentication required.''"

definition errNoPubSub :: Value where
  "errNoPubSub = Err ''pub/sub is not enabled''"

definition errPubSubMode :: Value where
  "errPubSubMode = Err ''only (P)SUBSCRIBE / (P)UNSUBSCRIBE / PING / QUIT allowed in this context''"

definition onHub :: "(Hub \<times> ClientState \<Rightarrow> Value list \<times> Hub \<times> ClientState) \<Rightarrow> 'st connection \<Rightarrow> 'st answered option" where
  "onHub f c =
     (case hub c of
        None \<Rightarrow> answers [errNoPubSub] c
      | Some hb \<Rightarrow> (case f (hb, client c) of (vs, hb, cl) \<Rightarrow> answers vs (c\<lparr>hub := Some hb, client := cl\<rparr>)))"

definition ctxOf :: "ClientState \<Rightarrow> ctx" where
  "ctxOf cl = \<lparr>resp3 = UseRESP3 cl, noBlock = False\<rparr>"

definition resetConnection :: "Handler \<Rightarrow> 'st connection \<Rightarrow> 'st connection" where
  "resetConnection h c =
     (let cl = (if inTransaction (client c) then snd (DiscardTransaction (client c)) else client c);
          cl = SetName [] (SetProtocolVersion 2 cl)
      in c\<lparr>client := cl, hub := map_option (RemoveSubscriber (ID cl)) (hub c),
           authenticated := (if RequiresAuth h then False else authenticated c)\<rparr>)"

text \<open>\<open>publishFails\<close> is the error of the notification that PUBLISH sends, if any.\<close>

definition serveCommand ::
  "Handler \<Rightarrow> ('s :: {linorder, plus, zero}) floats \<Rightarrow> 's lua \<Rightarrow> ('st, 's) backend \<Rightarrow> string option \<Rightarrow> Value
     \<Rightarrow> 'st connection \<Rightarrow> 'st answered option" where
  "serveCommand h fl lua be publishFails cmd c =
     (let cl = client c; handle = Handle h fl lua be (ctxOf cl) cmd (world c); keep = (\<lambda>_ c. c) in
      if vType cmd \<noteq> Array \<or> vArray cmd = [] then viaHandler keep handle c
      else let cmdName = ToUpper (arg (vArray cmd) 0); args = bulks (tl (vArray cmd)) in
      if cmdName = ''AUTH''
      then viaHandler (\<lambda>v c. if vType v = SimpleString \<and> vStr v = ''OK'' then c\<lparr>authenticated := True\<rparr> else c) handle c
      else if cmdName = ''HELLO''
      then let (hasAuth, authSuccess) = CheckHelloAuth h cmd; protoVersion = GetHelloProtocolVersion cmd;
               cl = SetProtocolVersion protoVersion cl
           in viaHandler (\<lambda>v c. if hasAuth \<and> authSuccess \<and> vType v \<noteq> Error then c\<lparr>authenticated := True\<rparr> else c)
                (Handle h fl lua be \<lparr>resp3 = (protoVersion \<ge> 3), noBlock = False\<rparr> cmd (world c)) (c\<lparr>client := cl\<rparr>)
      else if \<not> authenticated c
      then (if cmdName \<in> {''PING'', ''QUIT'', ''COMMAND'', ''HELLO''} then viaHandler keep handle c else answers [errNoAuth] c)
      else if cmdName = ''SUBSCRIBE'' then onHub (HandleSubscribe args) c
      else if cmdName = ''UNSUBSCRIBE'' then onHub (HandleUnsubscribe args) c
      else if cmdName = ''PSUBSCRIBE'' then onHub (HandlePSubscribe args) c
      else if cmdName = ''PUNSUBSCRIBE'' then onHub (HandlePUnsubscribe args) c
      else if cmdName = ''PUBLISH''
      then (case hub c of
              None \<Rightarrow> answers [errNoPubSub] c
            | Some hb \<Rightarrow>
                (case args of
                   channel # message # _ \<Rightarrow> answers [HandlePublish publishFails channel message hb] c
                 | _ \<Rightarrow> answers [ErrWrongArgs ''publish''] c))
      else if inPubSubMode cl \<and> \<not> UseRESP3 cl
      then (if cmdName = ''PING'' then answers [Arr [Bulk ''pong'', Bulk (case args of m # _ \<Rightarrow> m | [] \<Rightarrow> [])]] c
            else if cmdName = ''QUIT'' then viaHandler keep handle c
            else answers [errPubSubMode] c)
      else if cmdName = ''RESET'' then answers [SimpleVal ''RESET''] (resetConnection h c)
      else if cmdName = ''MULTI'' then (case HandleMulti cl of (v, cl) \<Rightarrow> answers [v] (c\<lparr>client := cl\<rparr>))
      else if cmdName = ''EXEC''
      then (case HandleExec h fl lua be (ctxOf cl) cl (world c) of (cl', x) \<Rightarrow> viaHandler keep x (c\<lparr>client := cl'\<rparr>))
      else if cmdName = ''DISCARD'' then (case HandleDiscard cl of (v, cl) \<Rightarrow> answers [v] (c\<lparr>client := cl\<rparr>))
      else if inTransaction cl then answers [SimpleVal ''QUEUED''] (c\<lparr>client := QueueCommand cmd cl\<rparr>)
      else if cmdName = ''CLIENT''
      then (case HandleClient fl (clockOf (store be) (snd (world c))) cmd cl of (v, cl) \<Rightarrow> answers [v] (c\<lparr>client := cl\<rparr>))
      else viaHandler keep handle c)"

section \<open>A connection\<close>

text \<open>\<^verbatim>\<open>WriteResponses\<close>: the bytes written, and the error that stops it.\<close>

fun WriteResponses :: "Value list \<Rightarrow> string \<times> string option" where
  "WriteResponses [] = ([], None)"
| "WriteResponses (v # vs) =
     (case WriteValue v of
        (out, Some e) \<Rightarrow> (out, Some e)
      | (out, None) \<Rightarrow> (case WriteResponses vs of (out', e) \<Rightarrow> (out @ out', e)))"

definition closeConnection :: "'st connection \<Rightarrow> 'st connection" where
  "closeConnection c = c\<lparr>hub := map_option (RemoveSubscriber (ID (client c))) (hub c)\<rparr>"

lemma Read_shorter:
  "Read s = Inr (v, r) \<Longrightarrow> length r < length s" "readElems n s = Inr (vs, r) \<Longrightarrow> length r \<le> length s"
proof (induction s and n s arbitrary: v r and vs r rule: Read_readElems.induct)
  case (2 c s)
  then show ?case
    by (auto split: if_splits sum.splits option.splits dest!: readScalar_shorter readArrayLen_shorter) fastforce+
next
  case (4 n s)
  then show ?case by (auto split: sum.splits) fastforce
qed simp_all

text \<open>
  The loop: the bytes sent back, and the state after the connection is closed or the
  process has panicked.  None: a command never returns.
\<close>

function serve ::
  "Handler \<Rightarrow> ('s :: {linorder, plus, zero}) floats \<Rightarrow> 's lua \<Rightarrow> ('st, 's) backend \<Rightarrow> string option \<Rightarrow> string
     \<Rightarrow> 'st connection \<Rightarrow> (string \<times> string option \<times> 'st connection) option" where
  "serve h fl lua be pf input c =
     (case Read input of
        Inl _ \<Rightarrow> Some ([], None, closeConnection c)
      | Inr (cmd, rest) \<Rightarrow>
          (case serveCommand h fl lua be pf cmd c of
             None \<Rightarrow> None
           | Some (Inl p, c) \<Rightarrow> Some ([], Some p, c)
           | Some (Inr vs, c) \<Rightarrow>
               (case WriteResponses vs of
                  (out, Some e) \<Rightarrow> Some (out, None, closeConnection c)
                | (out, None) \<Rightarrow> map_option (\<lambda>(out', p, c). (out @ out', p, c)) (serve h fl lua be pf rest c))))"
  by pat_completeness auto

termination serve
  by (relation "measure (\<lambda>(_, _, _, _, _, input, _). length input)") (auto dest: Read_shorter)

section \<open>The trace log\<close>

definition redacted :: Value where
  "redacted = Bulk ''<redacted>''"

text \<open>The loop of HELLO: the two arguments after the first AUTH token.\<close>

fun redactAfterAuth :: "Value list \<Rightarrow> Value list" where
  "redactAfterAuth [] = []"
| "redactAfterAuth (v # vs) =
     (if ToUpper (vBulk v) = ''AUTH'' then v # map (\<lambda>_. redacted) (take 2 vs) @ drop 2 vs else v # redactAfterAuth vs)"

definition redactSensitiveArgs :: "Value \<Rightarrow> Value" where
  "redactSensitiveArgs cmd =
     (if vType cmd \<noteq> Array \<or> vArray cmd = [] then cmd
      else let cmdName = ToUpper (arg (vArray cmd) 0)
           in if cmdName = ''AUTH''
              then (if length (vArray cmd) < 2 then cmd else Arr (hd (vArray cmd) # map (\<lambda>_. redacted) (tl (vArray cmd))))
              else if cmdName = ''HELLO'' then Arr (hd (vArray cmd) # redactAfterAuth (tl (vArray cmd)))
              else cmd)"

text \<open>
  \<^verbatim>\<open>isBinaryString\<close> on the bytes: in a valid string the rune U+FFFD is the bytes
  EF BF BD, and a control character is a byte below 20 other than tab, LF and CR, the byte
  7F, or C2 followed by 80 to 9F.
\<close>

fun hasControl :: "string \<Rightarrow> bool" where
  "hasControl [] = False"
| "hasControl (c # s) =
     (let n = of_char c :: nat
      in n < 0x20 \<and> n \<notin> {0x09, 0x0A, 0x0D} \<or> n = 0x7F \<or>
         c = CHR 0xC2 \<and> s \<noteq> [] \<and> of_char (hd s) < (0xA0 :: nat) \<or>
         HasPrefix (c # s) [CHR 0xEF, CHR 0xBF, CHR 0xBD] \<or> hasControl s)"

definition isBinaryString :: "string \<Rightarrow> bool" where
  "isBinaryString s = (\<not> ValidString s \<or> hasControl s)"

text \<open>\<^verbatim>\<open>%.1f\<close> of \<open>n / d\<close> for a power of two d: the quotient is exact, so ties go to the even digit.\<close>

definition oneDecimal :: "nat \<Rightarrow> nat \<Rightarrow> string" where
  "oneDecimal n d =
     (let q = 10 * n div d; r = 10 * n mod d; t = (if 2 * r < d \<or> 2 * r = d \<and> even q then q else q + 1)
      in FormatUint (t div 10) @ ''.'' @ FormatUint (t mod 10))"

definition formatTraceSize :: "nat \<Rightarrow> string" where
  "formatTraceSize size' =
     (if size' < 1024 then FormatUint size' @ ''B''
      else if size' < 1048576 then oneDecimal size' 1024 @ ''KB''
      else oneDecimal size' 1048576 @ ''MB'')"

definition formatTraceString :: "string \<Rightarrow> string" where
  "formatTraceString s =
     (if isBinaryString s then ''<binary:'' @ formatTraceSize (length s) @ ''>''
      else if length s > 100 then [CHR 0x22] @ take 100 s @ ''...'' @ [CHR 0x22] @ '' ('' @ formatTraceSize (length s) @ '')''
      else [CHR 0x22] @ s @ [CHR 0x22])"

fun joined :: "string \<Rightarrow> string list \<Rightarrow> string" where
  "joined sep [] = []"
| "joined sep [x] = x"
| "joined sep (x # y # xs) = x @ sep @ joined sep (y # xs)"

fun formatRESPValue :: "Value \<Rightarrow> string" where
  "formatRESPValue (Value t s n b vs m nul) =
     (case t of
        Array \<Rightarrow> ''['' @ joined '', '' (map formatRESPValue vs) @ '']''
      | BulkString \<Rightarrow> formatTraceString b
      | SimpleString \<Rightarrow> ''+'' @ s
      | Error \<Rightarrow> ''-'' @ s
      | Integer \<Rightarrow> '':'' @ FormatInt n
      | NullType \<Rightarrow> ''(nil)''
      | _ \<Rightarrow> formatTraceString b)"

definition administrative :: "string list" where
  "administrative = [''AUTH'', ''FLUSHDB'', ''FLUSHALL'', ''SHUTDOWN'', ''DEBUG'', ''CONFIG'', ''CLUSTER'', ''BGREWRITEAOF'', ''BGSAVE'', ''SAVE'',
     ''SLAVEOF'', ''REPLICAOF'', ''FAILOVER'', ''ACL'', ''SLOWLOG'', ''MIGRATE'', ''RESTORE'', ''DUMP'']"

definition highFrequency :: "string list" where
  "highFrequency = [''GET'', ''SET'', ''MGET'', ''MSET'', ''SETEX'', ''SETNX'', ''GETSET'',
     ''HGET'', ''HSET'', ''HMGET'', ''HMSET'', ''HGETALL'', ''HDEL'', ''HEXISTS'', ''HLEN'', ''HKEYS'', ''HVALS'',
     ''LPUSH'', ''RPUSH'', ''LPOP'', ''RPOP'', ''LRANGE'', ''LLEN'', ''LINDEX'', ''LSET'',
     ''SADD'', ''SREM'', ''SMEMBERS'', ''SISMEMBER'', ''SCARD'', ''SPOP'', ''SRANDMEMBER'',
     ''ZADD'', ''ZREM'', ''ZRANGE'', ''ZRANGEBYSCORE'', ''ZRANK'', ''ZSCORE'', ''ZCARD'', ''ZINCRBY'',
     ''INCR'', ''DECR'', ''INCRBY'', ''DECRBY'', ''INCRBYFLOAT'',
     ''EXPIRE'', ''TTL'', ''PTTL'', ''EXPIREAT'', ''PEXPIRE'', ''PEXPIREAT'', ''PERSIST'',
     ''EXISTS'', ''DEL'', ''TYPE'', ''KEYS'', ''SCAN'', ''HSCAN'', ''SSCAN'', ''ZSCAN'',
     ''PING'', ''ECHO'', ''TIME'', ''DBSIZE'', ''PFADD'', ''PFCOUNT'', ''PFMERGE'']"

definition getCommandLevel :: "string \<Rightarrow> int" where
  "getCommandLevel cmdName =
     (if cmdName \<in> set administrative then 1 else if cmdName \<in> set highFrequency then 3 else 2)"

definition commandName :: "Value \<Rightarrow> string" where
  "commandName cmd = (if vType cmd = Array \<and> vArray cmd \<noteq> [] then ToUpper (arg (vArray cmd) 0) else [])"

definition traceCommand :: "int \<Rightarrow> string \<Rightarrow> Value \<Rightarrow> string option" where
  "traceCommand traceLevel addr cmd =
     (if traceLevel \<le> 0 then None
      else if traceLevel \<ge> getCommandLevel (commandName cmd)
      then Some (''[TRACE] '' @ addr @ '' <- '' @ formatRESPValue (redactSensitiveArgs cmd)) else None)"

definition traceResponse :: "int \<Rightarrow> string \<Rightarrow> Value \<Rightarrow> Value \<Rightarrow> string option" where
  "traceResponse traceLevel addr cmd response =
     (if traceLevel \<le> 0 then None
      else if vType response = Error \<or> traceLevel \<ge> getCommandLevel (commandName cmd)
      then Some (''[TRACE] '' @ addr @ '' -> '' @ formatRESPValue response) else None)"

section \<open>Unauthenticated connections\<close>

lemma Handle_silent:
  assumes "vType cmd \<noteq> Array \<or> vArray cmd = [] \<or> ToUpper (arg (vArray cmd) 0) \<in> {''AUTH'', ''HELLO'', ''PING'', ''QUIT'', ''COMMAND''}"
  shows "\<exists>v. \<forall>w. Handle h fl lua be ctx cmd w = Some (Inr v, w)"
  using assms by (auto simp: Handle_def executeCommand_def returns_def says_def)

lemma auth_OK: "auth h args = v \<Longrightarrow> RequiresAuth h \<Longrightarrow> vType v = SimpleString \<Longrightarrow> password h \<in> set (bulks args)"
  by (auto simp: auth_def CheckAuth_def errWrongPass_def ErrWrongArgs_def split: list.splits if_splits)

lemma helloAuthScan_password: "helloAuthScan h as = (True, True) \<Longrightarrow> password h \<in> set as"
  by (induction h as rule: helloAuthScan.induct) (auto simp: CheckAuth_def Let_def split: if_splits list.splits)

lemma CheckHelloAuth_password: "CheckHelloAuth h cmd = (True, True) \<Longrightarrow> password h \<in> set (bulks (tl (vArray cmd)))"
  by (auto simp: CheckHelloAuth_def Let_def split: if_splits sum.splits dest!: helloAuthScan_password)
    (metis list.sel(2) list.set_sel(2))

text \<open>A step that neither reads nor changes storage and scripts, and leaves the connection unauthenticated.\<close>

lemma unauthenticated_step:
  assumes "RequiresAuth h" "\<not> authenticated c" "password h \<notin> set (bulks (tl (vArray cmd)))"
  shows "\<exists>vs c'. (\<forall>w. serveCommand h fl lua be pf cmd (c\<lparr>world := w\<rparr>) = Some (Inr vs, c'\<lparr>world := w\<rparr>)) \<and>
    \<not> authenticated c' \<and> hub c' = hub c \<and> ID (client c') = ID (client c)"
proof (cases "vType cmd \<noteq> Array \<or> vArray cmd = []")
  case True
  then obtain v where "\<forall>w. Handle h fl lua be (ctxOf (client c)) cmd w = Some (Inr v, w)" using Handle_silent by blast
  with True assms(2) show ?thesis
    by (intro exI [of _ "[v]"] exI [of _ c]) (auto simp: serveCommand_def Let_def viaHandler_def)
next
  case False
  let ?n = "ToUpper (arg (vArray cmd) 0)"
  show ?thesis
  proof (cases "?n \<in> {''AUTH'', ''HELLO'', ''PING'', ''QUIT'', ''COMMAND''}")
    case other: False
    with False assms(2) show ?thesis
      by (intro exI [of _ "[errNoAuth]"] exI [of _ c]) (auto simp: serveCommand_def Let_def answers_def)
  next
    case True
    then have silent: "\<exists>v. \<forall>w. Handle h fl lua be ctx cmd w = Some (Inr v, w)" for ctx using Handle_silent by blast
    show ?thesis
    proof (cases "?n = ''HELLO''")
      case hello: True
      let ?cl = "SetProtocolVersion (GetHelloProtocolVersion cmd) (client c)"
      obtain v where "\<forall>w. Handle h fl lua be \<lparr>resp3 = (GetHelloProtocolVersion cmd \<ge> 3), noBlock = False\<rparr> cmd w = Some (Inr v, w)"
        using silent by blast
      moreover have "CheckHelloAuth h cmd \<noteq> (True, True)" using CheckHelloAuth_password assms(3) by blast
      ultimately show ?thesis using False hello assms(2)
        by (intro exI [of _ "[v]"] exI [of _ "c\<lparr>client := ?cl\<rparr>"])
          (cases "CheckHelloAuth h cmd"; auto simp: serveCommand_def Let_def viaHandler_def SetProtocolVersion_def)
    next
      case no_hello: False
      obtain v where v: "\<forall>w. Handle h fl lua be (ctxOf (client c)) cmd w = Some (Inr v, w)" using silent by blast
      have "\<not> (vType v = SimpleString \<and> vStr v = ''OK'')" if "?n = ''AUTH''"
      proof -
        have "v = auth h (tl (vArray cmd))"
          using v that False by (auto simp: Handle_def executeCommand_def returns_def says_def)
        with auth_OK [of h "tl (vArray cmd)" v] assms(1,3) show ?thesis by auto
      qed
      with v True no_hello False assms(2) show ?thesis
        by (intro exI [of _ "[v]"] exI [of _ c]) (auto simp: serveCommand_def Let_def viaHandler_def)
    qed
  qed
qed

text \<open>The commands a stream of bytes contains.\<close>

function commandsIn :: "string \<Rightarrow> Value list" where
  "commandsIn input = (case Read input of Inl _ \<Rightarrow> [] | Inr (cmd, rest) \<Rightarrow> cmd # commandsIn rest)"
  by pat_completeness auto

termination commandsIn
  by (relation "measure length") (auto dest: Read_shorter)

declare commandsIn.simps [simp del] serve.simps [simp del]

lemma unauthenticated_serve:
  assumes "RequiresAuth h" "\<not> authenticated c" "\<forall>cmd \<in> set (commandsIn input). password h \<notin> set (bulks (tl (vArray cmd)))"
  shows "\<exists>out c'. (\<forall>w. serve h fl lua be pf input (c\<lparr>world := w\<rparr>) = Some (out, None, c'\<lparr>world := w\<rparr>)) \<and>
    \<not> authenticated c' \<and> hub c' = map_option (RemoveSubscriber (ID (client c))) (hub c)"
  using assms(2,3)
proof (induction input arbitrary: c rule: measure_induct_rule [where f = length])
  case (less input)
  have done': "\<exists>out c'. (\<forall>w. Some (x, None, closeConnection (d\<lparr>world := w\<rparr>)) = Some (out, None :: string option, c'\<lparr>world := w\<rparr>)) \<and>
      \<not> authenticated c' \<and> hub c' = map_option (RemoveSubscriber (ID (client c))) (hub c)"
    if "\<not> authenticated d" "hub d = hub c" "ID (client d) = ID (client c)" for d :: "'a connection" and x :: string
    using that by (intro exI [of _ x] exI [of _ "closeConnection d"]) (auto simp: closeConnection_def)
  show ?case
  proof (cases "Read input")
    case (Inl e)
    then show ?thesis using done' [of c "[]"] less.prems by (simp add: serve.simps)
  next
    case (Inr p)
    obtain cmd rest where p: "p = (cmd, rest)" by fastforce
    have cmds: "commandsIn input = cmd # commandsIn rest" using Inr p by (subst commandsIn.simps) simp
    obtain vs d where d: "\<forall>w. serveCommand h fl lua be pf cmd (c\<lparr>world := w\<rparr>) = Some (Inr vs, d\<lparr>world := w\<rparr>)"
      "\<not> authenticated d" "hub d = hub c" "ID (client d) = ID (client c)"
      using unauthenticated_step [OF assms(1) less.prems(1), of cmd fl lua be pf] less.prems(2) cmds by auto
    obtain out e where w: "WriteResponses vs = (out, e)" by fastforce
    show ?thesis
    proof (cases e)
      case (Some x)
      then show ?thesis using done' [OF d(2-4), of out] Inr p w d(1) by (simp add: serve.simps)
    next
      case None
      have "length rest < length input" using Inr p Read_shorter(1) by blast
      from less.IH [OF this d(2)] less.prems(2) cmds obtain out' c'
        where "\<forall>w. serve h fl lua be pf rest (d\<lparr>world := w\<rparr>) = Some (out', None, c'\<lparr>world := w\<rparr>)" "\<not> authenticated c'"
          "hub c' = map_option (RemoveSubscriber (ID (client c))) (hub c)"
        using d(3,4) by auto
      then show ?thesis using Inr p w None d(1)
        by (intro exI [of _ "out @ out'"] exI [of _ c']) (simp add: serve.simps [of _ _ _ _ _ input])
    qed
  qed
qed

section \<open>Replies can be written\<close>

lemma wireOK_True: "wireOK r3 v \<Longrightarrow> wireOK True v"
  by (induction v) (auto simp: list_all_iff)

lemma wireOK_writes:
  "wireOK True v \<Longrightarrow> snd (WriteValue v) = None" "list_all (wireOK True) vs \<Longrightarrow> snd (WriteElems vs) = None"
  by (induction v and vs rule: WriteValue_WriteElems.induct)
    (auto simp: WriteSimpleString_def WriteError_def WriteInteger_def WriteNull_def WriteBulkString_def WriteNullArray_def WriteMap_def
      split: prod.splits option.splits)

lemma WriteResponses_ok: "list_all (wireOK True) vs \<Longrightarrow> snd (WriteResponses vs) = None"
proof (induction vs)
  case (Cons v vs)
  then show ?case using wireOK_writes(1) [of v] by (auto split: prod.splits option.splits)
qed simp

definition proper :: "'st answered option \<Rightarrow> bool" where
  "proper x = (\<forall>vs c. x = Some (Inr vs, c) \<longrightarrow> vs \<noteq> [] \<and> list_all (wireOK True) vs)"

lemma proper_if: "proper x \<Longrightarrow> proper y \<Longrightarrow> proper (if b then x else y)"
  by simp

lemma proper_answers [simp]: "proper (answers vs c) = (vs \<noteq> [] \<and> list_all (wireOK True) vs)"
  by (simp add: proper_def answers_def)

lemma proper_viaHandler: "(\<And>v w. x = Some (Inr v, w) \<Longrightarrow> wireOK True v) \<Longrightarrow> proper (viaHandler after x c)"
  unfolding proper_def viaHandler_def by (cases x; cases "fst (the x)") auto

lemma proper_Handle: "proper (viaHandler after (Handle h fl lua be ctx cmd w) c)"
  by (rule proper_viaHandler) (blast intro: wireOK_True fitsD [OF fits_Handle])

lemma wire_built [wire]:
  "wireOK r3 (BuildSubscribeResponse a n)" "wireOK r3 (BuildUnsubscribeResponse a n)" "wireOK r3 (BuildPSubscribeResponse a n)"
  "wireOK r3 (BuildPUnsubscribeResponse a n)"
  by (simp_all add: BuildSubscribeResponse_def BuildUnsubscribeResponse_def BuildPSubscribeResponse_def BuildPUnsubscribeResponse_def
      buildResponse_def wire)

lemma length_subscribeLoop: "length (fst (subscribeLoop sub names m)) = length names"
proof (induction names arbitrary: m)
  case (Cons name names)
  obtain a b where "m = (a, b)" by fastforce
  with Cons show ?case by (simp add: Let_def split_beta)
next
  case Nil
  then show ?case by (cases m) simp
qed

lemma length_unsubscribeLoop: "length (fst (unsubscribeLoop sub names m)) = length names"
proof (induction names arbitrary: m)
  case (Cons name names)
  obtain a b where "m = (a, b)" by fastforce
  with Cons show ?case by (simp add: Let_def split_beta)
next
  case Nil
  then show ?case by (cases m) simp
qed

lemma length_counts:
  "length (fst (Subscribe sub names hb)) = length names" "length (fst (PSubscribe sub names hb)) = length names"
  "names \<noteq> [] \<Longrightarrow> length (fst (Unsubscribe sub names hb)) = length names" "names \<noteq> [] \<Longrightarrow> length (fst (PUnsubscribe sub names hb)) = length names"
  by (simp_all add: Subscribe_def PSubscribe_def Unsubscribe_def PUnsubscribe_def onChannels_def onPatterns_def subscribeIn_def unsubscribeIn_def
      split_beta length_subscribeLoop length_unsubscribeLoop)

lemma map2_shape [simp]:
  "map2 f xs ys = [] \<longleftrightarrow> xs = [] \<or> ys = []" "(\<And>x y. P (f x y)) \<Longrightarrow> list_all P (map2 f xs ys)"
  by (cases xs; cases ys; simp) (auto simp: list_all_iff)

lemma counts_ne:
  "Subscribe sub names hb = ([], hb') \<Longrightarrow> names = []" "PSubscribe sub names hb = ([], hb') \<Longrightarrow> names = []"
  "Unsubscribe sub names hb = ([], hb') \<Longrightarrow> names = []" "PUnsubscribe sub names hb = ([], hb') \<Longrightarrow> names = []"
  using length_counts(1) [of sub names hb] length_counts(2) [of sub names hb] length_counts(3,4) [of names sub hb] by auto

lemma pubsub_replies:
  "fst (HandleSubscribe names m) \<noteq> [] \<and> list_all (wireOK True) (fst (HandleSubscribe names m))"
  "fst (HandleUnsubscribe names m) \<noteq> [] \<and> list_all (wireOK True) (fst (HandleUnsubscribe names m))"
  "fst (HandlePSubscribe names m) \<noteq> [] \<and> list_all (wireOK True) (fst (HandlePSubscribe names m))"
  "fst (HandlePUnsubscribe names m) \<noteq> [] \<and> list_all (wireOK True) (fst (HandlePUnsubscribe names m))"
  by (cases m; auto simp: HandleSubscribe_def HandleUnsubscribe_def HandlePSubscribe_def HandlePUnsubscribe_def Let_def wire
      dest: counts_ne split: prod.split)+

lemma proper_onHub:
  assumes "\<And>m. fst (f m) \<noteq> [] \<and> list_all (wireOK True) (fst (f m))"
  shows "proper (onHub f c)"
  using assms by (auto simp: onHub_def errNoPubSub_def wire split_beta split: option.split)

lemmas proper_pubsub = pubsub_replies [THEN proper_onHub]

lemma proper_serveCommand: "proper (serveCommand h fl lua be pf cmd c)"
proof -
  have exec': "proper (case HandleExec h fl lua be ctx cl w of (cl', x) \<Rightarrow> viaHandler after x (d cl'))" for ctx cl w after and d :: "ClientState \<Rightarrow> 'a connection"
    using fits_HandleExec [of h fl lua be ctx cl w] by (auto intro!: proper_viaHandler wireOK_True split: prod.split)
  have client': "proper (case HandleClient fl now cmd cl of (v, cl) \<Rightarrow> answers [v] (d cl))" for now cl and d :: "ClientState \<Rightarrow> 'a connection"
    using wire_HandleClient [of True fl now cmd cl] by (auto split: prod.split)
  have multi': "HandleMulti cl = (v, cl') \<Longrightarrow> wireOK True v" "HandleDiscard cl = (v, cl') \<Longrightarrow> wireOK True v" for cl v cl'
    by (auto simp: HandleMulti_def HandleDiscard_def StartTransaction_def DiscardTransaction_def wire split: if_splits)
  show ?thesis
    unfolding serveCommand_def Let_def
    by (intro proper_if)
      (auto simp: proper_Handle proper_pubsub exec' client' wire errNoAuth_def errNoPubSub_def errPubSubMode_def HandlePublish_def
        dest: multi' split: prod.split option.split list.split sum.split)
qed

section \<open>Pipelined commands\<close>

text \<open>The commands one after the other: the replies to each, a panic if there was one, and the state.\<close>

fun runCommands ::
  "Handler \<Rightarrow> ('s :: {linorder, plus, zero}) floats \<Rightarrow> 's lua \<Rightarrow> ('st, 's) backend \<Rightarrow> string option \<Rightarrow> Value list
     \<Rightarrow> 'st connection \<Rightarrow> (Value list list \<times> string option \<times> 'st connection) option" where
  "runCommands h fl lua be pf [] c = Some ([], None, c)"
| "runCommands h fl lua be pf (cmd # cmds) c =
     (case serveCommand h fl lua be pf cmd c of
        None \<Rightarrow> None
      | Some (Inl p, c) \<Rightarrow> Some ([], Some p, c)
      | Some (Inr vs, c) \<Rightarrow> map_option (\<lambda>(rs, p, c). (vs # rs, p, c)) (runCommands h fl lua be pf cmds c))"

lemma serve_runCommands:
  assumes "\<forall>cmd \<in> set cmds. sendable cmd \<and> canon cmd = cmd"
  shows "serve h fl lua be pf (concat (map (\<lambda>cmd. fst (WriteValue cmd)) cmds)) c =
    map_option (\<lambda>(rs, p, c). (concat (map (\<lambda>vs. fst (WriteResponses vs)) rs), p, if p = None then closeConnection c else c))
      (runCommands h fl lua be pf cmds c)"
  using assms
proof (induction cmds arbitrary: c)
  case Nil
  then show ?case by (simp add: serve.simps)
next
  case (Cons cmd cmds)
  have r: "Read (fst (WriteValue cmd) @ concat (map (\<lambda>cmd. fst (WriteValue cmd)) cmds)) = Inr (cmd, concat (map (\<lambda>cmd. fst (WriteValue cmd)) cmds))"
    using Read_WriteValue_aux(1) [of cmd] Cons.prems by simp
  show ?case
  proof (cases "serveCommand h fl lua be pf cmd c")
    case None
    then show ?thesis by (subst serve.simps) (simp add: r)
  next
    case (Some x)
    obtain y c1 where x: "x = (y, c1)" by fastforce
    show ?thesis
    proof (cases y)
      case (Inl p)
      then show ?thesis using Some x by (subst serve.simps) (simp add: r)
    next
      case (Inr vs)
      have "snd (WriteResponses vs) = None"
        using proper_serveCommand [of h fl lua be pf cmd c] Some x Inr by (intro WriteResponses_ok) (simp add: proper_def)
      then obtain out where "WriteResponses vs = (out, None)" by (cases "WriteResponses vs") simp
      then show ?thesis using Some x Inr Cons.IH [of c1] Cons.prems
        by (subst serve.simps) (simp add: r option.map_comp o_def split_beta)
    qed
  qed
qed

lemma runCommands_replies:
  "runCommands h fl lua be pf cmds c = Some (rs, p, c') \<Longrightarrow>
     (p = None \<longrightarrow> length rs = length cmds) \<and> (\<forall>vs \<in> set rs. vs \<noteq> [] \<and> list_all (wireOK True) vs)"
proof (induction cmds arbitrary: c rs)
  case (Cons cmd cmds)
  then show ?case using proper_serveCommand [of h fl lua be pf cmd c]
    by (fastforce simp: proper_def split: option.splits prod.splits sum.splits)
qed auto

section \<open>MULTI\<close>

definition ordinary :: "Value \<Rightarrow> bool" where
  "ordinary cmd = (vType cmd = Array \<and> vArray cmd \<noteq> [] \<and> ToUpper (arg (vArray cmd) 0) \<notin> {''AUTH'', ''HELLO'', ''SUBSCRIBE'', ''UNSUBSCRIBE'',
     ''PSUBSCRIBE'', ''PUNSUBSCRIBE'', ''PUBLISH'', ''RESET'', ''MULTI'', ''EXEC'', ''DISCARD''})"

definition open' :: "'st connection \<Rightarrow> bool" where
  "open' c = (authenticated c \<and> (inPubSubMode (client c) \<longrightarrow> UseRESP3 (client c)))"

lemma serveCommand_queued:
  assumes "open' c" "inTransaction (client c)" "ordinary cmd"
  shows "serveCommand h fl lua be pf cmd c = Some (Inr [SimpleVal ''QUEUED''], c\<lparr>client := QueueCommand cmd (client c)\<rparr>)"
  using assms by (auto simp: serveCommand_def Let_def open'_def ordinary_def answers_def)

lemma runCommands_queued:
  assumes "open' c" "inTransaction (client c)" "\<forall>cmd \<in> set cmds. ordinary cmd"
  shows "runCommands h fl lua be pf (cmds @ rest) c =
    map_option (\<lambda>(rs, p, c). (replicate (length cmds) [SimpleVal ''QUEUED''] @ rs, p, c))
      (runCommands h fl lua be pf rest (c\<lparr>client := (client c)\<lparr>queuedCommands := queuedCommands (client c) @ cmds\<rparr>\<rparr>))"
  using assms
proof (induction cmds arbitrary: c)
  case (Cons cmd cmds)
  let ?c = "c\<lparr>client := QueueCommand cmd (client c)\<rparr>"
  have "open' ?c" "inTransaction (client ?c)" using Cons.prems by (auto simp: open'_def QueueCommand_def UseRESP3_def)
  from Cons.IH [OF this] Cons.prems show ?case
    by (simp add: serveCommand_queued QueueCommand_def option.map_comp o_def split_beta)
qed (simp add: option.map_id0 split_beta)

lemma serveCommand_names:
  assumes "open' c"
  shows "serveCommand h fl lua be pf (Arr [Bulk ''MULTI'']) c = (case HandleMulti (client c) of (v, cl) \<Rightarrow> Some (Inr [v], c\<lparr>client := cl\<rparr>))"
    "serveCommand h fl lua be pf (Arr [Bulk ''DISCARD'']) c = (case HandleDiscard (client c) of (v, cl) \<Rightarrow> Some (Inr [v], c\<lparr>client := cl\<rparr>))"
    "serveCommand h fl lua be pf (Arr [Bulk ''EXEC'']) c =
       (case HandleExec h fl lua be (ctxOf (client c)) (client c) (world c) of (cl, x) \<Rightarrow> viaHandler (\<lambda>_ c. c) x (c\<lparr>client := cl\<rparr>))"
proof -
  have n: "ToUpper ''MULTI'' = ''MULTI''" "ToUpper ''DISCARD'' = ''DISCARD''" "ToUpper ''EXEC'' = ''EXEC''" by code_simp+
  show "serveCommand h fl lua be pf (Arr [Bulk ''MULTI'']) c = (case HandleMulti (client c) of (v, cl) \<Rightarrow> Some (Inr [v], c\<lparr>client := cl\<rparr>))"
    "serveCommand h fl lua be pf (Arr [Bulk ''DISCARD'']) c = (case HandleDiscard (client c) of (v, cl) \<Rightarrow> Some (Inr [v], c\<lparr>client := cl\<rparr>))"
    "serveCommand h fl lua be pf (Arr [Bulk ''EXEC'']) c =
       (case HandleExec h fl lua be (ctxOf (client c)) (client c) (world c) of (cl, x) \<Rightarrow> viaHandler (\<lambda>_ c. c) x (c\<lparr>client := cl\<rparr>))"
    using assms by (auto simp: serveCommand_def arg_def n Let_def open'_def answers_def simp del: ToUpper.simps)
qed

lemma redactAfterAuth_creds:
  assumes "\<forall>v \<in> set pre. ToUpper (vBulk v) \<noteq> ''AUTH''" "ToUpper (vBulk a) = ''AUTH''"
  shows "redactAfterAuth (pre @ a # u # p # opts) = pre @ a # redacted # redacted # opts"
  using assms by (induction pre) auto

section \<open>Properties\<close>

text \<open>
  C4.  Authentication.  On a server with a password, a client that never sends it
  can send any bytes: the connection stays unauthenticated, the process does
  not panic or hang, storage, script cache and subscriptions are unchanged, and
  the bytes sent back do not depend on what is stored.
\<close>

theorem unauthenticated_sees_nothing:
  assumes "RequiresAuth h" "\<not> authenticated c"
    and "\<forall>cmd \<in> set (commandsIn input). password h \<notin> set (bulks (tl (vArray cmd)))"
  shows "\<exists>out c'. (\<forall>w. serve h fl lua be pf input (c\<lparr>world := w\<rparr>) = Some (out, None, c'\<lparr>world := w\<rparr>)) \<and>
    \<not> authenticated c' \<and> hub c' = map_option (RemoveSubscriber (ID (client c))) (hub c)"
  using unauthenticated_serve [OF assms] .

theorem unauthenticated_sees_nothing_witness:
  "let c = newConnection plainHandler 1 [] 0 None ([], newSession initSchema 0)
   in commandsIn (fst (WriteValue (Arr [Bulk ''AUTH'', Bulk ''guess'']))) = [Arr [Bulk ''AUTH'', Bulk ''guess'']] \<and>
      (\<exists>out c'. serve plainHandler intFloats constLua (sessionBackend quiet) None (fst (WriteValue (Arr [Bulk ''AUTH'', Bulk ''guess'']))) c
         = Some (out, None, c') \<and> \<not> authenticated c' \<and> world c' = ([], newSession initSchema 0))"
proof -
  let ?cmd = "Arr [Bulk ''AUTH'', Bulk ''guess'']" and ?w = "([], newSession initSchema 0) :: int session world"
  let ?c = "newConnection plainHandler 1 [] 0 None ?w"
  have "sendable ?cmd" "canon ?cmd = ?cmd" by (simp_all add: reply_defs MaxBulkLen_def MaxArrayLen_def)
  then have r: "Read (fst (WriteValue ?cmd) @ []) = Inr (?cmd, [])" using Read_WriteValue_aux(1) by metis
  have cmds: "commandsIn (fst (WriteValue ?cmd)) = [?cmd]"
    using r by (subst commandsIn.simps) (simp add: commandsIn.simps)
  have h: "RequiresAuth plainHandler" "password plainHandler = ''secret''" by (simp_all add: RequiresAuth_def plainHandler_def)
  have "\<not> authenticated ?c" "?c\<lparr>world := ?w\<rparr> = ?c" using h by (simp_all add: newConnection_def)
  moreover obtain out c' where "\<forall>w. serve plainHandler intFloats constLua (sessionBackend quiet) None (fst (WriteValue ?cmd)) (?c\<lparr>world := w\<rparr>)
      = Some (out, None, c'\<lparr>world := w\<rparr>)" "\<not> authenticated c'"
    using unauthenticated_sees_nothing [OF h(1) calculation(1), of "fst (WriteValue ?cmd)" intFloats constLua "sessionBackend quiet" None]
    by (auto simp: cmds h bulks_def)
  ultimately have "serve plainHandler intFloats constLua (sessionBackend quiet) None (fst (WriteValue ?cmd)) ?c = Some (out, None, c'\<lparr>world := ?w\<rparr>)"
    "\<not> authenticated (c'\<lparr>world := ?w\<rparr>)" by (metis, simp)
  with cmds show ?thesis by (auto simp: Let_def)
qed







lemma trace_shows_second_auth:
  "redactSensitiveArgs (Arr (map Bulk [''HELLO'', ''3'', ''SETNAME'', ''auth'', ''AUTH'', ''user'', ''secret'']))
     = Arr (map Bulk [''HELLO'', ''3'', ''SETNAME'', ''auth'', ''<redacted>'', ''<redacted>'', ''secret''])"
  by code_simp

lemma reset_keeps_pubsub_mode:
  "inPubSubMode (client (resetConnection h c)) = inPubSubMode (client c)" "\<not> UseRESP3 (client (resetConnection h c))"
  by (simp_all add: resetConnection_def Let_def DiscardTransaction_def SetName_def SetProtocolVersion_def UseRESP3_def)

end
