(* ===== verification/Spec2Isabelle.thy ===== *)
theory Spec2Isabelle
  imports Resp Glob KeyCodec Keyspace ListRanges Sets Hashes ZSetStores BitmapProps HyperLogLog CopyKey Store CachedStore Server
begin

text \<open>
  Verification of the Redis-compatible server over PostgreSQL.
\<close>

end
